(* ===== verification/Acs_Prelude.thy ===== *)
theory Acs_Prelude
  imports Main "HOL-Library.Word" "HOL-Library.Sublist"
begin

text \<open>
  Shared vocabulary of the development: the types of the model (bytes, instants, identifiers),
  the Python string operations the sources use, the state-and-exception monad in which the
  services are written, the frame rules for that monad, and the generic list lemmas the component
  theories rely on.

  Text. A Python \<^verbatim>\<open>str\<close> is a HOL \<^typ>\<open>string\<close>, so a character is a code point below 256
  (the range of \<^typ>\<open>char\<close>); \<^verbatim>\<open>utf8\<close> gives its encoding.
  Instants. \<^verbatim>\<open>time.time()\<close> and PostgreSQL's \<^verbatim>\<open>timestamptz\<close> are both integers counting
  microseconds since the epoch, which is the resolution PostgreSQL stores.
  Identifiers. A UUID is its canonical text, so \<^verbatim>\<open>str(uuid)\<close> is the identity.
\<close>

section \<open>Types\<close>

type_synonym byte = "8 word"
type_synonym bytes = "8 word list"
type_synonym uuid = string
type_synonym instant = int

named_theorems frame_intros \<open>closure rules: which computations keep a relation between states\<close>
named_theorems throw_intros \<open>closure rules: which exceptions a computation can raise\<close>
named_theorems comp_simps \<open>unfolding of the computation combinators\<close>

abbreviation seconds :: "int \<Rightarrow> instant" where
  "seconds n \<equiv> n * 1000000"

section \<open>Python text\<close>

definition py_isspace :: "char \<Rightarrow> bool" where
  "py_isspace c = (let n = (of_char c :: nat) in
     (9 \<le> n \<and> n \<le> 13) \<or> (28 \<le> n \<and> n \<le> 32) \<or> n = 133 \<or> n = 160)"

definition rstrip_by :: "('a \<Rightarrow> bool) \<Rightarrow> 'a list \<Rightarrow> 'a list" where
  "rstrip_by p xs = rev (dropWhile p (rev xs))"

definition py_strip :: "string \<Rightarrow> string" where
  "py_strip s = rstrip_by py_isspace (dropWhile py_isspace s)"

definition py_lower_char :: "char \<Rightarrow> char" where
  "py_lower_char c = (let n = (of_char c :: nat) in
     if (65 \<le> n \<and> n \<le> 90) \<or> (192 \<le> n \<and> n \<le> 222 \<and> n \<noteq> 215) then char_of (n + 32) else c)"

definition py_lower :: "string \<Rightarrow> string" where
  "py_lower s = map py_lower_char s"

fun py_split :: "char \<Rightarrow> string \<Rightarrow> string list" where
  "py_split d [] = [[]]"
| "py_split d (c # cs) =
     (if c = d then [] # py_split d cs
      else (case py_split d cs of [] \<Rightarrow> [[c]] | w # ws \<Rightarrow> (c # w) # ws))"

fun py_join :: "string \<Rightarrow> string list \<Rightarrow> string" where
  "py_join d [] = []"
| "py_join d [w] = w"
| "py_join d (w # ws) = w @ d @ py_join d ws"

fun nat_digits :: "nat \<Rightarrow> string" where
  "nat_digits n =
     (if n < 10 then [char_of (48 + n)] else nat_digits (n div 10) @ [char_of (48 + n mod 10)])"

declare nat_digits.simps [simp del]

definition py_str_int :: "int \<Rightarrow> string" where
  "py_str_int i = (if i < 0 then CHR ''-'' # nat_digits (nat (- i)) else nat_digits (nat i))"

definition utf8_char :: "char \<Rightarrow> bytes" where
  "utf8_char c = (let n = (of_char c :: nat) in
     if n < 128 then [of_nat n] else [of_nat (192 + n div 64), of_nat (128 + n mod 64)])"

definition utf8 :: "string \<Rightarrow> bytes" where
  "utf8 s = concat (map utf8_char s)"

section \<open>Computations with state and exceptions\<close>

text \<open>
  A service method is a computation: it takes the state and returns either the exception it
  raised (\<open>Inl\<close>) or its value (\<open>Inr\<close>), together with the state it leaves behind.
  The state is kept when an exception is raised: every database statement commits on its own.
\<close>

type_synonym ('s, 'e, 'a) comp = "'s \<Rightarrow> ('e + 'a) \<times> 's"

definition ret :: "'a \<Rightarrow> ('s, 'e, 'a) comp" where
  "ret x = (\<lambda>s. (Inr x, s))"

definition throw :: "'e \<Rightarrow> ('s, 'e, 'a) comp" where
  "throw e = (\<lambda>s. (Inl e, s))"

definition bindE :: "('s, 'e, 'a) comp \<Rightarrow> ('a \<Rightarrow> ('s, 'e, 'b) comp) \<Rightarrow> ('s, 'e, 'b) comp" where
  "bindE m f = (\<lambda>s. case m s of (Inl e, s') \<Rightarrow> (Inl e, s') | (Inr x, s') \<Rightarrow> f x s')"

definition catchE :: "('s, 'e, 'a) comp \<Rightarrow> ('e \<Rightarrow> ('s, 'e, 'a) comp) \<Rightarrow> ('s, 'e, 'a) comp" where
  "catchE m h = (\<lambda>s. case m s of (Inl e, s') \<Rightarrow> h e s' | (Inr x, s') \<Rightarrow> (Inr x, s'))"

definition gets :: "('s \<Rightarrow> 'a) \<Rightarrow> ('s, 'e, 'a) comp" where
  "gets f = (\<lambda>s. (Inr (f s), s))"

definition puts :: "('s \<Rightarrow> 's) \<Rightarrow> ('s, 'e, unit) comp" where
  "puts f = (\<lambda>s. (Inr (), f s))"

definition liftE :: "'e + 'a \<Rightarrow> ('s, 'e, 'a) comp" where
  "liftE r = (\<lambda>s. (r, s))"

text \<open>The same for code that touches no state: exceptions only.\<close>

definition bindS :: "'e + 'a \<Rightarrow> ('a \<Rightarrow> 'e + 'b) \<Rightarrow> 'e + 'b" where
  "bindS r f = (case r of Inl e \<Rightarrow> Inl e | Inr x \<Rightarrow> f x)"

text \<open>\<open>guardE b m\<close> is a statement \<^verbatim>\<open>if b: m\<close> whose body ends by raising.\<close>

definition guardE :: "bool \<Rightarrow> ('s, 'e, unit) comp \<Rightarrow> ('s, 'e, unit) comp" where
  "guardE b m = (if b then m else ret ())"


text \<open>\<open>finallyE m k\<close> is \<^verbatim>\<open>try: m finally: k\<close>: \<open>k\<close> runs whether \<open>m\<close> returned or raised.\<close>

definition finallyE :: "('s, 'e, 'a) comp \<Rightarrow> ('s, 'e, unit) comp \<Rightarrow> ('s, 'e, 'a) comp" where
  "finallyE m k = (\<lambda>s. case m s of (r, s') \<Rightarrow> (case k s' of (Inl e, s'') \<Rightarrow> (Inl e, s'') | (Inr _, s'') \<Rightarrow> (r, s'')))"

definition evolves :: "('s \<Rightarrow> 's \<Rightarrow> bool) \<Rightarrow> ('s, 'e, 'a) comp \<Rightarrow> bool" where
  "evolves R m \<longleftrightarrow> (\<forall>s. R s (snd (m s)))"

definition throws_only :: "('e \<Rightarrow> bool) \<Rightarrow> ('s, 'e, 'a) comp \<Rightarrow> bool" where
  "throws_only P m \<longleftrightarrow> (\<forall>s e s'. m s = (Inl e, s') \<longrightarrow> P e)"

fun utf8_decode :: "bytes \<Rightarrow> string option" where
  "utf8_decode [] = Some []"
| "utf8_decode (b # bs) =
     (if unat b < 128 then map_option (Cons (char_of (unat b))) (utf8_decode bs)
      else if unat b = 194 \<or> unat b = 195 then
        (case bs of
           c # cs \<Rightarrow>
             (if 128 \<le> unat c \<and> unat c < 192
              then map_option (Cons (char_of ((unat b - 192) * 64 + (unat c - 128)))) (utf8_decode cs)
              else None)
         | [] \<Rightarrow> None)
      else None)"

section \<open>Frame rules\<close>

text \<open>
  A relation between states that holds of a state and itself and composes (a preorder) is kept
  by a computation as soon as its primitive statements keep it. The rules are collected in
  \<open>frame_intros\<close>, so a frame property of a whole handler is one call of \<open>intro\<close>.
\<close>

locale frame_rel =
  fixes R :: "'s \<Rightarrow> 's \<Rightarrow> bool"
  assumes frame_refl: "R s s"
    and frame_trans: "R s t \<Longrightarrow> R t u \<Longrightarrow> R s u"
begin

lemma ev_ret [frame_intros]: "evolves R (ret x)"
  by (simp add: evolves_def ret_def frame_refl)

lemma ev_throw [frame_intros]: "evolves R (throw e)"
  by (simp add: evolves_def throw_def frame_refl)

lemma ev_gets [frame_intros]: "evolves R (gets f)"
  by (simp add: evolves_def gets_def frame_refl)

lemma ev_liftE [frame_intros]: "evolves R (liftE r)"
  by (simp add: evolves_def liftE_def frame_refl)

lemma ev_puts [frame_intros]: "(\<And>s. R s (f s)) \<Longrightarrow> evolves R (puts f)"
  by (simp add: evolves_def puts_def)

lemma ev_bindE [frame_intros]:
  assumes "evolves R m" and "\<And>x. evolves R (f x)"
  shows "evolves R (bindE m f)"
  unfolding evolves_def
proof
  fix s
  from assms(1) have "R s (snd (m s))" by (simp add: evolves_def)
  moreover have "R (snd (m s)) (snd (f x (snd (m s))))" for x
    using assms(2) by (simp add: evolves_def)
  ultimately show "R s (snd (bindE m f s))"
    by (auto simp: bindE_def split: prod.split sum.split intro: frame_trans)
qed

lemma ev_catchE [frame_intros]:
  assumes "evolves R m" and "\<And>e. evolves R (h e)"
  shows "evolves R (catchE m h)"
  unfolding evolves_def
proof
  fix s
  from assms(1) have "R s (snd (m s))" by (simp add: evolves_def)
  moreover have "R (snd (m s)) (snd (h e (snd (m s))))" for e
    using assms(2) by (simp add: evolves_def)
  ultimately show "R s (snd (catchE m h s))"
    by (auto simp: catchE_def split: prod.split sum.split intro: frame_trans)
qed

lemma ev_finallyE [frame_intros]:
  assumes "evolves R m" and "evolves R k"
  shows "evolves R (finallyE m k)"
  unfolding evolves_def
proof
  fix s
  from assms have "R s (snd (m s))" "R (snd (m s)) (snd (k (snd (m s))))" by (simp_all add: evolves_def)
  then show "R s (snd (finallyE m k s))"
    by (auto simp: finallyE_def split: prod.split sum.split intro: frame_trans)
qed

lemma ev_if [frame_intros]: "evolves R m \<Longrightarrow> evolves R n \<Longrightarrow> evolves R (if b then m else n)"
  by simp

lemma ev_guardE [frame_intros]: "evolves R m \<Longrightarrow> evolves R (guardE b m)"
  by (simp add: guardE_def ev_ret)

lemma ev_case_option [frame_intros]:
  "evolves R m \<Longrightarrow> (\<And>x. evolves R (f x)) \<Longrightarrow> evolves R (case o' of None \<Rightarrow> m | Some x \<Rightarrow> f x)"
  by (simp split: option.split)

lemma ev_case_sum [frame_intros]:
  "(\<And>e. evolves R (g e)) \<Longrightarrow> (\<And>x. evolves R (f x)) \<Longrightarrow> evolves R (case r of Inl e \<Rightarrow> g e | Inr x \<Rightarrow> f x)"
  by (simp split: sum.split)

lemma ev_case_prod [frame_intros]:
  "(\<And>x y. evolves R (f x y)) \<Longrightarrow> evolves R (case p of (x, y) \<Rightarrow> f x y)"
  by (simp split: prod.split)

lemma ev_let [frame_intros]: "(\<And>x. evolves R (f x)) \<Longrightarrow> evolves R (let x = t in f x)"
  by simp

end

text \<open>Keeping a predicate is the instance of the frame relation for an implication.\<close>

interpretation keeps: frame_rel "\<lambda>s s'. P s \<longrightarrow> P s'" for P
  by unfold_locales auto

text \<open>
  The same for a step relation: a predicate every step keeps holds in every state that follows.
\<close>

locale step_invariant =
  fixes step :: "'s \<Rightarrow> 's \<Rightarrow> bool" and I :: "'s \<Rightarrow> bool"
  assumes step_keeps: "step s t \<Longrightarrow> I s \<Longrightarrow> I t"
begin

lemma star_keeps: "rtranclp step s t \<Longrightarrow> I s \<Longrightarrow> I t"
  by (induction rule: rtranclp_induct) (auto dest: step_keeps)

end

section \<open>Exceptions\<close>

lemma throws_onlyD: "throws_only P m \<Longrightarrow> m s = (Inl e, s') \<Longrightarrow> P e"
  unfolding throws_only_def by blast

lemma throws_basic [throw_intros]:
  "throws_only P (ret x)" "throws_only P (gets f)" "throws_only P (puts g)" "P e \<Longrightarrow> throws_only P (throw e)"
  "(\<And>e. r = Inl e \<Longrightarrow> P e) \<Longrightarrow> throws_only P (liftE r)"
  by (simp_all add: throws_only_def ret_def gets_def puts_def throw_def liftE_def)

lemma throws_bindE [throw_intros]:
  "throws_only P m \<Longrightarrow> (\<And>x. throws_only P (f x)) \<Longrightarrow> throws_only P (bindE m f)"
  by (force simp: throws_only_def bindE_def split: prod.splits sum.splits)

lemma throws_catchE [throw_intros]:
  "throws_only Q m \<Longrightarrow> (\<And>e. Q e \<Longrightarrow> throws_only P (h e)) \<Longrightarrow> throws_only P (catchE m h)"
  by (force simp: throws_only_def catchE_def split: prod.splits sum.splits)

lemma throws_finallyE [throw_intros]:
  "throws_only P m \<Longrightarrow> throws_only P k \<Longrightarrow> throws_only P (finallyE m k)"
  by (force simp: throws_only_def finallyE_def split: prod.splits sum.splits)

lemma throws_if [throw_intros]: "throws_only P m \<Longrightarrow> throws_only P n \<Longrightarrow> throws_only P (if b then m else n)"
  by simp

lemma throws_guardE [throw_intros]: "throws_only P m \<Longrightarrow> throws_only P (guardE b m)"
  by (simp add: guardE_def throws_basic)

lemma throws_cases [throw_intros]:
  "(o' = None \<Longrightarrow> throws_only P m) \<Longrightarrow> (\<And>x. o' = Some x \<Longrightarrow> throws_only P (f x)) \<Longrightarrow>
     throws_only P (case o' of None \<Rightarrow> m | Some x \<Rightarrow> f x)"
  "(\<And>e. r = Inl e \<Longrightarrow> throws_only P (g e)) \<Longrightarrow> (\<And>x. r = Inr x \<Longrightarrow> throws_only P (h x)) \<Longrightarrow>
     throws_only P (case r of Inl e \<Rightarrow> g e | Inr x \<Rightarrow> h x)"
  "(\<And>x y. throws_only P (k x y)) \<Longrightarrow> throws_only P (case p of (x, y) \<Rightarrow> k x y)"
  "(\<And>x. throws_only P (l x)) \<Longrightarrow> throws_only P (let x = t in l x)"
  by (simp_all split: option.split sum.split prod.split)

section \<open>Evaluation of computations\<close>

lemma ret_apply [comp_simps]: "ret x s = (Inr x, s)"
  by (simp add: ret_def)

lemma throw_apply [comp_simps]: "throw e s = (Inl e, s)"
  by (simp add: throw_def)

lemma gets_apply [comp_simps]: "gets f s = (Inr (f s), s)"
  by (simp add: gets_def)

lemma puts_apply [comp_simps]: "puts f s = (Inr (), f s)"
  by (simp add: puts_def)

lemma liftE_apply [comp_simps]: "liftE r s = (r, s)"
  by (simp add: liftE_def)

lemma bindE_apply [comp_simps]:
  "bindE m f s = (case m s of (Inl e, s') \<Rightarrow> (Inl e, s') | (Inr x, s') \<Rightarrow> f x s')"
  by (simp add: bindE_def)

lemma catchE_apply [comp_simps]:
  "catchE m h s = (case m s of (Inl e, s') \<Rightarrow> h e s' | (Inr x, s') \<Rightarrow> (Inr x, s'))"
  by (simp add: catchE_def)

lemma finallyE_apply [comp_simps]:
  "finallyE m k s = (case m s of (r, s') \<Rightarrow> (case k s' of (Inl e, s'') \<Rightarrow> (Inl e, s'') | (Inr _, s'') \<Rightarrow> (r, s'')))"
  by (simp add: finallyE_def)

lemma guardE_apply [comp_simps]: "guardE b m s = (if b then m s else (Inr (), s))"
  by (simp add: guardE_def ret_def)

text \<open>Inversion of a computation that returned: every statement before the end returned too.\<close>

lemma bindE_Inr_iff:
  "bindE m f s = (Inr y, s'') \<longleftrightarrow> (\<exists>x s'. m s = (Inr x, s') \<and> f x s' = (Inr y, s''))"
  by (auto simp: bindE_def split: prod.splits sum.splits)

lemma guardE_throwing_Inr_iff:
  assumes "\<And>s x s'. m s \<noteq> (Inr x, s')"
  shows "guardE b m s = (Inr u, s') \<longleftrightarrow> \<not> b \<and> s' = s"
  using assms by (auto simp: guardE_def ret_def)

lemma bindS_simps [simp]: "bindS (Inl e) f = Inl e" "bindS (Inr x) f = f x"
  by (simp_all add: bindS_def)

lemma bindS_Inr_iff: "bindS r f = Inr y \<longleftrightarrow> (\<exists>x. r = Inr x \<and> f x = Inr y)"
  by (cases r) auto

lemma bindS_Inl_iff: "bindS r f = Inl e \<longleftrightarrow> r = Inl e \<or> (\<exists>x. r = Inr x \<and> f x = Inl e)"
  by (cases r) auto

lemma bindS_split:
  "P (bindS r f) \<longleftrightarrow> (\<forall>e. r = Inl e \<longrightarrow> P (Inl e)) \<and> (\<forall>x. r = Inr x \<longrightarrow> P (f x))"
  by (cases r) auto

section \<open>Lists\<close>

lemma rstrip_by_append:
  "(\<And>x. x \<in> set ys \<Longrightarrow> p x) \<Longrightarrow> rstrip_by p (xs @ ys) = rstrip_by p xs"
  unfolding rstrip_by_def rev_append by (subst dropWhile_append2) auto

lemma rstrip_by_none: "(\<And>x. x \<in> set xs \<Longrightarrow> \<not> p x) \<Longrightarrow> rstrip_by p xs = xs"
  by (cases xs rule: rev_cases) (auto simp: rstrip_by_def)

lemma rstrip_by_append_none:
  assumes "\<And>x. x \<in> set xs \<Longrightarrow> \<not> p x"
  shows "rstrip_by p (xs @ ys) = xs @ rstrip_by p ys"
proof (cases "\<forall>y \<in> set ys. p y")
  case True
  then have "rstrip_by p (xs @ ys) = rstrip_by p xs" by (simp add: rstrip_by_append)
  moreover have "rstrip_by p ys = []" using True by (simp add: rstrip_by_def)
  ultimately show ?thesis using assms by (simp add: rstrip_by_none)
next
  case False
  then show ?thesis by (auto simp: rstrip_by_def dropWhile_append)
qed

lemma prefix_snoc_self [simp]: "prefix xs (xs @ ys)"
  by (simp add: prefix_def)

section \<open>Splitting and joining\<close>

lemma py_split_none: "d \<notin> set s \<Longrightarrow> py_split d s = [s]"
  by (induction s) auto

lemma py_split_append: "d \<notin> set s \<Longrightarrow> py_split d (s @ d # t) = s # py_split d t"
  by (induction s) auto

section \<open>UTF-8\<close>

lemma unat_of_nat_byte: "n < 256 \<Longrightarrow> unat (of_nat n :: byte) = n"
  by (simp add: unat_of_nat)

lemma utf8_Nil [simp]: "utf8 [] = []"
  by (simp add: utf8_def)

lemma utf8_Cons: "utf8 (c # cs) = utf8_char c @ utf8 cs"
  by (simp add: utf8_def)

lemma utf8_append [simp]: "utf8 (s @ t) = utf8 s @ utf8 t"
  by (simp add: utf8_def)

lemma utf8_decode_char:
  "utf8_decode (utf8_char c @ bs) = map_option (Cons c) (utf8_decode bs)"
proof (cases "(of_char c :: nat) < 128")
  case True
  then show ?thesis
    by (simp add: utf8_char_def unat_of_nat_byte)
next
  case False
  let ?n = "of_char c :: nat"
  have lt: "?n < 256" by simp
  have hi: "?n div 64 = 2 \<or> ?n div 64 = 3" using False lt by linarith
  have lo: "?n mod 64 < 64" by simp
  have whole: "(?n div 64) * 64 + ?n mod 64 = ?n" by (rule div_mult_mod_eq)
  have hiw: "unat (of_nat (192 + ?n div 64) :: byte) = 192 + ?n div 64"
    by (rule unat_of_nat_byte) (use hi in auto)
  have low: "unat (of_nat (128 + ?n mod 64) :: byte) = 128 + ?n mod 64"
    by (rule unat_of_nat_byte) (use lo in linarith)
  have enc: "utf8_char c = [of_nat (192 + ?n div 64), of_nat (128 + ?n mod 64)]"
    using False by (simp add: utf8_char_def Let_def)
  show ?thesis
    unfolding enc using hi lo whole
    by (auto simp: hiw low simp del: of_nat_add)
qed

lemma utf8_roundtrip: "utf8_decode (utf8 s) = Some s"
  by (induction s) (simp_all add: utf8_Cons utf8_decode_char del: utf8_decode.simps(2))

lemma utf8_inj: "utf8 s = utf8 t \<longleftrightarrow> s = t"
  by (metis option.inject utf8_roundtrip)

end
