(* ===== verification/Text_Codec.thy ===== *)
theory Text_Codec
  imports Acs_Prelude
begin

text \<open>
  The binary codecs of the Python standard library that the sources call: \<^verbatim>\<open>base64.b64encode\<close>,
  \<^verbatim>\<open>base64.urlsafe_b64encode\<close>, \<^verbatim>\<open>base64.b64decode\<close> (with and without \<^verbatim>\<open>validate=True\<close>, following the
  state machine of CPython's \<^verbatim>\<open>binascii.a2b_base64\<close>), \<^verbatim>\<open>int.from_bytes\<close>, \<^verbatim>\<open>int.to_bytes\<close> and HMAC
  over a given hash function. The alphabet of base64 is an interface with two instances; the
  round trip is proved once for both.
\<close>

unbundle bit_operations_syntax

section \<open>Definitions\<close>

text \<open>The two alphabets: value to character and back.\<close>

definition b64_char_of :: "nat \<Rightarrow> nat \<Rightarrow> nat \<Rightarrow> char" where
  "b64_char_of c62 c63 k =
     char_of (if k < 26 then 65 + k else if k < 52 then 71 + k else if k < 62 then k - 4
              else if k = 62 then c62 else c63)"

definition b64_std :: "nat \<Rightarrow> char" where
  "b64_std = b64_char_of 43 47"

definition b64_url :: "nat \<Rightarrow> char" where
  "b64_url = b64_char_of 45 95"

definition b64_value :: "nat \<Rightarrow> nat \<Rightarrow> char \<Rightarrow> nat option" where
  "b64_value c62 c63 c = (let n = (of_char c :: nat) in
     if 65 \<le> n \<and> n \<le> 90 then Some (n - 65)
     else if 97 \<le> n \<and> n \<le> 122 then Some (n - 71)
     else if 48 \<le> n \<and> n \<le> 57 then Some (n + 4)
     else if n = c62 then Some 62
     else if n = c63 then Some 63
     else None)"

definition b64_std_value :: "char \<Rightarrow> nat option" where
  "b64_std_value = b64_value 43 47"

definition b64_url_value :: "char \<Rightarrow> nat option" where
  "b64_url_value = b64_value 45 95"

abbreviation b64_pad :: char where
  "b64_pad \<equiv> CHR ''=''"

text \<open>Three bytes become four characters; one or two left-over bytes are padded with \<^verbatim>\<open>=\<close>.\<close>

fun b64_encode :: "(nat \<Rightarrow> char) \<Rightarrow> bytes \<Rightarrow> string" where
  "b64_encode al [] = []"
| "b64_encode al [a] =
     [al (unat a div 4), al (unat a mod 4 * 16), b64_pad, b64_pad]"
| "b64_encode al [a, b] =
     [al (unat a div 4), al (unat a mod 4 * 16 + unat b div 16), al (unat b mod 16 * 4), b64_pad]"
| "b64_encode al (a # b # c # rest) =
     [al (unat a div 4), al (unat a mod 4 * 16 + unat b div 16),
      al (unat b mod 16 * 4 + unat c div 64), al (unat c mod 64)] @ b64_encode al rest"

text \<open>
  The decoder: \<open>quad\<close> is the position in the current group of four, \<open>left\<close> the bits not yet
  written, \<open>pads\<close> the padding characters seen in this group and \<open>padding\<close> whether any was seen.
\<close>

fun a2b_base64 :: "(char \<Rightarrow> nat option) \<Rightarrow> bool \<Rightarrow> nat \<Rightarrow> nat \<Rightarrow> nat \<Rightarrow> bool \<Rightarrow> string \<Rightarrow> bytes option"
where
  "a2b_base64 val strict quad left pads padding [] = (if quad = 0 then Some [] else None)"
| "a2b_base64 val strict quad left pads padding (c # cs) =
     (if c = b64_pad then
        (if 2 \<le> quad \<and> 4 \<le> quad + pads + 1 then
           (if strict \<and> cs \<noteq> [] then None else Some [])
         else a2b_base64 val strict quad left (if 2 \<le> quad then pads + 1 else pads) True cs)
      else (case val c of
          None \<Rightarrow> (if strict then None else a2b_base64 val strict quad left pads padding cs)
        | Some k \<Rightarrow>
            if strict \<and> padding then None
            else if quad = 0 then a2b_base64 val strict 1 k 0 padding cs
            else if quad = 1 then
              map_option (Cons (of_nat (left * 4 + k div 16))) (a2b_base64 val strict 2 (k mod 16) 0 padding cs)
            else if quad = 2 then
              map_option (Cons (of_nat (left * 16 + k div 4))) (a2b_base64 val strict 3 (k mod 4) 0 padding cs)
            else
              map_option (Cons (of_nat (left * 64 + k))) (a2b_base64 val strict 0 0 0 padding cs)))"

definition b64encode :: "bytes \<Rightarrow> string" where
  "b64encode bs = b64_encode b64_std bs"

definition urlsafe_b64encode :: "bytes \<Rightarrow> string" where
  "urlsafe_b64encode bs = b64_encode b64_url bs"

definition b64decode :: "bool \<Rightarrow> string \<Rightarrow> bytes option" where
  "b64decode validate s =
     (if list_ex (\<lambda>c. (of_char c :: nat) \<ge> 128) s then None
      else if validate \<and> s \<noteq> [] \<and> hd s = b64_pad then None
      else a2b_base64 b64_std_value validate 0 0 0 False s)"

text \<open>\<^verbatim>\<open>urlsafe_b64encode(raw).rstrip("=")\<close>, also the body of \<^verbatim>\<open>secrets.token_urlsafe\<close>.\<close>

definition urlsafe_nopad :: "bytes \<Rightarrow> string" where
  "urlsafe_nopad bs = rstrip_by (\<lambda>c. c = b64_pad) (urlsafe_b64encode bs)"

definition int_from_bytes :: "bytes \<Rightarrow> nat" where
  "int_from_bytes bs = foldl (\<lambda>acc b. acc * 256 + unat b) 0 bs"

fun nat_to_bytes :: "nat \<Rightarrow> nat \<Rightarrow> bytes" where
  "nat_to_bytes 0 n = []"
| "nat_to_bytes (Suc k) n = nat_to_bytes k (n div 256) @ [of_nat (n mod 256)]"

text \<open>\<^verbatim>\<open>int.to_bytes(k, "big")\<close>: \<open>None\<close> is the OverflowError.\<close>

definition int_to_bytes :: "nat \<Rightarrow> int \<Rightarrow> bytes option" where
  "int_to_bytes k i = (if 0 \<le> i \<and> i < 256 ^ k then Some (nat_to_bytes k (nat i)) else None)"

text \<open>HMAC (RFC 2104) with the 64-byte block of SHA-256, over the hash function \<open>h\<close>.\<close>

definition hmac_key_block :: "(bytes \<Rightarrow> bytes) \<Rightarrow> bytes \<Rightarrow> bytes" where
  "hmac_key_block h key =
     (let k = (if 64 < length key then h key else key) in k @ replicate (64 - length k) 0)"

definition hmac_digest :: "(bytes \<Rightarrow> bytes) \<Rightarrow> bytes \<Rightarrow> bytes \<Rightarrow> bytes" where
  "hmac_digest h key msg =
     (let k = hmac_key_block h key
      in h (map (\<lambda>b. b XOR 0x5C) k @ h (map (\<lambda>b. b XOR 0x36) k @ msg)))"

text \<open>A concrete function to 32 bytes (both ends of its input), for the evaluated examples of later theories.\<close>

definition sample_hash :: "bytes \<Rightarrow> bytes" where
  "sample_hash x = take 32 (take 8 (rev x) @ take 8 x @ take 8 x @ take 8 (rev x) @ replicate 32 0)"

section \<open>Base64: regrouping eight-bit bytes into six-bit digits\<close>

lemma byte_less: "unat (w::byte) < 256"
  using unsigned_less [of w, where 'a = nat] by simp

lemma byte_div: "unat (w::byte) div 4 < 64" "unat w div 16 < 16" "unat w div 64 < 4"
  by (rule less_mult_imp_div_less, use byte_less [of w] in simp)+

lemma digit_split:
  fixes m q :: nat
  shows "q < 16 \<Longrightarrow> (m * 16 + q) div 16 = m" "q < 16 \<Longrightarrow> (m * 16 + q) mod 16 = q"
    "q < 4 \<Longrightarrow> (m * 4 + q) div 4 = m" "q < 4 \<Longrightarrow> (m * 4 + q) mod 4 = q"
  by simp_all

lemma digit_bounds:
  fixes a b c :: byte
  shows "unat a mod 4 * 16 + unat b div 16 < 64" "unat b mod 16 * 4 + unat c div 64 < 64"
    "unat c mod 64 < 64" "unat a mod 4 * 16 < 64" "unat b mod 16 * 4 < 64"
proof -
  have "unat a mod 4 < 4" "unat b mod 16 < 16" by simp_all
  with byte_div(2) [of b] byte_div(3) [of c]
  show "unat a mod 4 * 16 + unat b div 16 < 64" "unat b mod 16 * 4 + unat c div 64 < 64"
    "unat a mod 4 * 16 < 64" "unat b mod 16 * 4 < 64"
    by linarith+
qed simp

lemma rejoin:
  fixes a b c :: byte
  shows "unat a div 4 * 4 + (unat a mod 4 * 16 + unat b div 16) div 16 = unat a"
    and "unat a div 4 * 4 + unat a mod 4 = unat a"
    and "(unat a mod 4 * 16 + unat b div 16) mod 16 * 16 + (unat b mod 16 * 4 + unat c div 64) div 4 = unat b"
    and "(unat a mod 4 * 16 + unat b div 16) mod 16 * 16 + unat b mod 16 = unat b"
    and "(unat b mod 16 * 4 + unat c div 64) mod 4 * 64 + unat c mod 64 = unat c"
  by (simp_all only: digit_split byte_div div_mult_mod_eq)

section \<open>Base64: the alphabet as an interface\<close>

locale b64_alphabet =
  fixes al :: "nat \<Rightarrow> char"
    and val :: "char \<Rightarrow> nat option"
  assumes val_al: "k < 64 \<Longrightarrow> val (al k) = Some k"
    and al_not_pad: "k < 64 \<Longrightarrow> al k \<noteq> b64_pad"
begin

lemma digit_step:
  assumes "k < 64"
  shows "a2b_base64 val strict 0 left pads False (al k # cs) = a2b_base64 val strict 1 k 0 False cs"
    and "a2b_base64 val strict 1 left pads False (al k # cs) =
      map_option (Cons (of_nat (left * 4 + k div 16))) (a2b_base64 val strict 2 (k mod 16) 0 False cs)"
    and "a2b_base64 val strict (Suc 0) left pads False (al k # cs) =
      map_option (Cons (of_nat (left * 4 + k div 16))) (a2b_base64 val strict 2 (k mod 16) 0 False cs)"
    and "a2b_base64 val strict 2 left pads False (al k # cs) =
      map_option (Cons (of_nat (left * 16 + k div 4))) (a2b_base64 val strict 3 (k mod 4) 0 False cs)"
    and "a2b_base64 val strict 3 left pads False (al k # cs) =
      map_option (Cons (of_nat (left * 64 + k))) (a2b_base64 val strict 0 0 0 False cs)"
  using assms by (simp_all add: val_al al_not_pad)

lemma pad_step:
  "a2b_base64 val strict 2 left 0 False [b64_pad, b64_pad] = Some []"
  "a2b_base64 val strict 3 left 0 False [b64_pad] = Some []"
  by simp_all

lemma triple_induct:
  assumes "P []" and "\<And>a. P [a]" and "\<And>a b. P [a, b]"
    and "\<And>a b c rest. P rest \<Longrightarrow> P (a # b # c # rest)"
  shows "P (bs :: bytes)"
  using b64_encode.induct [of "\<lambda>_. P"] assms by blast

lemma decode_encode: "a2b_base64 val strict 0 0 0 False (b64_encode al bs) = Some bs"
  by (induction bs rule: triple_induct)
    (simp_all add: digit_step byte_div digit_bounds pad_step rejoin
      del: a2b_base64.simps(2) of_nat_add of_nat_mult)

lemma encode_inj: "b64_encode al bs = b64_encode al cs \<Longrightarrow> bs = cs"
  by (metis decode_encode option.inject)

lemma encode_chars: "set (b64_encode al bs) \<subseteq> insert b64_pad (al ` {..<64})"
  by (induction bs rule: triple_induct) (auto simp: byte_div digit_bounds)

text \<open>Stripping the padding loses nothing: it is determined by the length.\<close>

lemma encode_length: "4 dvd length (b64_encode al bs)"
proof (induction bs rule: triple_induct)
  case (4 a b c rest)
  then show ?case by (simp add: dvd_eq_mod_eq_0)
qed (simp_all add: dvd_eq_mod_eq_0)

lemma encode_shape:
  "\<exists>ds p. (\<forall>d \<in> set ds. d < 64) \<and> p < 3 \<and> b64_encode al bs = map al ds @ replicate p b64_pad"
proof (induction bs rule: triple_induct)
  case 1
  show ?case by (intro exI [of _ "[]"] exI [of _ 0]) simp
next
  case (2 a)
  show ?case
    by (intro exI [of _ "[unat a div 4, unat a mod 4 * 16]"] exI [of _ 2])
      (simp add: byte_div digit_bounds numeral_2_eq_2)
next
  case (3 a b)
  show ?case
    by (intro exI [of _ "[unat a div 4, unat a mod 4 * 16 + unat b div 16, unat b mod 16 * 4]"] exI [of _ 1])
      (simp add: byte_div digit_bounds)
next
  case (4 a b c rest)
  then obtain ds p where "\<forall>d \<in> set ds. d < 64" "p < 3" "b64_encode al rest = map al ds @ replicate p b64_pad"
    by blast
  then show ?case
    by (intro exI [of _ "[unat a div 4, unat a mod 4 * 16 + unat b div 16,
          unat b mod 16 * 4 + unat c div 64, unat c mod 64] @ ds"] exI [of _ p])
      (simp add: byte_div digit_bounds)
qed

lemma strip_padding:
  assumes "\<forall>d \<in> set ds. d < 64"
  shows "rstrip_by (\<lambda>c. c = b64_pad) (map al ds @ replicate p b64_pad) = map al ds"
proof -
  have "rstrip_by (\<lambda>c. c = b64_pad) (map al ds @ replicate p b64_pad)
      = map al ds @ rstrip_by (\<lambda>c. c = b64_pad) (replicate p b64_pad)"
    by (rule rstrip_by_append_none) (use assms al_not_pad in auto)
  then show ?thesis by (simp add: rstrip_by_def)
qed

lemma nopad_shape:
  "\<exists>ds p. (\<forall>d \<in> set ds. d < 64) \<and> p < 3 \<and> b64_encode al bs = map al ds @ replicate p b64_pad
     \<and> rstrip_by (\<lambda>c. c = b64_pad) (b64_encode al bs) = map al ds"
  using encode_shape [of bs] by (metis strip_padding)

lemma nopad_no_pad: "b64_pad \<notin> set (rstrip_by (\<lambda>c. c = b64_pad) (b64_encode al bs))"
proof -
  obtain ds where "\<forall>d \<in> set ds. d < 64"
    and strip: "rstrip_by (\<lambda>c. c = b64_pad) (b64_encode al bs) = map al ds"
    using nopad_shape by blast
  then have "\<forall>d \<in> set ds. al d \<noteq> b64_pad" using al_not_pad by blast
  then show ?thesis unfolding strip by auto
qed

lemma encode_lead: "b64_encode al bs = c # cs \<Longrightarrow> c \<noteq> b64_pad"
  by (induction bs rule: triple_induct) (auto simp: al_not_pad byte_div)

lemma nopad_inj:
  assumes "rstrip_by (\<lambda>c. c = b64_pad) (b64_encode al bs) = rstrip_by (\<lambda>c. c = b64_pad) (b64_encode al cs)"
    (is "?r bs = ?r cs")
  shows "bs = cs"
proof -
  obtain ds p where p: "p < 3" "b64_encode al bs = map al ds @ replicate p b64_pad" "?r bs = map al ds"
    using nopad_shape by blast
  obtain es q where q: "q < 3" "b64_encode al cs = map al es @ replicate q b64_pad" "?r cs = map al es"
    using nopad_shape by blast
  have same: "map al ds = map al es" using assms p(3) q(3) by simp
  then have "length ds = length es" by (metis length_map)
  moreover have "4 dvd length ds + p" "4 dvd length es + q"
    using encode_length [of bs] encode_length [of cs] p(2) q(2) by simp_all
  ultimately have "p = q" using p(1) q(1) by presburger
  then have "b64_encode al bs = b64_encode al cs" using p(2) q(2) same by simp
  then show ?thesis by (rule encode_inj)
qed

end

lemma b64_char_of_code:
  assumes "k < 64" and "c62 < 256" and "c63 < 256"
  shows "of_char (b64_char_of c62 c63 k) =
    (if k < 26 then 65 + k else if k < 52 then 71 + k else if k < 62 then k - 4
     else if k = 62 then c62 else c63)"
  unfolding b64_char_of_def of_char_of by (rule mod_less) (use assms in auto)

lemma b64_alphabetI:
  assumes "c62 = 43 \<or> c62 = 45" and "c63 = 47 \<or> c63 = 95"
  shows "b64_alphabet (b64_char_of c62 c63) (b64_value c62 c63)"
proof
  fix k :: nat
  assume k: "k < 64"
  from assms have "c62 < 256" "c63 < 256" by auto
  note code = b64_char_of_code [OF k this]
  let ?c = "b64_char_of c62 c63 k"
  consider (upper) "k < 26" | (lower) "26 \<le> k" "k < 52" | (digit) "52 \<le> k" "k < 62"
    | (k62) "k = 62" | (k63) "k = 63"
    using k by linarith
  then have "b64_value c62 c63 ?c = Some k \<and> of_char ?c \<noteq> (61::nat)"
  proof cases
    case upper
    then have n: "of_char ?c = 65 + k" by (simp add: code)
    with upper show ?thesis by (simp add: b64_value_def)
  next
    case lower
    then have n: "of_char ?c = 71 + k" by (simp add: code)
    with lower show ?thesis by (simp add: b64_value_def)
  next
    case digit
    then obtain j where "k = 52 + j" using le_Suc_ex by blast
    with digit have j: "k = 52 + j" "j < 10" by simp_all
    have n: "of_char ?c = 48 + j" unfolding code using j by simp
    with j show ?thesis by (simp add: b64_value_def)
  next
    case k62
    have n: "of_char ?c = c62" unfolding code using k62 by simp
    with k62 assms show ?thesis by (elim disjE) (simp_all add: b64_value_def)
  next
    case k63
    have n: "of_char ?c = c63" unfolding code using k63 by simp
    with k63 assms show ?thesis by (elim disjE) (simp_all add: b64_value_def)
  qed
  then show "b64_value c62 c63 ?c = Some k" and "?c \<noteq> b64_pad" by auto
qed

interpretation std: b64_alphabet b64_std b64_std_value
  unfolding b64_std_def b64_std_value_def by (rule b64_alphabetI) auto

interpretation url: b64_alphabet b64_url b64_url_value
  unfolding b64_url_def b64_url_value_def by (rule b64_alphabetI) auto

lemma b64_std_ascii: "k < 64 \<Longrightarrow> (of_char (b64_std k) :: nat) < 128"
  unfolding b64_std_def by (subst b64_char_of_code) auto

lemma encode_ascii: "c \<in> set (b64_encode b64_std bs) \<Longrightarrow> (of_char c :: nat) < 128"
  using std.encode_chars [of bs] b64_std_ascii by force

section \<open>Facts the components use\<close>

theorem b64decode_b64encode: "b64decode validate (b64encode bs) = Some bs"
proof -
  have ascii: "\<not> list_ex (\<lambda>c. (of_char c :: nat) \<ge> 128) (b64encode bs)"
    using encode_ascii by (simp add: b64encode_def list_ex_iff not_le)
  have lead: "b64encode bs \<noteq> [] \<Longrightarrow> hd (b64encode bs) \<noteq> b64_pad"
    unfolding b64encode_def using std.encode_lead by (metis list.collapse)
  show ?thesis
    using ascii lead std.decode_encode [of validate bs] by (auto simp: b64decode_def b64encode_def)
qed

lemma urlsafe_nopad_inj: "urlsafe_nopad bs = urlsafe_nopad cs \<longleftrightarrow> bs = cs"
  unfolding urlsafe_nopad_def urlsafe_b64encode_def using url.nopad_inj by auto

lemma urlsafe_nopad_no_pad: "b64_pad \<notin> set (urlsafe_nopad bs)"
  unfolding urlsafe_nopad_def urlsafe_b64encode_def by (rule url.nopad_no_pad)

lemma b64_url_graph: "k < 64 \<Longrightarrow> 45 \<le> (of_char (b64_url k) :: nat) \<and> of_char (b64_url k) \<le> (122 :: nat)"
  unfolding b64_url_def by (subst (1 2) b64_char_of_code) auto

lemma urlsafe_nopad_graph:
  assumes "c \<in> set (urlsafe_nopad bs)"
  shows "45 \<le> (of_char c :: nat) \<and> of_char c \<le> (122 :: nat)"
proof -
  obtain ds where d: "\<forall>d \<in> set ds. d < 64" and "urlsafe_nopad bs = map b64_url ds"
    unfolding urlsafe_nopad_def urlsafe_b64encode_def using url.nopad_shape by blast
  with assms obtain k where "k \<in> set ds" "c = b64_url k" by auto
  with d show ?thesis using b64_url_graph by simp
qed

lemma urlsafe_nopad_strip: "py_strip (urlsafe_nopad bs) = urlsafe_nopad bs"
proof -
  have ns: "\<not> py_isspace c" if "c \<in> set (urlsafe_nopad bs)" for c
    using urlsafe_nopad_graph [OF that] by (simp add: py_isspace_def)
  have "dropWhile py_isspace (urlsafe_nopad bs) = urlsafe_nopad bs"
    using ns by (cases "urlsafe_nopad bs") auto
  then show ?thesis using ns by (simp add: py_strip_def rstrip_by_none)
qed

lemma length_b64_encode: "length (b64_encode al bs) = 4 * ((length bs + 2) div 3)"
proof (induction al bs rule: b64_encode.induct)
  case (4 al a b c rest)
  have "(length rest + 2 + 3 * 1) div 3 = (length rest + 2) div 3 + 1" by (subst div_mult_self2) simp_all
  with 4 show ?case by (simp add: add.commute)
qed simp_all

lemma length_urlsafe_nopad: "4 * ((length bs + 2) div 3) \<le> length (urlsafe_nopad bs) + 2"
proof -
  obtain ds p where "p < 3" and "b64_encode b64_url bs = map b64_url ds @ replicate p b64_pad"
    and "urlsafe_nopad bs = map b64_url ds"
    unfolding urlsafe_nopad_def urlsafe_b64encode_def using url.nopad_shape by blast
  then show ?thesis using length_b64_encode [of b64_url bs] by simp
qed

lemma urlsafe_nopad_Nil: "urlsafe_nopad bs = [] \<longleftrightarrow> bs = []"
proof -
  have "urlsafe_nopad [] = []" by (simp add: urlsafe_nopad_def urlsafe_b64encode_def rstrip_by_def)
  then show ?thesis using urlsafe_nopad_inj [of bs "[]"] by simp
qed

lemma length_sample_hash: "length (sample_hash x) = 32"
  by (simp add: sample_hash_def)

lemma length_nat_to_bytes [simp]: "length (nat_to_bytes k n) = k"
  by (induction k arbitrary: n) auto

lemma int_from_bytes_snoc: "int_from_bytes (bs @ [b]) = int_from_bytes bs * 256 + unat b"
  by (simp add: int_from_bytes_def)

lemma int_from_nat_to_bytes: "n < 256 ^ k \<Longrightarrow> int_from_bytes (nat_to_bytes k n) = n"
proof (induction k arbitrary: n)
  case 0
  then show ?case by (simp add: int_from_bytes_def)
next
  case (Suc k)
  then have "n div 256 < 256 ^ k" by (simp add: less_mult_imp_div_less mult.commute)
  then show ?case
    by (simp add: Suc.IH int_from_bytes_snoc unat_of_nat_byte del: of_nat_mod)
qed

lemma int_to_bytes_inj:
  "int_to_bytes k i = Some bs \<Longrightarrow> int_to_bytes k j = Some bs \<Longrightarrow> i = j"
  by (auto simp: int_to_bytes_def split: if_splits)
    (metis int_from_nat_to_bytes nat_less_iff nat_eq_iff2 of_nat_numeral of_nat_power)

end
