(* ===== verification/Errors.thy ===== *)
theory Errors
  imports Acs_Prelude
begin

text \<open>
  \<^verbatim>\<open>backend/app/core/errors.py\<close>: the reasons a phone is told, the audit event names, the exceptions
  of the API and the response each of them becomes; and the other Python exceptions the modelled
  code raises or catches.
\<close>

datatype DenyReason = DENIED | NOT_PRESENT | CONTROLLER_OFFLINE | RATE_LIMITED | FAILED

fun deny_value :: "DenyReason \<Rightarrow> string" where
  "deny_value DENIED = ''denied''"
| "deny_value NOT_PRESENT = ''not_present''"
| "deny_value CONTROLLER_OFFLINE = ''controller_offline''"
| "deny_value RATE_LIMITED = ''rate_limited''"
| "deny_value FAILED = ''failed''"

datatype AuditEvent =
    DEVICE_ENROLL | DEVICE_ENROLL_DENIED
  | AUTH_LOGIN | AUTH_LOGIN_FAILED | AUTH_REFRESH | AUTH_REFRESH_REUSE | AUTH_LOGOUT
  | AUTH_TOKEN_REJECTED
  | DOOR_UNLOCK_REQUESTED | DOOR_UNLOCK_GRANTED | DOOR_UNLOCK_DENIED | DOOR_UNLOCK_CONFIRMED
  | DOOR_UNLOCK_FAILED
  | RATE_LIMIT_TRIPPED
  | CONTROLLER_CONNECTED | CONTROLLER_AUTH_FAILED | CONTROLLER_DISCONNECTED
  | ADMIN_ACTION

fun event_value :: "AuditEvent \<Rightarrow> string" where
  "event_value DEVICE_ENROLL = ''device.enroll''"
| "event_value DEVICE_ENROLL_DENIED = ''device.enroll_denied''"
| "event_value AUTH_LOGIN = ''auth.login''"
| "event_value AUTH_LOGIN_FAILED = ''auth.login_failed''"
| "event_value AUTH_REFRESH = ''auth.refresh''"
| "event_value AUTH_REFRESH_REUSE = ''auth.refresh_reuse_detected''"
| "event_value AUTH_LOGOUT = ''auth.logout''"
| "event_value AUTH_TOKEN_REJECTED = ''auth.token_rejected''"
| "event_value DOOR_UNLOCK_REQUESTED = ''door.unlock_requested''"
| "event_value DOOR_UNLOCK_GRANTED = ''door.unlock_granted''"
| "event_value DOOR_UNLOCK_DENIED = ''door.unlock_denied''"
| "event_value DOOR_UNLOCK_CONFIRMED = ''door.unlock_confirmed''"
| "event_value DOOR_UNLOCK_FAILED = ''door.unlock_failed''"
| "event_value RATE_LIMIT_TRIPPED = ''rate.limit_tripped''"
| "event_value CONTROLLER_CONNECTED = ''controller.connected''"
| "event_value CONTROLLER_AUTH_FAILED = ''controller.auth_failed''"
| "event_value CONTROLLER_DISCONNECTED = ''controller.disconnected''"
| "event_value ADMIN_ACTION = ''admin.action''"

text \<open>
  \<open>ApiError\<close> and its subclasses. \<open>AuthenticationError\<close> and \<open>UnlockDenied\<close> carry the internal
  reason, which only the audit row sees.
\<close>

datatype api_error =
    BadRequest string
  | AuthenticationError string
  | UnlockDenied DenyReason string
  | RateLimited int
  | NotFound string
  | Conflict string

text \<open>
  Every exception of the model. The constructors below \<open>ValueError\<close> are the subclasses of
  \<^verbatim>\<open>ValueError\<close> the sources distinguish.
\<close>

datatype exn =
    ApiError api_error
  | ValueError string
  | DerError string
  | InvalidCommand string
  | BinasciiError
  | JSONDecodeError
  | UnicodeDecodeError
  | KeyError string
  | IndexError
  | TypeError
  | AttributeError
  | OverflowError
  | ZeroDivisionError
  | RuntimeError string
  | InvalidSignature string
  | SignerUnavailable string
  | SignerRefused string
  | ControllerOffline string
  | CommandTimeout string
  | DatabaseError string
  | VerificationError string

fun is_ValueError :: "exn \<Rightarrow> bool" where
  "is_ValueError (ValueError _) = True"
| "is_ValueError (DerError _) = True"
| "is_ValueError (InvalidCommand _) = True"
| "is_ValueError BinasciiError = True"
| "is_ValueError JSONDecodeError = True"
| "is_ValueError UnicodeDecodeError = True"
| "is_ValueError _ = False"

fun is_ApiError :: "exn \<Rightarrow> bool" where
  "is_ApiError (ApiError _) = True"
| "is_ApiError _ = False"

fun is_AuthenticationError :: "exn \<Rightarrow> bool" where
  "is_AuthenticationError (ApiError (AuthenticationError _)) = True"
| "is_AuthenticationError _ = False"

text \<open>The class attributes \<^verbatim>\<open>status_code\<close> and \<^verbatim>\<open>code\<close>.\<close>

fun status_code :: "api_error \<Rightarrow> int" where
  "status_code (BadRequest _) = 400"
| "status_code (AuthenticationError _) = 401"
| "status_code (UnlockDenied _ _) = 403"
| "status_code (RateLimited _) = 429"
| "status_code (NotFound _) = 404"
| "status_code (Conflict _) = 409"

fun error_code :: "api_error \<Rightarrow> string" where
  "error_code (BadRequest _) = ''bad_request''"
| "error_code (AuthenticationError _) = ''invalid_credentials''"
| "error_code (UnlockDenied r _) = deny_value r"
| "error_code (RateLimited _) = ''rate_limited''"
| "error_code (NotFound _) = ''not_found''"
| "error_code (Conflict _) = ''conflict''"

fun internal_reason :: "api_error \<Rightarrow> string" where
  "internal_reason (AuthenticationError r) = r"
| "internal_reason (UnlockDenied d r) = (if r = [] then deny_value d else r)"
| "internal_reason e = error_code e"

text \<open>The response: status, the \<^verbatim>\<open>error\<close> member of the body, and the headers.\<close>

record http_exception =
  he_status :: int
  he_error :: string
  he_headers :: "(string \<times> string) list"

definition http_error :: "api_error \<Rightarrow> http_exception" where
  "http_error err = \<lparr>
     he_status = status_code err,
     he_error = error_code err,
     he_headers =
       (case err of RateLimited n \<Rightarrow> [(''Retry-After'', py_str_int n)] | _ \<Rightarrow> []) @
       (case err of AuthenticationError _ \<Rightarrow> [(''WWW-Authenticate'', ''Bearer'')] | _ \<Rightarrow> []) \<rparr>"

lemma http_error_authentication:
  "http_error (AuthenticationError r) = http_error (AuthenticationError r')"
  by (simp add: http_error_def)

lemma http_error_unlock_denied: "http_error (UnlockDenied d r) = http_error (UnlockDenied d r')"
  by (simp add: http_error_def)

lemma event_value_inj: "event_value e = event_value f \<longleftrightarrow> e = f"
  by (cases e; cases f) simp_all

lemma is_AuthenticationError_iff: "is_AuthenticationError e \<longleftrightarrow> (\<exists>r. e = ApiError (AuthenticationError r))"
  by (cases e rule: is_AuthenticationError.cases) auto

end
