(* ===== verification/Config.thy ===== *)
theory Config
  imports Text_Codec Errors
begin

text \<open>
  \<^verbatim>\<open>backend/app/core/config.py\<close>: the settings object, the validator of the token pepper and the
  derived properties. Reading the environment itself (pydantic-settings) is not modelled; the
  field defaults are.
\<close>

datatype env_name = Production | Development | Test
datatype attestation_mode = Strict | Log_only

record settings =
  env :: env_name
  api_host :: string
  api_port :: int
  trusted_proxies :: string
  db_dsn :: string
  audit_db_dsn :: string
  db_pool_min :: int
  db_pool_max :: int
  db_statement_timeout :: int
  access_token_ttl :: int
  refresh_token_ttl :: int
  token_pepper :: string
  argon2_time_cost :: int
  argon2_memory_kib :: int
  argon2_parallelism :: int
  auth_fixed_response_ms :: int
  rate_window_seconds :: int
  rate_max_login_failures :: int
  rate_max_unlocks_per_minute :: int
  rate_base_delay_ms :: int
  rate_max_delay_ms :: int
  beacon_rotation_seconds :: int
  proximity_max_age_seconds :: int
  signer_socket :: string
  signer_timeout_ms :: int
  signer_private_key :: string
  signer_public_key :: string
  signer_key_id :: string
  ws_heartbeat_seconds :: int
  ws_heartbeat_timeout_seconds :: int
  ws_handshake_timeout_seconds :: int
  command_ttl_seconds :: int
  attestation_mode :: attestation_mode
  play_integrity_credentials :: string
  play_integrity_package_name :: string
  android_cert_digest :: string
  attestation_roots_pem :: string
  admin_host :: string
  admin_port :: int
  admin_allowed_cidrs :: string

definition default_settings :: settings where
  "default_settings = \<lparr>
     env = Production, api_host = ''0.0.0.0'', api_port = 8080, trusted_proxies = [],
     db_dsn = ''postgresql://acs_app@127.0.0.1/acs'', audit_db_dsn = [], db_pool_min = 2,
     db_pool_max = 10, db_statement_timeout = 10,
     access_token_ttl = 900, refresh_token_ttl = 2592000, token_pepper = [],
     argon2_time_cost = 3, argon2_memory_kib = 65536, argon2_parallelism = 2,
     auth_fixed_response_ms = 350, rate_window_seconds = 900, rate_max_login_failures = 5,
     rate_max_unlocks_per_minute = 6, rate_base_delay_ms = 250, rate_max_delay_ms = 8000,
     beacon_rotation_seconds = 30, proximity_max_age_seconds = 60,
     signer_socket = ''/run/acs-signer/signer.sock'', signer_timeout_ms = 1500,
     signer_private_key = [], signer_public_key = [], signer_key_id = ''signer-1'',
     ws_heartbeat_seconds = 25, ws_heartbeat_timeout_seconds = 60,
     ws_handshake_timeout_seconds = 10, command_ttl_seconds = 10,
     attestation_mode = Strict, play_integrity_credentials = [],
     play_integrity_package_name = [], android_cert_digest = [], attestation_roots_pem = [],
     admin_host = ''127.0.0.1'', admin_port = 8081, admin_allowed_cidrs = ''127.0.0.1/32'' \<rparr>"

definition pepper_present :: "string \<Rightarrow> exn + string" where
  "pepper_present value =
     (if value = [] then Inr value
      else case b64decode True value of
          None \<Rightarrow> Inl BinasciiError
        | Some raw \<Rightarrow>
            if length raw < 32 then Inl (ValueError ''ACS_TOKEN_PEPPER must decode to at least 32 bytes'')
            else Inr value)"

definition pepper_bytes :: "settings \<Rightarrow> exn + bytes" where
  "pepper_bytes st =
     (if token_pepper st = []
      then Inl (RuntimeError ''ACS_TOKEN_PEPPER is not set. Refusing to hash tokens without a pepper.'')
      else case b64decode True (token_pepper st) of None \<Rightarrow> Inl BinasciiError | Some raw \<Rightarrow> Inr raw)"

definition audit_dsn :: "settings \<Rightarrow> string" where
  "audit_dsn st = (if audit_db_dsn st \<noteq> [] then audit_db_dsn st else db_dsn st)"

definition comma_list :: "string \<Rightarrow> string list" where
  "comma_list s = map py_strip (filter (\<lambda>p. py_strip p \<noteq> []) (py_split (CHR '','') s))"

definition trusted_proxy_list :: "settings \<Rightarrow> string list" where
  "trusted_proxy_list st = comma_list (trusted_proxies st)"

definition admin_cidr_list :: "settings \<Rightarrow> string list" where
  "admin_cidr_list st = comma_list (admin_allowed_cidrs st)"

text \<open>
  A settings object that passed validation with a pepper in place is one whose pepper can be
  read, and the pepper is at least 32 bytes.
\<close>

lemma pepper_bytes_present:
  assumes "pepper_present (token_pepper st) = Inr p" and "p \<noteq> []"
  shows "\<exists>raw. pepper_bytes st = Inr raw \<and> 32 \<le> length raw"
  using assms by (auto simp: pepper_present_def pepper_bytes_def split: if_splits option.splits)

end
