(* ===== verification/Json.thy ===== *)
theory Json
  imports Acs_Prelude "HOL-Library.Multiset"
begin

text \<open>
  JSON values as Python's \<^verbatim>\<open>json\<close> module sees them, and \<^verbatim>\<open>json.dumps\<close> with
  \<^verbatim>\<open>separators=(",", ":")\<close> in the two forms the sources use: \<^verbatim>\<open>sort_keys=True, ensure_ascii=False\<close>
  (the signed bytes) and the defaults (the wire lines). An object is an association list in
  insertion order with distinct keys, as a \<^verbatim>\<open>dict\<close> is. A float is represented by its literal.
\<close>

datatype json =
    JNull
  | JBool bool
  | JInt int
  | JFloat string
  | JStr string
  | JList "json list"
  | JObj "(string \<times> json) list"

fun str_less :: "string \<Rightarrow> string \<Rightarrow> bool" where
  "str_less [] [] = False"
| "str_less [] (d # ds) = True"
| "str_less (c # cs) [] = False"
| "str_less (c # cs) (d # ds) =
     ((of_char c :: nat) < of_char d \<or> (c = d \<and> str_less cs ds))"

fun insert_key :: "(string \<times> 'a) \<Rightarrow> (string \<times> 'a) list \<Rightarrow> (string \<times> 'a) list" where
  "insert_key kv [] = [kv]"
| "insert_key kv (kw # kws) =
     (if str_less (fst kw) (fst kv) then kw # insert_key kv kws else kv # kw # kws)"

definition sort_keys :: "(string \<times> 'a) list \<Rightarrow> (string \<times> 'a) list" where
  "sort_keys kvs = foldr insert_key kvs []"

text \<open>\<^verbatim>\<open>d.get(k)\<close> on an object; \<open>None\<close> when the key is absent.\<close>

definition obj_get :: "(string \<times> 'a) list \<Rightarrow> string \<Rightarrow> 'a option" where
  "obj_get kvs k = map_of kvs k"

definition hex_digit :: "nat \<Rightarrow> char" where
  "hex_digit n = char_of (if n < 10 then 48 + n else 87 + n)"

definition escape_char :: "bool \<Rightarrow> char \<Rightarrow> string" where
  "escape_char ascii c = (let n = (of_char c :: nat) in
     if n = 34 then [CHR 0x5C, CHR 0x22]
     else if n = 92 then [CHR 0x5C, CHR 0x5C]
     else if n = 10 then [CHR 0x5C, CHR ''n'']
     else if n = 13 then [CHR 0x5C, CHR ''r'']
     else if n = 9 then [CHR 0x5C, CHR ''t'']
     else if n = 12 then [CHR 0x5C, CHR ''f'']
     else if n = 8 then [CHR 0x5C, CHR ''b'']
     else if n < 32 \<or> (ascii \<and> 126 < n)
       then CHR 0x5C # ''u00'' @ [hex_digit (n div 16), hex_digit (n mod 16)]
     else [c])"

definition quote_str :: "bool \<Rightarrow> string \<Rightarrow> string" where
  "quote_str ascii s = [CHR 0x22] @ concat (map (escape_char ascii) s) @ [CHR 0x22]"

fun dumps :: "bool \<Rightarrow> bool \<Rightarrow> json \<Rightarrow> string"
  and dump_members :: "bool \<Rightarrow> bool \<Rightarrow> (string \<times> json) list \<Rightarrow> (string \<times> string) list"
where
  "dumps srt ascii JNull = ''null''"
| "dumps srt ascii (JBool b) = (if b then ''true'' else ''false'')"
| "dumps srt ascii (JInt i) = py_str_int i"
| "dumps srt ascii (JFloat lit) = lit"
| "dumps srt ascii (JStr s) = quote_str ascii s"
| "dumps srt ascii (JList js) = ''['' @ py_join '','' (map (dumps srt ascii) js) @ '']''"
| "dumps srt ascii (JObj kvs) =
     (let ms = dump_members srt ascii kvs
      in ''{'' @ py_join '','' (map (\<lambda>(k, t). quote_str ascii k @ '':'' @ t)
                 (if srt then sort_keys ms else ms)) @ ''}'')"
| "dump_members srt ascii [] = []"
| "dump_members srt ascii ((k, j) # kvs) = (k, dumps srt ascii j) # dump_members srt ascii kvs"

section \<open>Decoding\<close>

text \<open>
  \<^verbatim>\<open>json.loads\<close>: the scanner of CPython's \<^verbatim>\<open>json\<close> package. \<open>None\<close> is JSONDecodeError. A code point
  above 255 (from \<^verbatim>\<open>\\uXXXX\<close>) lies outside the model's text and is rejected too.
\<close>

fun skip_ws :: "string \<Rightarrow> string" where
  "skip_ws [] = []"
| "skip_ws (c # cs) = (if c \<in> {CHR 0x20, CHR 0x09, CHR 0x0A, CHR 0x0D} then skip_ws cs else c # cs)"

definition hex_value :: "char \<Rightarrow> nat option" where
  "hex_value c = (let n = (of_char c :: nat) in
     if 48 \<le> n \<and> n \<le> 57 then Some (n - 48)
     else if 97 \<le> n \<and> n \<le> 102 then Some (n - 87)
     else if 65 \<le> n \<and> n \<le> 70 then Some (n - 55)
     else None)"

fun hex4 :: "char \<Rightarrow> char \<Rightarrow> char \<Rightarrow> char \<Rightarrow> nat option" where
  "hex4 a b c d =
     (case (hex_value a, hex_value b, hex_value c, hex_value d) of
        (Some w, Some x, Some y, Some z) \<Rightarrow> Some (((w * 16 + x) * 16 + y) * 16 + z)
      | _ \<Rightarrow> None)"

definition unescape :: "char \<Rightarrow> char option" where
  "unescape e =
     (if e = CHR 0x22 then Some (CHR 0x22)
      else if e = CHR 0x5C then Some (CHR 0x5C)
      else if e = CHR ''/'' then Some (CHR ''/'')
      else if e = CHR ''b'' then Some (CHR 0x08)
      else if e = CHR ''f'' then Some (CHR 0x0C)
      else if e = CHR ''n'' then Some (CHR 0x0A)
      else if e = CHR ''r'' then Some (CHR 0x0D)
      else if e = CHR ''t'' then Some (CHR 0x09)
      else None)"

definition cons_fst :: "'a \<Rightarrow> 'a list \<times> 'b \<Rightarrow> 'a list \<times> 'b" where
  "cons_fst x p = (x # fst p, snd p)"

text \<open>The text of a string after its opening quote, and what follows the closing one.\<close>

fun scan_string :: "string \<Rightarrow> (string \<times> string) option" where
  "scan_string [] = None"
| "scan_string (c # cs) =
     (if c = CHR 0x22 then Some ([], cs)
      else if c = CHR 0x5C then
        (case cs of
           [] \<Rightarrow> None
         | e # es \<Rightarrow>
             if e = CHR ''u'' then
               (case es of
                  h1 # h2 # h3 # h4 # rest \<Rightarrow>
                    (case hex4 h1 h2 h3 h4 of
                       None \<Rightarrow> None
                     | Some n \<Rightarrow>
                         if n < 256 then map_option (cons_fst (char_of n)) (scan_string rest) else None)
                | _ \<Rightarrow> None)
             else (case unescape e of
                 None \<Rightarrow> None
               | Some x \<Rightarrow> map_option (cons_fst x) (scan_string es)))
      else if (of_char c :: nat) < 32 then None
      else map_option (cons_fst c) (scan_string cs))"

definition is_digit :: "char \<Rightarrow> bool" where
  "is_digit c = (48 \<le> (of_char c :: nat) \<and> of_char c \<le> (57 :: nat))"

definition digits_value :: "string \<Rightarrow> nat" where
  "digits_value ds = foldl (\<lambda>acc d. acc * 10 + (of_char d - 48)) 0 ds"

text \<open>The optional fraction and exponent of a number; \<open>[]\<close> when there is none.\<close>

definition scan_frac :: "string \<Rightarrow> string \<times> string" where
  "scan_frac s = (case s of
      c # r \<Rightarrow> if c = CHR ''.'' \<and> takeWhile is_digit r \<noteq> []
               then (c # takeWhile is_digit r, dropWhile is_digit r) else ([], s)
    | [] \<Rightarrow> ([], s))"

definition scan_exp :: "string \<Rightarrow> string \<times> string" where
  "scan_exp s = (case s of
      c # r \<Rightarrow>
        if c = CHR ''e'' \<or> c = CHR ''E'' then
          (let sign = (case r of d # _ \<Rightarrow> if d = CHR ''+'' \<or> d = CHR ''-'' then [d] else [] | [] \<Rightarrow> []);
               r' = drop (length sign) r
           in if takeWhile is_digit r' \<noteq> []
              then (c # sign @ takeWhile is_digit r', dropWhile is_digit r') else ([], s))
        else ([], s)
    | [] \<Rightarrow> ([], s))"

text \<open>The digits of the integer part: a single zero, or digits not starting with zero.\<close>

definition int_part :: "string \<Rightarrow> string" where
  "int_part s = (case s of
      c # _ \<Rightarrow> if c = CHR ''0'' then [c] else takeWhile is_digit s
    | [] \<Rightarrow> [])"

definition scan_number :: "string \<Rightarrow> (json \<times> string) option" where
  "scan_number s =
     (let neg = (s \<noteq> [] \<and> hd s = CHR ''-'');
          s1 = (if neg then tl s else s);
          ds = int_part s1;
          r1 = drop (length ds) s1;
          (fr, r2) = scan_frac r1;
          (ex, r3) = scan_exp r2
      in if ds = [] then None
         else if fr = [] \<and> ex = []
           then Some (JInt (if neg then - int (digits_value ds) else int (digits_value ds)), r3)
         else Some (JFloat ((if neg then ''-'' else []) @ ds @ fr @ ex), r3))"

text \<open>\<^verbatim>\<open>dict(pairs)\<close>: a repeated key keeps its first place and takes its last value.\<close>

fun dict_set :: "(string \<times> 'a) list \<Rightarrow> string \<Rightarrow> 'a \<Rightarrow> (string \<times> 'a) list" where
  "dict_set [] k v = [(k, v)]"
| "dict_set ((k', v') # kvs) k v = (if k' = k then (k, v) # kvs else (k', v') # dict_set kvs k v)"

definition dict_of :: "(string \<times> 'a) list \<Rightarrow> (string \<times> 'a) list" where
  "dict_of kvs = foldl (\<lambda>d (k, v). dict_set d k v) [] kvs"

definition literal :: "string \<Rightarrow> json \<Rightarrow> string \<Rightarrow> (json \<times> string) option" where
  "literal word v s = (if take (length word) s = word then Some (v, drop (length word) s) else None)"

text \<open>
  One call of the scanner spends one unit of fuel; \<open>loads\<close> gives it more than the input can use
  (two units per character).
\<close>

fun parse_value :: "nat \<Rightarrow> string \<Rightarrow> (json \<times> string) option"
  and parse_elems :: "nat \<Rightarrow> string \<Rightarrow> (json list \<times> string) option"
  and parse_members :: "nat \<Rightarrow> string \<Rightarrow> ((string \<times> json) list \<times> string) option"
where
  "parse_value 0 s = None"
| "parse_value (Suc n) [] = None"
| "parse_value (Suc n) (c # cs) =
     (if c = CHR 0x22 then map_option (\<lambda>(t, r). (JStr t, r)) (scan_string cs)
      else if c = CHR ''{'' then
        (case skip_ws cs of
           [] \<Rightarrow> None
         | d # r \<Rightarrow> if d = CHR ''}'' then Some (JObj [], r)
                    else map_option (\<lambda>(kvs, r). (JObj (dict_of kvs), r)) (parse_members n (d # r)))
      else if c = CHR ''['' then
        (case skip_ws cs of
           [] \<Rightarrow> None
         | d # r \<Rightarrow> if d = CHR '']'' then Some (JList [], r)
                    else map_option (\<lambda>(js, r). (JList js, r)) (parse_elems n (d # r)))
      else if c = CHR ''n'' then literal ''null'' JNull (c # cs)
      else if c = CHR ''t'' then literal ''true'' (JBool True) (c # cs)
      else if c = CHR ''f'' then literal ''false'' (JBool False) (c # cs)
      else if c = CHR ''N'' then literal ''NaN'' (JFloat ''NaN'') (c # cs)
      else if c = CHR ''I'' then literal ''Infinity'' (JFloat ''Infinity'') (c # cs)
      else (case scan_number (c # cs) of
          Some vr \<Rightarrow> Some vr
        | None \<Rightarrow> literal ''-Infinity'' (JFloat ''-Infinity'') (c # cs)))"
| "parse_elems 0 s = None"
| "parse_elems (Suc n) s =
     (case parse_value n s of
        None \<Rightarrow> None
      | Some (v, r) \<Rightarrow>
          (case skip_ws r of
             [] \<Rightarrow> None
           | d # r' \<Rightarrow>
               if d = CHR '']'' then Some ([v], r')
               else if d = CHR '','' then map_option (cons_fst v) (parse_elems n (skip_ws r'))
               else None))"
| "parse_members 0 s = None"
| "parse_members (Suc n) s =
     (case s of
        [] \<Rightarrow> None
      | q # r0 \<Rightarrow>
        if q \<noteq> CHR 0x22 then None
        else (case scan_string r0 of
          None \<Rightarrow> None
        | Some (k, r1) \<Rightarrow>
          (case skip_ws r1 of
             [] \<Rightarrow> None
           | d # r2 \<Rightarrow>
             if d \<noteq> CHR '':'' then None
             else (case parse_value n (skip_ws r2) of
               None \<Rightarrow> None
             | Some (v, r3) \<Rightarrow>
               (case skip_ws r3 of
                  [] \<Rightarrow> None
                | e # r4 \<Rightarrow>
                  if e = CHR ''}'' then Some ([(k, v)], r4)
                  else if e = CHR '','' then map_option (cons_fst (k, v)) (parse_members n (skip_ws r4))
                  else None)))))"

definition loads :: "string \<Rightarrow> json option" where
  "loads s =
     (case parse_value (2 * length s + 2) (skip_ws s) of
        None \<Rightarrow> None
      | Some (v, r) \<Rightarrow> if skip_ws r = [] then Some v else None)"

section \<open>Values\<close>

text \<open>Python's truth value of a decoded value, as in \<^verbatim>\<open>if not payload\<close>.\<close>

fun json_truthy :: "json \<Rightarrow> bool" where
  "json_truthy JNull = False"
| "json_truthy (JBool b) = b"
| "json_truthy (JInt i) = (i \<noteq> 0)"
| "json_truthy (JFloat lit) = (\<not> list_all (\<lambda>c. c \<in> set ''-+0.'') (takeWhile (\<lambda>c. c \<noteq> CHR ''e'' \<and> c \<noteq> CHR ''E'') lit))"
| "json_truthy (JStr s) = (s \<noteq> [])"
| "json_truthy (JList js) = (js \<noteq> [])"
| "json_truthy (JObj kvs) = (kvs \<noteq> [])"

text \<open>\<^verbatim>\<open>isinstance(v, int)\<close>: in Python a \<^verbatim>\<open>bool\<close> is an \<^verbatim>\<open>int\<close>.\<close>

fun as_int :: "json \<Rightarrow> int option" where
  "as_int (JInt i) = Some i"
| "as_int (JBool b) = Some (if b then 1 else 0)"
| "as_int _ = None"

text \<open>
  Python's \<^verbatim>\<open>repr\<close> and \<^verbatim>\<open>str\<close> on a decoded value, for the places that format one into a text:
  a string is quoted with apostrophes unless it holds one and no double quote, and code points
  that are not printable are escaped.
\<close>

definition repr_char :: "char \<Rightarrow> char \<Rightarrow> string" where
  "repr_char q c = (let n = (of_char c :: nat) in
     if c = q \<or> n = 92 then [CHR 0x5C, c]
     else if n = 9 then [CHR 0x5C, CHR ''t'']
     else if n = 10 then [CHR 0x5C, CHR ''n'']
     else if n = 13 then [CHR 0x5C, CHR ''r'']
     else if n < 32 \<or> (127 \<le> n \<and> n \<le> 160) \<or> n = 173
       then [CHR 0x5C, CHR ''x'', hex_digit (n div 16), hex_digit (n mod 16)]
     else [c])"

definition repr_str :: "string \<Rightarrow> string" where
  "repr_str s =
     (let q = (if CHR 0x27 \<in> set s \<and> CHR 0x22 \<notin> set s then CHR 0x22 else CHR 0x27)
      in [q] @ concat (map (repr_char q) s) @ [q])"

fun py_repr :: "json \<Rightarrow> string" where
  "py_repr JNull = ''None''"
| "py_repr (JBool b) = (if b then ''True'' else ''False'')"
| "py_repr (JInt i) = py_str_int i"
| "py_repr (JFloat lit) = lit"
| "py_repr (JStr s) = repr_str s"
| "py_repr (JList js) = ''['' @ py_join '', '' (map py_repr js) @ '']''"
| "py_repr (JObj kvs) =
     ''{'' @ py_join '', '' (map (\<lambda>kv. repr_str (fst kv) @ '': '' @ py_repr (snd kv)) kvs) @ ''}''"

definition py_str :: "json \<Rightarrow> string" where
  "py_str j = (case j of JStr s \<Rightarrow> s | _ \<Rightarrow> py_repr j)"

section \<open>Strings round trip\<close>

lemma hex_value_hex_digit:
  assumes "k < 16"
  shows "hex_value (hex_digit k) = Some k"
proof (cases "k < 10")
  case True
  then have "of_char (hex_digit k) = 48 + k" by (simp add: hex_digit_def)
  with True show ?thesis by (simp add: hex_value_def)
next
  case False
  then obtain j where "k = 10 + j" using le_Suc_ex not_less by blast
  with assms have j: "k = 10 + j" "j < 6" by simp_all
  then have "of_char (hex_digit k) = 97 + j" by (simp add: hex_digit_def)
  with j show ?thesis by (simp add: hex_value_def)
qed

lemma hex4_escape:
  assumes "n < 256"
  shows "hex4 (CHR ''0'') (CHR ''0'') (hex_digit (n div 16)) (hex_digit (n mod 16)) = Some n"
proof -
  have "n div 16 < 16" using assms by (simp add: less_mult_imp_div_less)
  moreover have "hex_value (CHR ''0'') = Some 0" by (simp add: hex_value_def)
  ultimately show ?thesis by (simp add: hex_value_hex_digit)
qed

lemma char_eqI: "(of_char c :: nat) = of_char d \<Longrightarrow> c = d"
  by (metis char_of_char)

lemma special_codes:
  "(of_char c :: nat) = 34 \<longleftrightarrow> c = CHR 0x22" "(of_char c :: nat) = 92 \<longleftrightarrow> c = CHR 0x5C"
  "(of_char c :: nat) = 10 \<longleftrightarrow> c = CHR 0x0A" "(of_char c :: nat) = 13 \<longleftrightarrow> c = CHR 0x0D"
  "(of_char c :: nat) = 9 \<longleftrightarrow> c = CHR 0x09" "(of_char c :: nat) = 12 \<longleftrightarrow> c = CHR 0x0C"
  "(of_char c :: nat) = 8 \<longleftrightarrow> c = CHR 0x08"
  using char_eqI [of c "CHR 0x22"] char_eqI [of c "CHR 0x5C"] char_eqI [of c "CHR 0x0A"]
    char_eqI [of c "CHR 0x0D"] char_eqI [of c "CHR 0x09"] char_eqI [of c "CHR 0x0C"]
    char_eqI [of c "CHR 0x08"] by auto

lemma scan_escape: "scan_string (escape_char ascii c @ t) = map_option (cons_fst c) (scan_string t)"
proof -
  let ?n = "of_char c :: nat"
  consider (special) "c \<in> {CHR 0x22, CHR 0x5C, CHR 0x0A, CHR 0x0D, CHR 0x09, CHR 0x0C, CHR 0x08}"
    | (hex) "c \<notin> {CHR 0x22, CHR 0x5C, CHR 0x0A, CHR 0x0D, CHR 0x09, CHR 0x0C, CHR 0x08}"
        "?n < 32 \<or> (ascii \<and> 126 < ?n)"
    | (plain) "c \<notin> {CHR 0x22, CHR 0x5C, CHR 0x0A, CHR 0x0D, CHR 0x09, CHR 0x0C, CHR 0x08}"
        "\<not> (?n < 32 \<or> (ascii \<and> 126 < ?n))"
    by blast
  then show ?thesis
  proof cases
    case special
    then show ?thesis by (auto simp: escape_char_def unescape_def)
  next
    case hex
    from hex(1) hex(2) have esc: "escape_char ascii c =
        CHR 0x5C # ''u00'' @ [hex_digit (?n div 16), hex_digit (?n mod 16)]"
      by (simp add: escape_char_def special_codes Let_def)
    show ?thesis unfolding esc by (simp add: hex4_escape del: hex4.simps)
  next
    case plain
    from plain(1) plain(2) have esc: "escape_char ascii c = [c]"
      by (simp add: escape_char_def special_codes Let_def)
    show ?thesis unfolding esc using plain by simp
  qed
qed

lemma scan_quoted:
  "scan_string (concat (map (escape_char ascii) s) @ CHR 0x22 # r) = Some (s, r)"
  by (induction s) (simp_all add: scan_escape cons_fst_def del: scan_string.simps(2), simp)

section \<open>Numbers round trip\<close>

lemma nat_digits_digit: "c \<in> set (nat_digits n) \<Longrightarrow> is_digit c"
proof (induction n arbitrary: c rule: nat_digits.induct)
  case (1 n)
  have d: "is_digit (char_of (48 + k))" if "k < 10" for k :: nat
    using that by (simp add: is_digit_def)
  show ?case
  proof (cases "n < 10")
    case True
    with 1(2) d show ?thesis by (subst (asm) nat_digits.simps) simp
  next
    case False
    with 1 d [of "n mod 10"] show ?thesis by (subst (asm) (2) nat_digits.simps) auto
  qed
qed

lemma nat_digits_nonempty: "nat_digits n \<noteq> []"
  by (subst nat_digits.simps) simp

lemma digits_value_nat_digits: "digits_value (nat_digits n) = n"
proof (induction n rule: nat_digits.induct)
  case (1 n)
  show ?case
  proof (cases "n < 10")
    case True
    then show ?thesis by (subst nat_digits.simps) (simp add: digits_value_def)
  next
    case False
    with 1 show ?thesis by (subst nat_digits.simps) (simp add: digits_value_def)
  qed
qed

lemma nat_digits_lead: "nat_digits n = CHR ''0'' # ds \<Longrightarrow> ds = []"
proof (induction n arbitrary: ds rule: nat_digits.induct)
  case (1 n)
  show ?case
  proof (cases "n < 10")
    case True
    with 1(2) show ?thesis by (subst (asm) nat_digits.simps) simp
  next
    case False
    with 1(2) have eq: "nat_digits (n div 10) @ [char_of (48 + n mod 10)] = CHR ''0'' # ds"
      by (subst (asm) nat_digits.simps) simp
    with nat_digits_nonempty [of "n div 10"] obtain es where es: "nat_digits (n div 10) = CHR ''0'' # es"
      by (cases "nat_digits (n div 10)") auto
    with 1(1) [OF False] have "nat_digits (n div 10) = ''0''" by simp
    then have "digits_value (nat_digits (n div 10)) = 0" by (simp add: digits_value_def)
    with False show ?thesis by (simp add: digits_value_nat_digits)
  qed
qed

definition stops :: "string \<Rightarrow> bool" where
  "stops r \<longleftrightarrow> (case r of [] \<Rightarrow> True | c # _ \<Rightarrow> \<not> is_digit c \<and> c \<noteq> CHR ''.'' \<and> c \<noteq> CHR ''e'' \<and> c \<noteq> CHR ''E'')"

lemma span_digits:
  assumes "stops r"
  shows "takeWhile is_digit (nat_digits n @ r) = nat_digits n"
proof -
  have "takeWhile is_digit r = []" using assms by (cases r) (auto simp: stops_def)
  then show ?thesis using nat_digits_digit by (simp add: takeWhile_append)
qed

lemma scan_tail: "stops r \<Longrightarrow> scan_frac r = ([], r) \<and> scan_exp r = ([], r)"
  by (cases r) (auto simp: stops_def scan_frac_def scan_exp_def)

lemma int_part_digits:
  assumes "stops r"
  shows "int_part (nat_digits n @ r) = nat_digits n"
proof (cases "nat_digits n")
  case Nil
  then show ?thesis using nat_digits_nonempty by blast
next
  case (Cons c cs)
  then have "takeWhile is_digit (c # cs @ r) = c # cs" using span_digits [OF assms, of n] by simp
  moreover have "c = CHR ''0'' \<Longrightarrow> cs = []" using nat_digits_lead [of n] Cons by simp
  ultimately show ?thesis by (simp add: int_part_def Cons)
qed

lemma digit_not_minus: "is_digit c \<Longrightarrow> c \<noteq> CHR ''-''"
  by (auto simp: is_digit_def)

lemma scan_number_int:
  assumes "stops r"
  shows "scan_number (py_str_int i @ r) = Some (JInt i, r)"
proof -
  have hd: "hd (nat_digits n @ r) \<noteq> CHR ''-''" for n
    using nat_digits_nonempty [of n] nat_digits_digit [of "hd (nat_digits n)" n] digit_not_minus
    by (auto simp: hd_append)
  show ?thesis
  proof (cases "i < 0")
    case True
    then show ?thesis
      using scan_tail [OF assms]
      by (simp add: scan_number_def py_str_int_def int_part_digits [OF assms] nat_digits_nonempty
          digits_value_nat_digits Let_def)
  next
    case False
    then show ?thesis
      using scan_tail [OF assms] hd [of "nat i"]
      by (simp add: scan_number_def py_str_int_def int_part_digits [OF assms] nat_digits_nonempty
          digits_value_nat_digits Let_def)
  qed
qed

section \<open>Values round trip\<close>

text \<open>The values the round trip covers: no float anywhere, and the keys of every object distinct.\<close>

fun json_ok :: "json \<Rightarrow> bool" where
  "json_ok JNull = True"
| "json_ok (JBool b) = True"
| "json_ok (JInt i) = True"
| "json_ok (JFloat lit) = False"
| "json_ok (JStr s) = True"
| "json_ok (JList js) = list_all json_ok js"
| "json_ok (JObj kvs) = (distinct (map fst kvs) \<and> list_all (\<lambda>kv. json_ok (snd kv)) kvs)"

lemma dump_members_map: "dump_members srt ascii kvs = map (\<lambda>(k, j). (k, dumps srt ascii j)) kvs"
  by (induction kvs) auto

definition starts_value :: "string \<Rightarrow> bool" where
  "starts_value s \<longleftrightarrow> (case s of [] \<Rightarrow> False | c # _ \<Rightarrow>
     c \<notin> {CHR 0x20, CHR 0x09, CHR 0x0A, CHR 0x0D, CHR '']'', CHR ''}''})"

lemma digit_start: "is_digit c \<Longrightarrow> c \<notin> {CHR 0x20, CHR 0x09, CHR 0x0A, CHR 0x0D, CHR '']'', CHR ''}''}"
  by (auto simp: is_digit_def)

lemma int_head: "\<exists>c cs. py_str_int i = c # cs \<and> (is_digit c \<or> c = CHR ''-'')"
proof (cases "i < 0")
  case True
  then show ?thesis by (simp add: py_str_int_def)
next
  case False
  obtain c cs where eq: "nat_digits (nat i) = c # cs"
    using nat_digits_nonempty [of "nat i"] by (cases "nat_digits (nat i)") auto
  then have "is_digit c" using nat_digits_digit [of c "nat i"] by simp
  with False eq show ?thesis by (simp add: py_str_int_def)
qed

lemma int_starts: "starts_value (py_str_int i)"
  using int_head [of i] digit_start by (fastforce simp: starts_value_def)

lemma dumps_starts: "json_ok j \<Longrightarrow> starts_value (dumps srt ascii j)"
proof (cases j)
  case (JInt i)
  then show ?thesis by (simp add: int_starts)
qed (auto simp: starts_value_def quote_str_def Let_def)

lemma starts_skip: "starts_value s \<Longrightarrow> skip_ws (s @ r) = s @ r"
  by (cases s) (auto simp: starts_value_def)

lemma starts_nonempty: "starts_value s \<Longrightarrow> 1 \<le> length s"
  by (cases s) (auto simp: starts_value_def)

lemma stops_punct [simp]:
  "stops []" "stops (CHR '','' # r)" "stops (CHR '']'' # r)" "stops (CHR ''}'' # r)"
  by (simp_all add: stops_def is_digit_def)

definition parses :: "bool \<Rightarrow> json \<Rightarrow> bool" where
  "parses ascii j \<longleftrightarrow> (\<forall>fuel r. stops r \<longrightarrow> 2 * length (dumps False ascii j) < fuel \<longrightarrow>
     parse_value fuel (dumps False ascii j @ r) = Some (j, r))"

lemma parse_elems_join:
  assumes "\<And>j. j \<in> set js \<Longrightarrow> parses ascii j \<and> json_ok j" and "js \<noteq> []"
    and "2 * length (py_join '','' (map (dumps False ascii) js)) + 1 < fuel"
  shows "parse_elems fuel (py_join '','' (map (dumps False ascii) js) @ CHR '']'' # r) = Some (js, r)"
  using assms
proof (induction js arbitrary: fuel)
  case Nil
  then show ?case by simp
next
  case (Cons j js)
  obtain n where n: "fuel = Suc n" using Cons.prems(3) by (cases fuel) auto
  have pj: "stops t \<Longrightarrow> 2 * length (dumps False ascii j) < n \<Longrightarrow>
      parse_value n (dumps False ascii j @ t) = Some (j, t)" for t
    using Cons.prems(1) [of j] by (simp add: parses_def)
  show ?case
  proof (cases js)
    case Nil
    then show ?thesis using Cons.prems(3) n pj by simp
  next
    case (Cons j2 js2)
    have st: "starts_value (dumps False ascii j2)" using Cons.prems(1) [of j2] Cons by (simp add: dumps_starts)
    have len: "length (py_join '','' (map (dumps False ascii) (j # js)))
        = length (dumps False ascii j) + 1 + length (py_join '','' (map (dumps False ascii) js))"
      using Cons by simp
    have one: "1 \<le> length (dumps False ascii j)"
      using starts_nonempty [OF dumps_starts] Cons.prems(1) [of j] by simp
    have sk: "skip_ws (py_join '','' (map (dumps False ascii) js) @ t) = py_join '','' (map (dumps False ascii) js) @ t" for t
    proof (cases js2)
      case Nil
      then show ?thesis using starts_skip [OF st] Cons by simp
    next
      case (Cons j3 js3)
      then show ?thesis using starts_skip [OF st] \<open>js = j2 # js2\<close> by simp
    qed
    have "parse_elems n (py_join '','' (map (dumps False ascii) js) @ CHR '']'' # r) = Some (js, r)"
      using Cons.prems(1,3) Cons.IH [of n] \<open>js = j2 # js2\<close> len one n by simp
    then show ?thesis
      using Cons.prems(3) n pj [of "CHR '','' # py_join '','' (map (dumps False ascii) js) @ CHR '']'' # r"]
        len sk Cons by (simp add: cons_fst_def)
  qed
qed

abbreviation member_text :: "bool \<Rightarrow> string \<times> json \<Rightarrow> string" where
  "member_text ascii kv \<equiv> quote_str ascii (fst kv) @ CHR '':'' # dumps False ascii (snd kv)"

lemma quote_str_append: "quote_str ascii k @ t = CHR 0x22 # concat (map (escape_char ascii) k) @ CHR 0x22 # t"
  by (simp add: quote_str_def)

text \<open>
  A text the scanner reads as a value, whatever printer wrote it; an entry is a key with the text of
  its value and the value.
\<close>

definition denotes :: "string \<Rightarrow> json \<Rightarrow> bool" where
  "denotes t j \<longleftrightarrow> starts_value t \<and>
     (\<forall>fuel r. stops r \<longrightarrow> 2 * length t < fuel \<longrightarrow> parse_value fuel (t @ r) = Some (j, r))"

lemma denotes_dumps: "parses ascii j \<Longrightarrow> json_ok j \<Longrightarrow> denotes (dumps False ascii j) j"
  by (simp add: denotes_def parses_def dumps_starts)

abbreviation entry_text :: "bool \<Rightarrow> string \<times> string \<times> json \<Rightarrow> string" where
  "entry_text ascii e \<equiv> quote_str ascii (fst e) @ CHR '':'' # fst (snd e)"

abbreviation entry_member :: "string \<times> string \<times> json \<Rightarrow> string \<times> json" where
  "entry_member e \<equiv> (fst e, snd (snd e))"

lemma parse_entries:
  assumes "\<And>e. e \<in> set es \<Longrightarrow> denotes (fst (snd e)) (snd (snd e))" and "es \<noteq> []"
    and "2 * length (py_join '','' (map (entry_text ascii) es)) + 1 < fuel"
  shows "parse_members fuel (py_join '','' (map (entry_text ascii) es) @ CHR ''}'' # r) =
    Some (map entry_member es, r)"
  using assms
proof (induction es arbitrary: fuel)
  case Nil
  then show ?case by simp
next
  case (Cons e es)
  obtain n where n: "fuel = Suc n" using Cons.prems(3) by (cases fuel) auto
  have start: "starts_value (fst (snd e))"
    and pj: "stops t \<Longrightarrow> 2 * length (fst (snd e)) < n \<Longrightarrow>
      parse_value n (fst (snd e) @ t) = Some (snd (snd e), t)" for t
    using Cons.prems(1) [of e] by (simp_all add: denotes_def)
  have step: "parse_members (Suc n) (entry_text ascii e @ t) =
      (case skip_ws t of
         [] \<Rightarrow> None
       | d # r4 \<Rightarrow>
         if d = CHR ''}'' then Some ([entry_member e], r4)
         else if d = CHR '','' then map_option (cons_fst (entry_member e)) (parse_members n (skip_ws r4))
         else None)" if "stops t" "2 * length (fst (snd e)) < n" for t
    using pj [OF that] starts_skip [OF start]
    by (simp add: quote_str_append scan_quoted del: scan_string.simps split: list.split)
  show ?case
  proof (cases es)
    case Nil
    then show ?thesis
      using Cons.prems(3) n step [of "CHR ''}'' # r"] by simp
  next
    case (Cons e2 es2)
    have len: "length (py_join '','' (map (entry_text ascii) (e # es)))
        = length (entry_text ascii e) + 1 + length (py_join '','' (map (entry_text ascii) es))"
      using Cons by simp
    have one: "1 \<le> length (entry_text ascii e)" by simp
    have sk: "skip_ws (py_join '','' (map (entry_text ascii) es) @ t) = py_join '','' (map (entry_text ascii) es) @ t" for t
      using Cons by (cases es2) (simp_all add: quote_str_append)
    have "parse_members n (py_join '','' (map (entry_text ascii) es) @ CHR ''}'' # r) = Some (map entry_member es, r)"
      using Cons.prems(1,3) Cons.IH [of n] \<open>es = e2 # es2\<close> len one n by simp
    then show ?thesis
      using Cons.prems(3) n step [of "CHR '','' # py_join '','' (map (entry_text ascii) es) @ CHR ''}'' # r"]
        len sk Cons by (simp add: cons_fst_def)
  qed
qed

lemma dict_set_new: "k \<notin> fst ` set d \<Longrightarrow> dict_set d k v = d @ [(k, v)]"
  by (induction d) auto

lemma dict_of_distinct: "distinct (map fst kvs) \<Longrightarrow> dict_of kvs = kvs"
proof (induction kvs rule: rev_induct)
  case Nil
  then show ?case by (simp add: dict_of_def)
next
  case (snoc kv kvs)
  then have "dict_of kvs = kvs" "fst kv \<notin> fst ` set kvs" by auto
  then show ?case by (cases kv) (simp add: dict_of_def dict_set_new)
qed

lemma dumps_obj: "dumps False ascii (JObj kvs) = CHR ''{'' # py_join '','' (map (member_text ascii) kvs) @ ''}''"
  by (simp add: dump_members_map case_prod_beta comp_def)

lemma parses_list:
  assumes "\<And>j. j \<in> set js \<Longrightarrow> parses ascii j \<and> json_ok j"
  shows "parses ascii (JList js)"
  unfolding parses_def
proof (intro allI impI)
  fix fuel r
  assume "stops r" and f: "2 * length (dumps False ascii (JList js)) < fuel"
  then obtain n where n: "fuel = Suc n" by (cases fuel) auto
  show "parse_value fuel (dumps False ascii (JList js) @ r) = Some (JList js, r)"
  proof (cases js)
    case Nil
    then show ?thesis using n by simp
  next
    case (Cons j js2)
    have st: "starts_value (dumps False ascii j)" using assms [of j] Cons by (simp add: dumps_starts)
    obtain c cs where c: "py_join '','' (map (dumps False ascii) js) = c # cs"
        "c \<notin> {CHR 0x20, CHR 0x09, CHR 0x0A, CHR 0x0D, CHR '']'', CHR ''}''}"
      using st Cons by (cases "dumps False ascii j"; cases js2) (auto simp: starts_value_def)
    have "parse_elems n (py_join '','' (map (dumps False ascii) js) @ CHR '']'' # r) = Some (js, r)"
      using parse_elems_join [of js ascii n r] assms Cons f n by simp
    then show ?thesis using n c by (simp del: parse_elems.simps)
  qed
qed

lemma parse_object:
  assumes "\<And>e. e \<in> set es \<Longrightarrow> denotes (fst (snd e)) (snd (snd e))" and "distinct (map fst es)"
  shows "denotes (CHR ''{'' # py_join '','' (map (entry_text ascii) es) @ ''}'') (JObj (map entry_member es))"
  unfolding denotes_def
proof (intro conjI allI impI)
  let ?t = "CHR ''{'' # py_join '','' (map (entry_text ascii) es) @ ''}''"
  show "starts_value ?t" by (simp add: starts_value_def)
  fix fuel r
  assume "stops r" and f: "2 * length ?t < fuel"
  then obtain n where n: "fuel = Suc n" by (cases fuel) auto
  show "parse_value fuel (?t @ r) = Some (JObj (map entry_member es), r)"
  proof (cases es)
    case Nil
    then show ?thesis using n by (simp add: Let_def)
  next
    case (Cons e es2)
    then obtain cs where c: "py_join '','' (map (entry_text ascii) es) = CHR 0x22 # cs"
      by (cases es2) (simp_all add: quote_str_append)
    have "parse_members n (py_join '','' (map (entry_text ascii) es) @ CHR ''}'' # r) = Some (map entry_member es, r)"
      using parse_entries [of es ascii n r] assms Cons f n by simp
    moreover have "dict_of (map entry_member es) = map entry_member es"
      using assms(2) by (intro dict_of_distinct) (simp add: comp_def)
    ultimately show ?thesis
      using n c by (simp del: parse_members.simps)
  qed
qed

lemma parses_obj:
  assumes "\<And>kv. kv \<in> set kvs \<Longrightarrow> parses ascii (snd kv) \<and> json_ok (snd kv)" and "distinct (map fst kvs)"
  shows "parses ascii (JObj kvs)"
proof -
  let ?es = "map (\<lambda>kv. (fst kv, dumps False ascii (snd kv), snd kv)) kvs"
  have "denotes (fst (snd e)) (snd (snd e))" if "e \<in> set ?es" for e
    using that assms(1) by (auto simp: denotes_dumps)
  moreover have "distinct (map fst ?es)" using assms(2) by (simp add: comp_def)
  ultimately have "denotes (CHR ''{'' # py_join '','' (map (entry_text ascii) ?es) @ ''}'')
      (JObj (map entry_member ?es))" by (rule parse_object)
  then have "denotes (dumps False ascii (JObj kvs)) (JObj kvs)"
    unfolding dumps_obj by (simp add: comp_def)
  then show ?thesis by (simp add: parses_def denotes_def)
qed

lemma parses_all: "json_ok j \<Longrightarrow> parses ascii j"
proof (induction j)
  case (JStr s)
  show ?case unfolding parses_def
  proof (intro allI impI)
    fix fuel r
    assume "2 * length (dumps False ascii (JStr s)) < fuel"
    then obtain n where "fuel = Suc n" by (cases fuel) auto
    then show "parse_value fuel (dumps False ascii (JStr s) @ r) = Some (JStr s, r)"
      by (simp add: quote_str_append scan_quoted)
  qed
next
  case (JInt i)
  show ?case unfolding parses_def
  proof (intro allI impI)
    fix fuel r
    assume "stops r" and "2 * length (dumps False ascii (JInt i)) < fuel"
    then obtain n where n: "fuel = Suc n" by (cases fuel) auto
    obtain c cs where c: "py_str_int i = c # cs" "is_digit c \<or> c = CHR ''-''"
      using int_head by blast
    then have "c \<notin> {CHR 0x22, CHR ''{'', CHR ''['', CHR ''n'', CHR ''t'', CHR ''f'', CHR ''N'', CHR ''I''}"
      by (auto simp: is_digit_def)
    then show "parse_value fuel (dumps False ascii (JInt i) @ r) = Some (JInt i, r)"
      using scan_number_int [OF \<open>stops r\<close>, of i] n c(1) by simp
  qed
next
  case (JList js)
  then show ?case by (intro parses_list) (auto simp: list_all_iff)
next
  case (JObj kvs)
  have "parses ascii (snd kv) \<and> json_ok (snd kv)" if "kv \<in> set kvs" for kv
    using JObj.IH [of kv "snd kv"] JObj.prems that by (cases kv) (auto simp: list_all_iff)
  then show ?case using JObj.prems by (intro parses_obj) auto
next
  case JNull
  show ?case unfolding parses_def
  proof (intro allI impI)
    fix fuel r
    assume "2 * length (dumps False ascii JNull) < fuel"
    then obtain n where "fuel = Suc n" by (cases fuel) auto
    then show "parse_value fuel (dumps False ascii JNull @ r) = Some (JNull, r)" by (simp add: literal_def)
  qed
next
  case (JBool b)
  show ?case unfolding parses_def
  proof (intro allI impI)
    fix fuel r
    assume "2 * length (dumps False ascii (JBool b)) < fuel"
    then obtain n where "fuel = Suc n" by (cases fuel) auto
    then show "parse_value fuel (dumps False ascii (JBool b) @ r) = Some (JBool b, r)" by (simp add: literal_def)
  qed
qed simp

text \<open>A line of the wire format ends in a newline, which the decoder skips.\<close>

lemma loads_denotes:
  assumes "denotes t j" and "stops ws" and "skip_ws ws = []"
  shows "loads (t @ ws) = Some j"
proof -
  have "parse_value (2 * length (t @ ws) + 2) (t @ ws) = Some (j, ws)"
    using assms(1,2) by (simp add: denotes_def)
  moreover have "starts_value t" using assms(1) by (simp add: denotes_def)
  ultimately show ?thesis
    using starts_skip [of t ws] assms(3) by (simp add: loads_def)
qed

lemma loads_dumps_ws:
  assumes "json_ok j" and "stops ws" and "skip_ws ws = []"
  shows "loads (dumps False ascii j @ ws) = Some j"
  using loads_denotes [OF denotes_dumps [OF parses_all] assms(2,3)] assms(1) by simp

lemma loads_dumps:
  assumes "json_ok j"
  shows "loads (dumps False ascii j) = Some j"
  using loads_dumps_ws [OF assms, of "[]"] by simp

section \<open>Canonical form\<close>

text \<open>
  \<^verbatim>\<open>sort_keys=True\<close> prints what the plain printer prints for the value with every object sorted;
  two values with the same canonical text therefore have the same sorted form.
\<close>

fun canon :: "json \<Rightarrow> json" where
  "canon (JList js) = JList (map canon js)"
| "canon (JObj kvs) = JObj (sort_keys (map (\<lambda>kv. (fst kv, canon (snd kv))) kvs))"
| "canon j = j"

lemma insert_key_map:
  "insert_key (k, f v) (map (\<lambda>kv. (fst kv, f (snd kv))) kvs) =
   map (\<lambda>kv. (fst kv, f (snd kv))) (insert_key (k, v) kvs)"
  by (induction kvs) auto

lemma sort_keys_map:
  "sort_keys (map (\<lambda>kv. (fst kv, f (snd kv))) kvs) = map (\<lambda>kv. (fst kv, f (snd kv))) (sort_keys kvs)"
proof (induction kvs)
  case Nil
  show ?case by (simp add: sort_keys_def)
next
  case (Cons kv kvs)
  then show ?case
    using insert_key_map [of "fst kv" f "snd kv" "sort_keys kvs"] by (simp add: sort_keys_def)
qed

lemma mset_insert_key: "mset (insert_key kv kvs) = add_mset kv (mset kvs)"
  by (induction kvs) auto

lemma mset_sort_keys: "mset (sort_keys kvs) = mset kvs"
proof -
  have "mset (foldr insert_key kvs acc) = mset kvs + mset acc" for acc
    by (induction kvs) (simp_all add: mset_insert_key)
  then show ?thesis by (simp add: sort_keys_def)
qed

lemma set_sort_keys [simp]: "set (sort_keys kvs) = set kvs"
  by (metis mset_sort_keys mset_eq_setD)

lemma distinct_sort_keys: "distinct (map fst (sort_keys kvs)) \<longleftrightarrow> distinct (map fst kvs)"
  by (metis mset_sort_keys mset_map mset_eq_imp_distinct_iff)

lemma dumps_sorted: "dumps True ascii j = dumps False ascii (canon j)"
proof (induction j)
  case (JList js)
  then have "map (dumps True ascii) js = map (dumps False ascii \<circ> canon) js" by simp
  then show ?case by (simp only: dumps.simps canon.simps map_map)
next
  case (JObj kvs)
  have eq: "dumps True ascii (snd kv) = dumps False ascii (canon (snd kv))" if "kv \<in> set kvs" for kv
    using JObj.IH [of kv "snd kv"] that by (cases kv) auto
  have plain: "dump_members False ascii xs = map (\<lambda>kv. (fst kv, dumps False ascii (snd kv))) xs" for xs
    by (simp add: dump_members_map case_prod_beta)
  have "dump_members True ascii kvs = dump_members False ascii (map (\<lambda>kv. (fst kv, canon (snd kv))) kvs)"
    using eq by (simp add: dump_members_map case_prod_beta)
  then have "sort_keys (dump_members True ascii kvs) =
      dump_members False ascii (sort_keys (map (\<lambda>kv. (fst kv, canon (snd kv))) kvs))"
    by (simp only: plain sort_keys_map)
  then show ?case by (simp add: Let_def)
qed simp_all

lemma canon_ok: "json_ok j \<Longrightarrow> json_ok (canon j)"
proof (induction j)
  case (JObj kvs)
  have ok: "json_ok (canon (snd kv))" if "kv \<in> set kvs" for kv
    using JObj.IH [of kv "snd kv"] JObj.prems that by (cases kv) (auto simp: list_all_iff)
  then show ?case using JObj.prems by (auto simp: list_all_iff distinct_sort_keys comp_def)
qed (auto simp: list_all_iff)

lemma dumps_sorted_inj:
  assumes "json_ok j" and "json_ok j'" and "dumps True ascii j = dumps True ascii j'"
  shows "canon j = canon j'"
  using assms loads_dumps [OF canon_ok] by (metis dumps_sorted option.inject)

lemma obj_get_sort_keys: "distinct (map fst kvs) \<Longrightarrow> obj_get (sort_keys kvs) k = obj_get kvs k"
  unfolding obj_get_def
  by (metis distinct_sort_keys map_of_inject_set set_sort_keys)

lemma obj_get_map: "obj_get (map (\<lambda>kv. (fst kv, f (snd kv))) kvs) k = map_option f (obj_get kvs k)"
  by (induction kvs) (auto simp: obj_get_def)

section \<open>Line framing\<close>

lemma escape_char_no_newline: "CHR 0x0A \<notin> set (escape_char ascii c)"
proof -
  have "CHR 0x0A \<noteq> hex_digit k" if "k < 16" for k
  proof
    assume "CHR 0x0A = hex_digit k"
    then have "hex_value (CHR 0x0A) = Some k" using hex_value_hex_digit [OF that] by simp
    then show False by (simp add: hex_value_def)
  qed
  moreover have "(of_char c :: nat) div 16 < 16" by (simp add: less_mult_imp_div_less)
  ultimately have "CHR 0x0A \<noteq> hex_digit (of_char c div 16)" "CHR 0x0A \<noteq> hex_digit (of_char c mod 16)"
    by simp_all
  then show ?thesis by (simp add: escape_char_def special_codes Let_def)
qed

lemma py_join_set: "set (py_join d ws) \<subseteq> set d \<union> (\<Union>w \<in> set ws. set w)"
  by (induction d ws rule: py_join.induct) auto

lemma int_no_newline: "CHR 0x0A \<notin> set (py_str_int i)"
proof -
  have "\<not> is_digit (CHR 0x0A)" by (simp add: is_digit_def)
  then show ?thesis using nat_digits_digit by (auto simp: py_str_int_def)
qed

lemma quote_no_newline: "CHR 0x0A \<notin> set (quote_str ascii s)"
  using escape_char_no_newline by (auto simp: quote_str_def)

lemma dumps_no_newline: "json_ok j \<Longrightarrow> CHR 0x0A \<notin> set (dumps False ascii j)"
proof (induction j)
  case (JInt i)
  show ?case by (simp add: int_no_newline)
next
  case (JStr s)
  show ?case by (simp add: quote_no_newline)
next
  case (JList js)
  then have "CHR 0x0A \<notin> (\<Union>w \<in> set (map (dumps False ascii) js). set w)" by (auto simp: list_all_iff)
  then show ?case using py_join_set [of "'',''" "map (dumps False ascii) js"] by auto
next
  case (JObj kvs)
  have "CHR 0x0A \<notin> set (member_text ascii kv)" if "kv \<in> set kvs" for kv
    using JObj.IH [of kv "snd kv"] JObj.prems that quote_no_newline
    by (cases kv) (auto simp: list_all_iff)
  then have "CHR 0x0A \<notin> set '','' \<union> (\<Union>w \<in> set (map (member_text ascii) kvs). set w)" by simp
  then have "CHR 0x0A \<notin> set (py_join '','' (map (member_text ascii) kvs))"
    using py_join_set by blast
  then show ?case unfolding dumps_obj by simp
qed auto

end
