(* ===== verification/Signer.thy ===== *)
theory Signer
  imports Text_Codec Json Errors
begin

text \<open>
  \<^verbatim>\<open>backend/signer/protocol.py\<close>, \<^verbatim>\<open>backend/signer/server.py\<close> and \<^verbatim>\<open>backend/app/core/signer_client.py\<close>:
  the wire format, the service that holds the signing key, and its client. Ed25519 is a pair of
  parameters: \<open>ed_public\<close> (private key to public key) and \<open>ed_sign\<close> (private key and message to
  signature). The socket is the client's parameter: what comes back for the line it wrote.
\<close>

section \<open>Protocol\<close>

type_synonym obj = "(string \<times> json) list"

definition ALG :: string where
  "ALG = ''ed25519''"

definition COMMAND_DOMAIN :: bytes where
  "COMMAND_DOMAIN = utf8 ''acs-command:v1'' @ [0]"

definition REQUIRED_COMMAND_FIELDS :: "string list" where
  "REQUIRED_COMMAND_FIELDS =
     [''command_id'', ''cmd'', ''controller_code'', ''door_code'', ''relay_channel'', ''duration_ms'',
      ''issued_at'', ''expires_at'', ''nonce'']"

definition ALLOWED_COMMANDS :: "string list" where
  "ALLOWED_COMMANDS = [''unlock'']"

definition MAX_COMMAND_TTL_SECONDS :: int where
  "MAX_COMMAND_TTL_SECONDS = 30"

definition MAX_DURATION_MS :: int where
  "MAX_DURATION_MS = 10000"

definition canonical_bytes :: "obj \<Rightarrow> bytes" where
  "canonical_bytes payload = COMMAND_DOMAIN @ utf8 (dumps True False (JObj payload))"

text \<open>\<^verbatim>\<open>payload[k]\<close> for a key that is known to be present.\<close>

definition field :: "obj \<Rightarrow> string \<Rightarrow> json" where
  "field payload k = (case obj_get payload k of Some v \<Rightarrow> v | None \<Rightarrow> JNull)"

definition validate_command :: "obj \<Rightarrow> exn + unit" where
  "validate_command payload =
     (let missing = filter (\<lambda>f. obj_get payload f = None) REQUIRED_COMMAND_FIELDS in
      if missing \<noteq> [] then Inl (InvalidCommand (''missing fields: '' @ py_join '','' missing))
      else if field payload ''cmd'' \<notin> set (map JStr ALLOWED_COMMANDS)
        then Inl (InvalidCommand ''unknown command'')
      else if (case as_int (field payload ''duration_ms'') of
                 None \<Rightarrow> True
               | Some d \<Rightarrow> \<not> (0 < d \<and> d \<le> MAX_DURATION_MS))
        then Inl (InvalidCommand ''duration_ms out of range'')
      else (case (as_int (field payload ''issued_at''), as_int (field payload ''expires_at'')) of
          (Some issued_at, Some expires_at) \<Rightarrow>
            (let ttl = expires_at - issued_at in
             if \<not> (0 < ttl \<and> ttl \<le> MAX_COMMAND_TTL_SECONDS)
               then Inl (InvalidCommand ''command ttl out of range'')
             else (case field payload ''nonce'' of
                 JStr nonce \<Rightarrow>
                   if length nonce < 16 then Inl (InvalidCommand ''nonce too short'') else Inr ()
               | _ \<Rightarrow> Inl (InvalidCommand ''nonce too short'')))
        | _ \<Rightarrow> Inl (InvalidCommand ''timestamps must be integers'')))"

definition encode_request :: "obj \<Rightarrow> bytes" where
  "encode_request ob = utf8 (dumps False True (JObj ob)) @ [10]"

definition decode_line :: "bytes \<Rightarrow> exn + obj" where
  "decode_line line =
     (case utf8_decode line of
        None \<Rightarrow> Inl UnicodeDecodeError
      | Some text \<Rightarrow>
          (case loads text of
             None \<Rightarrow> Inl JSONDecodeError
           | Some (JObj ob) \<Rightarrow> Inr ob
           | Some _ \<Rightarrow> Inl (ValueError ''expected a JSON object'')))"

section \<open>Server\<close>

definition MAX_LINE_BYTES :: nat where
  "MAX_LINE_BYTES = 8 * 1024"

record signer_service =
  private_key :: bytes
  key_id :: string

definition public_key_b64 :: "(bytes \<Rightarrow> bytes) \<Rightarrow> signer_service \<Rightarrow> string" where
  "public_key_b64 ed_public svc = b64encode (ed_public (private_key svc))"

definition signer_error :: "string \<Rightarrow> obj" where
  "signer_error msg = [(''ok'', JBool False), (''error'', JStr msg)]"

definition exn_text :: "exn \<Rightarrow> string" where
  "exn_text e = (case e of InvalidCommand msg \<Rightarrow> msg | _ \<Rightarrow> [])"

definition signer_handle ::
  "(bytes \<Rightarrow> bytes) \<Rightarrow> (bytes \<Rightarrow> bytes \<Rightarrow> bytes) \<Rightarrow> signer_service \<Rightarrow> obj \<Rightarrow> obj"
where
  "signer_handle ed_public ed_sign svc request =
     (if obj_get request ''op'' = Some (JStr ''public_key'') then
        [(''ok'', JBool True), (''public_key'', JStr (public_key_b64 ed_public svc)),
         (''key_id'', JStr (key_id svc)), (''alg'', JStr ALG)]
      else if obj_get request ''op'' = Some (JStr ''sign'') then
        (case obj_get request ''payload'' of
           Some (JObj payload) \<Rightarrow>
             (case validate_command payload of
                Inl exc \<Rightarrow> signer_error (''refused: '' @ exn_text exc)
              | Inr _ \<Rightarrow>
                  [(''ok'', JBool True),
                   (''signature'', JStr (b64encode (ed_sign (private_key svc) (canonical_bytes payload)))),
                   (''key_id'', JStr (key_id svc)), (''alg'', JStr ALG)])
         | _ \<Rightarrow> signer_error ''payload must be an object'')
      else signer_error ''unknown op'')"

text \<open>
  One connection: the lines read from the client (an empty one is end of file) and the lines
  written back. An oversized or malformed line ends the connection after its answer.
\<close>

fun serve_client ::
  "(bytes \<Rightarrow> bytes) \<Rightarrow> (bytes \<Rightarrow> bytes \<Rightarrow> bytes) \<Rightarrow> signer_service \<Rightarrow> bytes list \<Rightarrow> bytes list"
where
  "serve_client ed_public ed_sign svc [] = []"
| "serve_client ed_public ed_sign svc (line # lines) =
     (if line = [] then []
      else if MAX_LINE_BYTES < length line then [encode_request (signer_error ''request too large'')]
      else (case decode_line line of
          Inl _ \<Rightarrow> [encode_request (signer_error ''malformed request'')]
        | Inr request \<Rightarrow>
            encode_request (signer_handle ed_public ed_sign svc request)
              # serve_client ed_public ed_sign svc lines))"

text \<open>\<open>run\<close>: the key from the environment must decode to exactly 32 bytes; \<open>None\<close> is SystemExit.\<close>

definition load_service :: "string \<Rightarrow> string \<Rightarrow> exn + signer_service option" where
  "load_service private_key_b64 kid =
     (case b64decode True private_key_b64 of
        None \<Rightarrow> Inl BinasciiError
      | Some raw \<Rightarrow>
          if length raw \<noteq> 32 then Inr None
          else Inr (Some \<lparr>private_key = raw, key_id = kid\<rparr>))"

section \<open>Client\<close>

datatype transport = Connect_failed string | Io_failed string | Reply bytes

definition client_request :: "(bytes \<Rightarrow> transport) \<Rightarrow> obj \<Rightarrow> exn + obj" where
  "client_request socket payload =
     (case socket (encode_request payload) of
        Connect_failed msg \<Rightarrow> Inl (SignerUnavailable msg)
      | Io_failed msg \<Rightarrow> Inl (SignerUnavailable msg)
      | Reply line \<Rightarrow>
          if line = [] then Inl (SignerUnavailable ''signer closed the connection'')
          else decode_line line)"

text \<open>\<^verbatim>\<open>str(response.get("error"))\<close>.\<close>

definition error_text :: "obj \<Rightarrow> string" where
  "error_text response = (case obj_get response ''error'' of None \<Rightarrow> ''None'' | Some j \<Rightarrow> py_str j)"

definition response_ok :: "obj \<Rightarrow> bool" where
  "response_ok response = (case obj_get response ''ok'' of None \<Rightarrow> False | Some v \<Rightarrow> json_truthy v)"

text \<open>\<^verbatim>\<open>(base64.b64decode(response[name]), response["key_id"])\<close>.\<close>

definition response_pair :: "obj \<Rightarrow> string \<Rightarrow> exn + (bytes \<times> json)" where
  "response_pair response name =
     (case obj_get response name of
        None \<Rightarrow> Inl (KeyError name)
      | Some (JStr text) \<Rightarrow>
          (case b64decode False text of
             None \<Rightarrow> Inl BinasciiError
           | Some raw \<Rightarrow>
               (case obj_get response ''key_id'' of
                  None \<Rightarrow> Inl (KeyError ''key_id'')
                | Some kid \<Rightarrow> Inr (raw, kid)))
      | Some _ \<Rightarrow> Inl TypeError)"

definition client_public_key :: "(bytes \<Rightarrow> transport) \<Rightarrow> exn + (bytes \<times> json)" where
  "client_public_key socket =
     (case client_request socket [(''op'', JStr ''public_key'')] of
        Inl e \<Rightarrow> Inl e
      | Inr response \<Rightarrow>
          if \<not> response_ok response then Inl (SignerRefused (error_text response))
          else response_pair response ''public_key'')"

definition sign_command :: "(bytes \<Rightarrow> transport) \<Rightarrow> obj \<Rightarrow> exn + (bytes \<times> json)" where
  "sign_command socket command =
     (case client_request socket [(''op'', JStr ''sign''), (''payload'', JObj command)] of
        Inl e \<Rightarrow> Inl e
      | Inr response \<Rightarrow>
          if \<not> response_ok response then Inl (SignerRefused (error_text response))
          else response_pair response ''signature'')"

text \<open>The socket with the signer process behind it: the first line it answers.\<close>

definition signer_socket_of ::
  "(bytes \<Rightarrow> bytes) \<Rightarrow> (bytes \<Rightarrow> bytes \<Rightarrow> bytes) \<Rightarrow> signer_service \<Rightarrow> bytes \<Rightarrow> transport"
where
  "signer_socket_of ed_public ed_sign svc line =
     (case serve_client ed_public ed_sign svc [line] of [] \<Rightarrow> Reply [] | r # _ \<Rightarrow> Reply r)"

section \<open>The wire format\<close>

lemma utf8_newline: "utf8 [CHR 0x0A] = [10]"
  by (simp add: utf8_def utf8_char_def)

lemma decode_line_text:
  "utf8_decode line = Some text \<Longrightarrow> loads text = Some (JObj ob) \<Longrightarrow> decode_line line = Inr ob"
  by (simp add: decode_line_def)

lemma decode_encode_line:
  assumes "json_ok (JObj ob)"
  shows "decode_line (encode_request ob) = Inr ob"
proof (rule decode_line_text)
  have "encode_request ob = utf8 (dumps False True (JObj ob) @ [CHR 0x0A])"
    unfolding encode_request_def utf8_append utf8_newline ..
  then show "utf8_decode (encode_request ob) = Some (dumps False True (JObj ob) @ [CHR 0x0A])"
    by (simp only: utf8_roundtrip)
  show "loads (dumps False True (JObj ob) @ [CHR 0x0A]) = Some (JObj ob)"
    by (rule loads_dumps_ws [OF assms]) (simp_all add: stops_def is_digit_def)
qed

lemma utf8_char_bytes:
  assumes "b \<in> set (utf8_char c)"
  shows "unat b = of_char c \<or> 128 \<le> unat b"
proof (cases "(of_char c :: nat) < 128")
  case True
  with assms have "b = of_nat (of_char c)" by (simp add: utf8_char_def)
  with True show ?thesis by (simp add: unat_of_nat_byte)
next
  case False
  with assms have "b = of_nat (192 + of_char c div 64) \<or> b = of_nat (128 + of_char c mod 64)"
    by (simp add: utf8_char_def Let_def)
  moreover have "192 + (of_char c :: nat) div 64 < 256" "128 + (of_char c :: nat) mod 64 < 256"
    using nat_of_char_less_256 [of c] by linarith+
  ultimately show ?thesis using unat_of_nat_byte by fastforce
qed

lemma utf8_no_newline: "CHR 0x0A \<notin> set s \<Longrightarrow> 10 \<notin> set (utf8 s)"
proof (induction s)
  case (Cons c s)
  have "10 \<notin> set (utf8_char c)"
    using utf8_char_bytes [of 10 c] Cons.prems special_codes(3) [of c] by auto
  with Cons show ?case by (simp add: utf8_Cons)
qed simp

text \<open>
  The wire format between the API and the signer is a round trip: an object without
  floats survives encoding and decoding, and its encoding holds exactly one newline, at the end,
  so one request is one line.
\<close>

theorem wire_roundtrip:
  assumes "json_ok (JObj ob)"
  shows "decode_line (encode_request ob) = Inr ob
    \<and> (\<exists>body. encode_request ob = body @ [10] \<and> 10 \<notin> set body)"
proof
  show "decode_line (encode_request ob) = Inr ob" by (rule decode_encode_line [OF assms])
  have "10 \<notin> set (utf8 (dumps False True (JObj ob)))"
    by (rule utf8_no_newline [OF dumps_no_newline [OF assms]])
  then show "\<exists>body. encode_request ob = body @ [10] \<and> 10 \<notin> set body"
    unfolding encode_request_def by blast
qed

theorem wire_roundtrip_witness:
  "decode_line (encode_request [(''op'', JStr ''sign''), (''n'', JInt (- 12)), (''l'', JList [JNull, JBool True])])
     = Inr [(''op'', JStr ''sign''), (''n'', JInt (- 12)), (''l'', JList [JNull, JBool True])]
   \<and> (\<exists>body. encode_request [(''op'', JStr ''sign''), (''n'', JInt (- 12)), (''l'', JList [JNull, JBool True])]
        = body @ [10] \<and> 10 \<notin> set body)"
  by (rule wire_roundtrip) simp

section \<open>What the signer signs\<close>

text \<open>The ceiling of the signer, as a predicate on the command.\<close>

definition within_limits :: "obj \<Rightarrow> bool" where
  "within_limits cmd \<longleftrightarrow>
     list_all (\<lambda>f. obj_get cmd f \<noteq> None) REQUIRED_COMMAND_FIELDS \<and>
     field cmd ''cmd'' = JStr ''unlock'' \<and>
     (case as_int (field cmd ''duration_ms'') of Some d \<Rightarrow> 0 < d \<and> d \<le> 10000 | None \<Rightarrow> False) \<and>
     (case (as_int (field cmd ''issued_at''), as_int (field cmd ''expires_at'')) of
        (Some i, Some e) \<Rightarrow> 0 < e - i \<and> e - i \<le> 30
      | _ \<Rightarrow> False) \<and>
     (case field cmd ''nonce'' of JStr n \<Rightarrow> 16 \<le> length n | _ \<Rightarrow> False)"

lemma validate_command_iff: "validate_command cmd = Inr () \<longleftrightarrow> within_limits cmd"
proof -
  have m: "filter (\<lambda>f. obj_get cmd f = None) REQUIRED_COMMAND_FIELDS = [] \<longleftrightarrow>
      list_all (\<lambda>f. obj_get cmd f \<noteq> None) REQUIRED_COMMAND_FIELDS"
    by (simp add: filter_empty_conv list_all_iff)
  show ?thesis
    unfolding validate_command_def within_limits_def m [symmetric] MAX_DURATION_MS_def
      MAX_COMMAND_TTL_SECONDS_def ALLOWED_COMMANDS_def Let_def
    by (auto split: option.splits json.splits if_splits)
qed

lemma validate_command_refuses: "\<not> within_limits cmd \<Longrightarrow> \<exists>msg. validate_command cmd = Inl (InvalidCommand msg)"
proof -
  assume "\<not> within_limits cmd"
  then have "validate_command cmd \<noteq> Inr ()" by (simp add: validate_command_iff)
  then show ?thesis
    unfolding validate_command_def Let_def
    by (auto split: option.splits json.splits if_splits)
qed

lemma signer_handle_ok: "json_ok (JObj (signer_handle ed_public ed_sign svc request))"
  by (simp add: signer_handle_def signer_error_def split: option.split json.split sum.split)

lemma signer_error_ok: "json_ok (JObj (signer_error msg))"
  by (simp add: signer_error_def)

lemma signer_handle_signature:
  assumes "obj_get (signer_handle ed_public ed_sign svc request) ''signature'' = Some v"
  shows "\<exists>payload. within_limits payload \<and> obj_get request ''payload'' = Some (JObj payload)
    \<and> v = JStr (b64encode (ed_sign (private_key svc) (canonical_bytes payload)))"
  using assms
  by (auto simp: signer_handle_def signer_error_def obj_get_def validate_command_iff
      split: if_splits option.splits json.splits sum.splits)

text \<open>
  Claim C12. Whatever lines a client sends on a connection (a fully compromised API included),
  every signature the signer answers with is its signature over the canonical bytes of a command
  within its own limits: an unlock, at most ten seconds long, valid for at most thirty seconds,
  with a nonce of at least sixteen characters.
\<close>

theorem signer_only_signs_within_limits:
  assumes "r \<in> set (serve_client ed_public ed_sign svc lines)"
    and "decode_line r = Inr response" and "obj_get response ''signature'' = Some v"
  shows "\<exists>cmd. within_limits cmd
    \<and> v = JStr (b64encode (ed_sign (private_key svc) (canonical_bytes cmd)))"
  using assms(1)
proof (induction lines)
  case Nil
  then show ?case by simp
next
  case (Cons line lines)
  have err: "r \<noteq> encode_request (signer_error msg)" for msg
    using decode_encode_line [OF signer_error_ok, of msg] assms(2,3)
    by (auto simp: signer_error_def obj_get_def)
  have ans: "\<exists>cmd. within_limits cmd \<and> v = JStr (b64encode (ed_sign (private_key svc) (canonical_bytes cmd)))"
    if "r = encode_request (signer_handle ed_public ed_sign svc request)" for request
  proof -
    from that have "response = signer_handle ed_public ed_sign svc request"
      using decode_encode_line [OF signer_handle_ok, of ed_public ed_sign svc request] assms(2) by simp
    then show ?thesis using signer_handle_signature assms(3) by blast
  qed
  show ?case using Cons err ans by (auto split: if_splits sum.splits)
qed

text \<open>The request line the client writes, and the answers it gets from a running signer.\<close>

definition sign_request :: "obj \<Rightarrow> obj" where
  "sign_request cmd = [(''op'', JStr ''sign''), (''payload'', JObj cmd)]"

lemma sign_request_ok: "json_ok (JObj cmd) \<Longrightarrow> json_ok (JObj (sign_request cmd))"
  by (simp add: sign_request_def)

lemma encode_request_nonempty: "encode_request ob \<noteq> []"
  by (simp add: encode_request_def)

lemma client_request_signer:
  assumes "json_ok (JObj payload)"
  shows "client_request (signer_socket_of ed_public ed_sign svc) payload =
    Inr (if MAX_LINE_BYTES < length (encode_request payload) then signer_error ''request too large''
         else signer_handle ed_public ed_sign svc payload)"
  using decode_encode_line [OF assms] decode_encode_line [OF signer_error_ok]
    decode_encode_line [OF signer_handle_ok] encode_request_nonempty
  by (simp add: client_request_def signer_socket_of_def)

lemma signer_handle_sign:
  "signer_handle ed_public ed_sign svc (sign_request cmd) =
     (case validate_command cmd of
        Inl exc \<Rightarrow> signer_error (''refused: '' @ exn_text exc)
      | Inr _ \<Rightarrow>
          [(''ok'', JBool True),
           (''signature'', JStr (b64encode (ed_sign (private_key svc) (canonical_bytes cmd)))),
           (''key_id'', JStr (key_id svc)), (''alg'', JStr ALG)])"
  by (simp add: signer_handle_def sign_request_def obj_get_def)

lemma response_error: "response_ok (signer_error msg) = False" "error_text (signer_error msg) = msg"
  by (simp_all add: response_ok_def error_text_def py_str_def signer_error_def obj_get_def)

lemma sign_command_signer:
  assumes "json_ok (JObj cmd)"
  shows "sign_command (signer_socket_of ed_public ed_sign svc) cmd =
    (if MAX_LINE_BYTES < length (encode_request (sign_request cmd))
       then Inl (SignerRefused ''request too large'')
     else (case validate_command cmd of
         Inl exc \<Rightarrow> Inl (SignerRefused (''refused: '' @ exn_text exc))
       | Inr _ \<Rightarrow> Inr (ed_sign (private_key svc) (canonical_bytes cmd), JStr (key_id svc))))"
proof -
  have req: "client_request (signer_socket_of ed_public ed_sign svc)
      [(''op'', JStr ''sign''), (''payload'', JObj cmd)] =
    Inr (if MAX_LINE_BYTES < length (encode_request (sign_request cmd)) then signer_error ''request too large''
         else signer_handle ed_public ed_sign svc (sign_request cmd))"
    using client_request_signer [OF sign_request_ok [OF assms]] by (simp add: sign_request_def)
  have good: "response_ok [(''ok'', JBool True), (''signature'', JStr x), (''key_id'', JStr y), (''alg'', JStr z)]"
    "response_pair [(''ok'', JBool True), (''signature'', JStr (b64encode b)), (''key_id'', JStr y), (''alg'', JStr z)]
       ''signature'' = Inr (b, JStr y)" for x y z b
    by (simp_all add: response_ok_def response_pair_def obj_get_def b64decode_b64encode)
  show ?thesis
    unfolding sign_command_def req
    by (simp add: response_error signer_handle_sign good split: sum.split)
qed

definition sample_command :: obj where
  "sample_command =
     [(''command_id'', JStr ''c-1''), (''cmd'', JStr ''unlock''), (''controller_code'', JStr ''ctrl-x''),
      (''door_code'', JStr ''door-x''), (''relay_channel'', JInt 1), (''duration_ms'', JInt 900),
      (''issued_at'', JInt 100), (''expires_at'', JInt 110),
      (''nonce'', JStr ''AAAAAAAAAAAAAAAAAAAAAA'')]"

lemma sample_command_ok: "json_ok (JObj sample_command)"
  by (simp add: sample_command_def)

lemma sample_command_limits: "within_limits sample_command"
  by (simp add: within_limits_def sample_command_def REQUIRED_COMMAND_FIELDS_def obj_get_def field_def)

lemma sample_command_fits: "length (encode_request (sign_request sample_command)) \<le> MAX_LINE_BYTES"
proof -
  have "length (encode_request (sign_request sample_command)) \<le> 300" by code_simp
  then show ?thesis by (simp add: MAX_LINE_BYTES_def)
qed

abbreviation sample_service :: signer_service where
  "sample_service \<equiv> \<lparr>private_key = [1, 2, 3], key_id = ''s''\<rparr>"

theorem signer_only_signs_within_limits_witness:
  "\<exists>cmd. within_limits cmd
    \<and> JStr (b64encode ([1, 2, 3] @ take 3 (canonical_bytes sample_command)))
      = JStr (b64encode ([1, 2, 3] @ take 3 (canonical_bytes cmd)))"
proof -
  let ?sign = "\<lambda>k m. k @ take 3 m"
  let ?answer = "signer_handle id ?sign sample_service (sign_request sample_command)"
  have dec: "decode_line (encode_request (sign_request sample_command)) = Inr (sign_request sample_command)"
    by (rule decode_encode_line [OF sign_request_ok [OF sample_command_ok]])
  have r: "encode_request ?answer \<in> set (serve_client id ?sign sample_service [encode_request (sign_request sample_command)])"
    using dec encode_request_nonempty sample_command_fits by simp
  have "validate_command sample_command = Inr ()"
    by (simp add: validate_command_iff sample_command_limits)
  then have v: "obj_get ?answer ''signature'' = Some (JStr (b64encode ([1, 2, 3] @ take 3 (canonical_bytes sample_command))))"
    by (simp add: signer_handle_sign obj_get_def)
  from signer_only_signs_within_limits [OF r decode_encode_line [OF signer_handle_ok] v]
  show ?thesis by simp
qed

text \<open>
  Asked through the client, a running signer either returns its signature over the
  canonical bytes of the command, in which case the command is within the limits, or refuses;
  a command within the limits whose request fits one line is always signed.
\<close>

theorem sign_command_correct:
  assumes "json_ok (JObj cmd)"
  shows "(case sign_command (signer_socket_of ed_public ed_sign svc) cmd of
       Inr (signature, kid) \<Rightarrow> within_limits cmd
         \<and> signature = ed_sign (private_key svc) (canonical_bytes cmd) \<and> kid = JStr (key_id svc)
     | Inl e \<Rightarrow> (\<exists>msg. e = SignerRefused msg)
         \<and> (\<not> within_limits cmd \<or> MAX_LINE_BYTES < length (encode_request (sign_request cmd))))"
  unfolding sign_command_signer [OF assms]
  using validate_command_iff [of cmd] by (auto split: sum.split)

theorem sign_command_correct_witness:
  "(case sign_command (signer_socket_of id (\<lambda>k m. k @ take 3 m) sample_service) sample_command of
       Inr (signature, kid) \<Rightarrow> within_limits sample_command
         \<and> signature = private_key sample_service @ take 3 (canonical_bytes sample_command)
         \<and> kid = JStr (key_id sample_service)
     | Inl e \<Rightarrow> (\<exists>msg. e = SignerRefused msg)
         \<and> (\<not> within_limits sample_command
            \<or> MAX_LINE_BYTES < length (encode_request (sign_request sample_command))))"
  by (rule sign_command_correct [OF sample_command_ok])

text \<open>
  The signed bytes determine the command: two commands with the same canonical bytes
  agree on every field (up to the order of members inside a nested object).
\<close>

theorem canonical_bytes_determine_command:
  assumes "json_ok (JObj p)" and "json_ok (JObj q)" and "canonical_bytes p = canonical_bytes q"
  shows "map_option canon (obj_get p k) = map_option canon (obj_get q k)"
proof -
  have "dumps True False (JObj p) = dumps True False (JObj q)"
    using assms(3) by (simp add: canonical_bytes_def utf8_inj del: dumps.simps)
  then have "canon (JObj p) = canon (JObj q)" by (rule dumps_sorted_inj [OF assms(1,2)])
  then have eq: "sort_keys (map (\<lambda>kv. (fst kv, canon (snd kv))) p) = sort_keys (map (\<lambda>kv. (fst kv, canon (snd kv))) q)"
    by simp
  have d: "distinct (map fst (map (\<lambda>kv. (fst kv, canon (snd kv))) p))"
      "distinct (map fst (map (\<lambda>kv. (fst kv, canon (snd kv))) q))"
    using assms(1,2) by (simp_all add: comp_def)
  show ?thesis
    using arg_cong [OF eq, of "\<lambda>xs. obj_get xs k"] obj_get_sort_keys [OF d(1)] obj_get_sort_keys [OF d(2)]
    by (simp add: obj_get_map)
qed

theorem canonical_bytes_determine_command_witness:
  "map_option canon (obj_get [(''b'', JInt 2), (''a'', JStr ''x'')] ''a'')
     = map_option canon (obj_get [(''a'', JStr ''x''), (''b'', JInt 2)] ''a'')"
proof (rule canonical_bytes_determine_command)
  show "canonical_bytes [(''b'', JInt 2), (''a'', JStr ''x'')] = canonical_bytes [(''a'', JStr ''x''), (''b'', JInt 2)]"
    by (simp add: canonical_bytes_def sort_keys_def)
qed simp_all

section \<open>The contract the unlock service relies on\<close>

text \<open>
  What a caller may assume of a signing operation: a signature is only ever produced for a
  command within the limits, and it is a valid one.
\<close>

locale command_signer =
  fixes sign_op :: "obj \<Rightarrow> exn + (bytes \<times> json)"
    and valid_sig :: "bytes \<Rightarrow> bytes \<Rightarrow> bool"
  assumes signed_within: "json_ok (JObj cmd) \<Longrightarrow> sign_op cmd = Inr (s, k) \<Longrightarrow> within_limits cmd"
    and signed_valid: "json_ok (JObj cmd) \<Longrightarrow> sign_op cmd = Inr (s, k) \<Longrightarrow> valid_sig (canonical_bytes cmd) s"
begin

lemma signed_duration:
  assumes "json_ok (JObj cmd)" and "sign_op cmd = Inr (s, k)" and "obj_get cmd ''duration_ms'' = Some (JInt d)"
  shows "0 < d \<and> d \<le> 10000"
  using signed_within [OF assms(1,2)] assms(3) by (simp add: within_limits_def field_def)

lemma signed_lifetime:
  assumes "json_ok (JObj cmd)" and "sign_op cmd = Inr (s, k)"
    and "obj_get cmd ''issued_at'' = Some (JInt i)" and "obj_get cmd ''expires_at'' = Some (JInt e)"
  shows "i < e \<and> e \<le> i + 30"
  using signed_within [OF assms(1,2)] assms(3,4) by (simp add: within_limits_def field_def)

end

interpretation signer: command_signer "sign_command (signer_socket_of ed_public ed_sign svc)"
    "\<lambda>m s. s = ed_sign (private_key svc) m" for ed_public ed_sign svc
  by unfold_locales
    (auto simp: sign_command_signer validate_command_iff split: if_splits sum.splits)

end
