(* ===== verification/Attestation.thy ===== *)
theory Attestation
  imports Text_Codec Json Errors
begin

text \<open>
  \<^verbatim>\<open>backend/app/core/attestation.py\<close>: the DER reader, the KeyDescription parser, the verdict on a
  key attestation chain and the Play Integrity policy. X.509 (the \<^verbatim>\<open>cryptography\<close> package) is the
  parameter \<open>x509\<close>: loading a PEM certificate, checking one certificate's signature with the key of
  another, and a fingerprint. Byte indexing raises IndexError out of range, as in Python.
\<close>

unbundle bit_operations_syntax

section \<open>DER\<close>

definition TAG_ROOT_OF_TRUST :: nat where "TAG_ROOT_OF_TRUST = 704"
definition TAG_NO_AUTH_REQUIRED :: nat where "TAG_NO_AUTH_REQUIRED = 503"
definition TAG_USER_AUTH_TYPE :: nat where "TAG_USER_AUTH_TYPE = 504"
definition TAG_ORIGIN :: nat where "TAG_ORIGIN = 702"

definition SECURITY_LEVELS :: "(nat \<times> string) list" where
  "SECURITY_LEVELS = [(0, ''software''), (1, ''trusted_environment''), (2, ''strongbox'')]"

definition BOOT_STATES :: "(nat \<times> string) list" where
  "BOOT_STATES = [(0, ''verified''), (1, ''self_signed''), (2, ''unverified''), (3, ''failed'')]"

definition get_or_unknown :: "(nat \<times> string) list \<Rightarrow> nat \<Rightarrow> string" where
  "get_or_unknown table k = (case map_of table k of Some s \<Rightarrow> s | None \<Rightarrow> ''unknown'')"

record der_value =
  dv_tag :: nat
  dv_content :: bytes

definition byte_at :: "bytes \<Rightarrow> nat \<Rightarrow> exn + nat" where
  "byte_at data i = (if i < length data then Inr (unat (data ! i)) else Inl IndexError)"

text \<open>\<^verbatim>\<open>data[i:j]\<close> for \<open>i \<le> j\<close>: clamped to the buffer.\<close>

definition slice :: "bytes \<Rightarrow> nat \<Rightarrow> nat \<Rightarrow> bytes" where
  "slice data i j = take (j - i) (drop i data)"

definition read_tlv :: "bytes \<Rightarrow> nat \<Rightarrow> exn + (der_value \<times> nat)" where
  "read_tlv data offset =
     (if length data \<le> offset then Inl (DerError ''truncated'')
      else bindS (byte_at data offset) (\<lambda>tag.
        let offset = offset + 1 in
        if tag AND 0x1F = 0x1F then Inl (DerError ''high tag numbers are not supported'')
        else if length data \<le> offset then Inl (DerError ''truncated length'')
        else bindS (byte_at data offset) (\<lambda>len0.
          let offset = offset + 1 in
          bindS
            (if len0 AND 0x80 \<noteq> 0 then
               (let count = len0 AND 0x7F in
                if count = 0 \<or> 4 < count \<or> length data < offset + count
                then Inl (DerError ''bad length encoding'')
                else Inr (int_from_bytes (slice data offset (offset + count)), offset + count))
             else Inr (len0, offset))
            (\<lambda>(len, offset).
               let stop = offset + len in
               if length data < stop then Inl (DerError ''length beyond buffer'')
               else Inr (\<lparr>dv_tag = tag, dv_content = slice data offset stop\<rparr>, stop)))))"

lemma read_tlv_progress:
  assumes "read_tlv data offset = Inr (v, stop)"
  shows "offset + 2 \<le> stop \<and> stop \<le> length data"
  using assms
  by (auto simp: read_tlv_def bindS_Inr_iff Let_def split: if_splits)

function read_sequence_from :: "bytes \<Rightarrow> nat \<Rightarrow> exn + der_value list" where
  "read_sequence_from content offset =
     (if offset < length content then
        (case read_tlv content offset of
           Inl e \<Rightarrow> Inl e
         | Inr (v, offset') \<Rightarrow> bindS (read_sequence_from content offset') (\<lambda>vs. Inr (v # vs)))
      else Inr [])"
  by pat_completeness auto
termination
  by (relation "measure (\<lambda>(content, offset). length content - offset)") (auto dest: read_tlv_progress)

declare read_sequence_from.simps [simp del]

definition read_sequence :: "bytes \<Rightarrow> exn + der_value list" where
  "read_sequence content = read_sequence_from content 0"

definition as_int_der :: "der_value \<Rightarrow> nat" where
  "as_int_der v = (if dv_content v \<noteq> [] then int_from_bytes (dv_content v) else 0)"

text \<open>The unused helper of the module: a later item with the same tag overwrites an earlier one.\<close>

definition parse_authorization_list :: "der_value \<Rightarrow> exn + (nat \<rightharpoonup> bytes)" where
  "parse_authorization_list v =
     bindS (read_sequence (dv_content v)) (\<lambda>items.
       Inr (foldl (\<lambda>result item.
              let tag_number = dv_tag item AND 0x1F in
              if tag_number = 0x1F then result else result(tag_number \<mapsto> dv_content item))
            Map.empty items))"

section \<open>The authorization list\<close>

record auth_list =
  al_boot_state :: "string option"
  al_device_locked :: "bool option"
  al_no_auth_required :: bool
  al_user_auth_type :: "nat option"

definition empty_auth_list :: auth_list where
  "empty_auth_list = \<lparr>al_boot_state = None, al_device_locked = None,
     al_no_auth_required = False, al_user_auth_type = None\<rparr>"

text \<open>The multi-byte tag: \<^verbatim>\<open>while cursor < len(content)\<close> until a byte without the top bit.\<close>

function scan_tag :: "bytes \<Rightarrow> nat \<Rightarrow> nat \<Rightarrow> nat \<times> nat" where
  "scan_tag content cursor tag_number =
     (if cursor < length content then
        (let b = unat (content ! cursor); tag' = push_bit 7 tag_number OR (b AND 0x7F) in
         if b AND 0x80 = 0 then (tag', cursor + 1) else scan_tag content (cursor + 1) tag')
      else (tag_number, cursor))"
  by pat_completeness auto
termination
  by (relation "measure (\<lambda>(content, cursor, _). length content - cursor)") auto

declare scan_tag.simps [simp del]

lemma scan_tag_cursor: "cursor \<le> snd (scan_tag content cursor tag)"
proof (induction content cursor tag rule: scan_tag.induct)
  case (1 content cursor tag)
  show ?case
  proof (cases "cursor < length content \<and> unat (content ! cursor) AND 0x80 \<noteq> 0")
    case True
    then have "cursor + 1 \<le> snd (scan_tag content (cursor + 1)
        (push_bit 7 tag OR (unat (content ! cursor) AND 0x7F)))"
      by (intro 1) auto
    with True show ?thesis by (subst scan_tag.simps) (simp add: Let_def)
  next
    case False
    then show ?thesis by (subst scan_tag.simps) (auto simp: Let_def)
  qed
qed

text \<open>What one entry contributes, by its tag number.\<close>

definition scan_entry :: "nat \<Rightarrow> bytes \<Rightarrow> auth_list \<Rightarrow> exn + auth_list" where
  "scan_entry tag_number body out =
     (if tag_number = TAG_ROOT_OF_TRUST then
        bindS (read_tlv body 0) (\<lambda>(inner, _).
          bindS (read_sequence (dv_content inner)) (\<lambda>fields.
            if 3 \<le> length fields then
              Inr (out\<lparr>al_device_locked := Some (dv_content (fields ! 1) = [0xFF]),
                       al_boot_state := Some (get_or_unknown BOOT_STATES (as_int_der (fields ! 2)))\<rparr>)
            else Inr out))
      else if tag_number = TAG_NO_AUTH_REQUIRED then Inr (out\<lparr>al_no_auth_required := True\<rparr>)
      else if tag_number = TAG_USER_AUTH_TYPE then
        bindS (read_tlv body 0) (\<lambda>(inner, _). Inr (out\<lparr>al_user_auth_type := Some (as_int_der inner)\<rparr>))
      else Inr out)"

text \<open>The identifier octets at \<open>offset\<close>: the tag number and where the length octets start.\<close>

definition entry_tag :: "bytes \<Rightarrow> nat \<Rightarrow> nat \<times> nat" where
  "entry_tag content offset =
     (let first = unat (content ! offset) in
      if first AND 0x1F = 0x1F then scan_tag content (offset + 1) 0
      else (first AND 0x1F, offset + 1))"

text \<open>The length octets at \<open>cursor\<close>: the length and where the body starts.\<close>

definition entry_length :: "bytes \<Rightarrow> nat \<Rightarrow> nat \<times> nat" where
  "entry_length content cursor =
     (let len0 = unat (content ! cursor); count = len0 AND 0x7F in
      if len0 AND 0x80 \<noteq> 0
      then (int_from_bytes (slice content (cursor + 1) (cursor + 1 + count)), cursor + 1 + count)
      else (len0, cursor + 1))"

lemma entry_tag_cursor: "entry_tag content offset = (t, cursor) \<Longrightarrow> offset < cursor"
  using scan_tag_cursor [of "offset + 1" content 0] by (auto simp: entry_tag_def Let_def split: if_splits)

lemma entry_length_cursor: "entry_length content cursor = (len, cursor') \<Longrightarrow> cursor < cursor'"
  by (auto simp: entry_length_def Let_def split: if_splits)

function scan_from :: "bytes \<Rightarrow> nat \<Rightarrow> auth_list \<Rightarrow> exn + auth_list" where
  "scan_from content offset out =
     (if offset < length content then
        (case entry_tag content offset of (tag_number, cursor) \<Rightarrow>
           if length content \<le> cursor then Inr out
           else (case entry_length content cursor of (len, cursor') \<Rightarrow>
             (case scan_entry tag_number (slice content cursor' (cursor' + len)) out of
                Inl e \<Rightarrow> Inl e
              | Inr out' \<Rightarrow> scan_from content (cursor' + len) out')))
      else Inr out)"
  by pat_completeness auto
termination
  by (relation "measure (\<lambda>(content, offset, _). length content - offset)")
    (auto dest!: entry_tag_cursor [OF sym] entry_length_cursor [OF sym])

declare scan_from.simps [simp del]

definition scan_authorization_list :: "bytes \<Rightarrow> exn + auth_list" where
  "scan_authorization_list content = scan_from content 0 empty_auth_list"

section \<open>KeyDescription\<close>

record key_description =
  kd_attestation_version :: nat
  kd_attestation_security_level :: string
  kd_keymaster_version :: nat
  kd_keymaster_security_level :: string
  kd_attestation_challenge :: bytes
  kd_unique_id :: bytes
  kd_auth :: auth_list

definition parse_key_description :: "bytes \<Rightarrow> exn + key_description" where
  "parse_key_description extension_bytes =
     bindS (read_tlv extension_bytes 0) (\<lambda>(root, _).
     bindS (read_sequence (dv_content root)) (\<lambda>items.
       if length items < 8 then Inl (DerError ''KeyDescription has too few fields'')
       else
         bindS (scan_authorization_list (dv_content (items ! 7))) (\<lambda>tee.
         bindS (if al_boot_state tee = None then scan_authorization_list (dv_content (items ! 6)) else Inr tee)
           (\<lambda>auth. Inr \<lparr>
              kd_attestation_version = as_int_der (items ! 0),
              kd_attestation_security_level = get_or_unknown SECURITY_LEVELS (as_int_der (items ! 1)),
              kd_keymaster_version = as_int_der (items ! 2),
              kd_keymaster_security_level = get_or_unknown SECURITY_LEVELS (as_int_der (items ! 3)),
              kd_attestation_challenge = dv_content (items ! 4),
              kd_unique_id = dv_content (items ! 5),
              kd_auth = auth\<rparr>))))"

section \<open>The verdict on a chain\<close>

record verdict =
  av_ok :: bool
  av_reason :: string
  av_security_level :: string
  av_boot_state :: string
  av_device_locked :: bool
  av_user_auth_required :: bool
  av_challenge_matches :: bool
  av_play_integrity :: "(string \<times> json) list"
  av_chain_subjects :: "string list"

definition bad_verdict :: "string \<Rightarrow> string list \<Rightarrow> verdict" where
  "bad_verdict reason subjects = \<lparr>av_ok = False, av_reason = reason, av_security_level = ''unknown'',
     av_boot_state = ''unknown'', av_device_locked = False, av_user_auth_required = False,
     av_challenge_matches = False, av_play_integrity = [], av_chain_subjects = subjects\<rparr>"

text \<open>\<^verbatim>\<open>as_detail\<close>; \<open>evaluated_at\<close> is the rendered clock.\<close>

definition as_detail :: "string \<Rightarrow> verdict \<Rightarrow> json" where
  "as_detail evaluated_at v = JObj
     [(''security_level'', JStr (av_security_level v)), (''boot_state'', JStr (av_boot_state v)),
      (''device_locked'', JBool (av_device_locked v)),
      (''user_auth_required'', JBool (av_user_auth_required v)),
      (''challenge_matches'', JBool (av_challenge_matches v)),
      (''play_integrity'', JObj (av_play_integrity v)),
      (''chain_subjects'', JList (map JStr (av_chain_subjects v))),
      (''reason'', JStr (av_reason v)), (''evaluated_at'', JStr evaluated_at)]"

datatype key_kind = Rsa | Ec | Other_key

record certificate =
  cert_id :: nat
  cert_subject :: string
  cert_key :: key_kind
  cert_hash_alg :: string
  cert_attestation :: "bytes option"

record x509 =
  load_pem :: "string \<Rightarrow> exn + certificate"
  verify_signature :: "certificate \<Rightarrow> certificate \<Rightarrow> exn + unit"
  fingerprint :: "certificate \<Rightarrow> string \<Rightarrow> bytes"

fun verify_chain :: "x509 \<Rightarrow> certificate list \<Rightarrow> exn + unit" where
  "verify_chain x (child # parent # rest) =
     bindS
       (if cert_key parent = Rsa then verify_signature x parent child
        else if cert_key parent = Ec then verify_signature x parent child
        else Inl (InvalidSignature ''unsupported key type in attestation chain''))
       (\<lambda>_. verify_chain x (parent # rest))"
| "verify_chain x _ = Inr ()"

fun load_chain :: "x509 \<Rightarrow> string list \<Rightarrow> exn + certificate list" where
  "load_chain x [] = Inr []"
| "load_chain x (pem # pems) = bindS (load_pem x pem) (\<lambda>c. bindS (load_chain x pems) (\<lambda>cs. Inr (c # cs)))"

text \<open>The text of an exception, for the reasons that quote it.\<close>

fun exn_message :: "exn \<Rightarrow> string" where
  "exn_message (ValueError m) = m"
| "exn_message (DerError m) = m"
| "exn_message (InvalidSignature m) = m"
| "exn_message _ = []"

fun is_InvalidSignature :: "exn \<Rightarrow> bool" where
  "is_InvalidSignature (InvalidSignature _) = True"
| "is_InvalidSignature _ = False"

fun is_DerError :: "exn \<Rightarrow> bool" where
  "is_DerError (DerError _) = True"
| "is_DerError _ = False"

text \<open>The checks on the parsed description, in their order.\<close>

definition judge_key :: "key_description \<Rightarrow> bytes \<Rightarrow> bool \<Rightarrow> string list \<Rightarrow> verdict" where
  "judge_key parsed expected_challenge require_strongbox subjects =
     (let v = \<lparr>av_ok = False, av_reason = [],
               av_security_level = kd_attestation_security_level parsed,
               av_boot_state = (case al_boot_state (kd_auth parsed) of
                                  None \<Rightarrow> ''unknown'' | Some b \<Rightarrow> if b = [] then ''unknown'' else b),
               av_device_locked = (al_device_locked (kd_auth parsed) = Some True),
               av_user_auth_required = (\<not> al_no_auth_required (kd_auth parsed)),
               av_challenge_matches = (kd_attestation_challenge parsed = expected_challenge),
               av_play_integrity = [], av_chain_subjects = subjects\<rparr>
      in if \<not> av_challenge_matches v then v\<lparr>av_reason := ''attestation challenge does not match the one issued''\<rparr>
         else if av_security_level v = ''software'' then v\<lparr>av_reason := ''key is not in secure hardware''\<rparr>
         else if require_strongbox \<and> av_security_level v \<noteq> ''strongbox''
           then v\<lparr>av_reason := ''StrongBox required but key is only TEE backed''\<rparr>
         else if av_boot_state v \<noteq> ''verified''
           then v\<lparr>av_reason := ''verified boot state is '' @ av_boot_state v\<rparr>
         else if \<not> av_device_locked v then v\<lparr>av_reason := ''bootloader is unlocked''\<rparr>
         else if \<not> av_user_auth_required v
           then v\<lparr>av_reason := ''key can be used without user authentication''\<rparr>
         else v\<lparr>av_ok := True, av_reason := ''ok''\<rparr>)"

definition verify_key_attestation ::
  "x509 \<Rightarrow> string list \<Rightarrow> bytes \<Rightarrow> certificate list option \<Rightarrow> bool \<Rightarrow> exn + verdict"
where
  "verify_key_attestation x chain_pem expected_challenge trusted_roots require_strongbox =
     (if chain_pem = [] then Inr (bad_verdict ''no certificate chain supplied'' [])
      else (case load_chain x chain_pem of
        Inl exc \<Rightarrow>
          if is_ValueError exc then Inr (bad_verdict (''unparseable chain: '' @ exn_message exc) []) else Inl exc
      | Inr chain \<Rightarrow>
        (case verify_chain x chain of
          Inl exc \<Rightarrow>
            if is_InvalidSignature exc \<or> is_ValueError exc
            then Inr (bad_verdict (''chain signature invalid: '' @ exn_message exc) []) else Inl exc
        | Inr _ \<Rightarrow>
          let subjects = map cert_subject chain; top = last chain;
              roots = (case trusted_roots of None \<Rightarrow> [] | Some rs \<Rightarrow> rs)
          in if roots \<noteq> [] \<and> fingerprint x top (cert_hash_alg top)
                  \<notin> set (map (\<lambda>c. fingerprint x c (cert_hash_alg top)) roots)
             then Inr (bad_verdict ''chain does not terminate in a trusted root'' subjects)
             else (case cert_attestation (hd chain) of
               None \<Rightarrow> Inr (bad_verdict ''leaf has no key attestation extension'' subjects)
             | Some ext_bytes \<Rightarrow>
               (case parse_key_description ext_bytes of
                 Inl exc \<Rightarrow>
                   if is_DerError exc
                   then Inr (bad_verdict (''malformed KeyDescription: '' @ exn_message exc) subjects)
                   else Inl exc
               | Inr parsed \<Rightarrow> Inr (judge_key parsed expected_challenge require_strongbox subjects))))))"

section \<open>Play Integrity\<close>

text \<open>\<^verbatim>\<open>value.get(name, default)\<close> on a decoded value: AttributeError unless it is an object.\<close>

definition json_get :: "json \<Rightarrow> string \<Rightarrow> json \<Rightarrow> exn + json" where
  "json_get v name dflt =
     (case v of
        JObj kvs \<Rightarrow> Inr (case obj_get kvs name of None \<Rightarrow> dflt | Some j \<Rightarrow> j)
      | _ \<Rightarrow> Inl AttributeError)"

definition normal_digest :: "string \<Rightarrow> string" where
  "normal_digest d = filter (\<lambda>c. c \<noteq> CHR '':'') (py_lower d)"

fun normal_digests :: "json list \<Rightarrow> exn + string list" where
  "normal_digests [] = Inr []"
| "normal_digests (JStr d # ds) = bindS (normal_digests ds) (\<lambda>ns. Inr (normal_digest d # ns))"
| "normal_digests (_ # ds) = Inl AttributeError"

text \<open>The comprehension over the digests: any iterable value can stand there.\<close>

definition iter_digests :: "json \<Rightarrow> exn + string list" where
  "iter_digests v =
     (case v of
        JList js \<Rightarrow> normal_digests js
      | JStr s \<Rightarrow> Inr (map (\<lambda>c. normal_digest [c]) s)
      | JObj kvs \<Rightarrow> Inr (map (\<lambda>kv. normal_digest (fst kv)) kvs)
      | _ \<Rightarrow> Inl TypeError)"

text \<open>\<^verbatim>\<open>needle in value\<close>.\<close>

definition json_contains :: "string \<Rightarrow> json \<Rightarrow> exn + bool" where
  "json_contains needle v =
     (case v of
        JList js \<Rightarrow> Inr (JStr needle \<in> set js)
      | JStr s \<Rightarrow> Inr (sublist needle s)
      | JObj kvs \<Rightarrow> Inr (needle \<in> set (map fst kvs))
      | _ \<Rightarrow> Inl TypeError)"

definition evaluate_play_integrity :: "json option \<Rightarrow> string \<Rightarrow> string \<Rightarrow> exn + (bool \<times> json)" where
  "evaluate_play_integrity verdict_payload expected_package expected_cert_digest =
     (case verdict_payload of
        None \<Rightarrow> Inr (False, JObj [(''reason'', JStr ''no integrity verdict'')])
      | Some payload \<Rightarrow>
        if \<not> json_truthy payload then Inr (False, JObj [(''reason'', JStr ''no integrity verdict'')])
        else
          bindS (json_get payload ''appIntegrity'' (JObj [])) (\<lambda>app.
          bindS (json_get payload ''deviceIntegrity'' (JObj [])) (\<lambda>device.
          bindS (json_get payload ''accountDetails'' (JObj [])) (\<lambda>account.
          bindS (json_get app ''appRecognitionVerdict'' JNull) (\<lambda>recognition.
          bindS (if expected_package \<noteq> [] then json_get app ''packageName'' JNull else Inr JNull) (\<lambda>package.
          bindS (if expected_cert_digest \<noteq> []
                 then bindS (json_get app ''certificateSha256Digest'' (JList [])) iter_digests
                 else Inr []) (\<lambda>digests.
          bindS (json_get device ''deviceRecognitionVerdict'' (JList [])) (\<lambda>recognised.
          bindS (json_contains ''MEETS_DEVICE_INTEGRITY'' recognised) (\<lambda>meets.
          bindS (json_get account ''appLicensingVerdict'' JNull) (\<lambda>licensing.
            let problems =
              (if recognition \<noteq> JStr ''PLAY_RECOGNIZED'' then [''app is not the build published on Play''] else []) @
              (if expected_package \<noteq> [] \<and> package \<noteq> JStr expected_package then [''package name mismatch''] else []) @
              (if expected_cert_digest \<noteq> [] \<and> py_lower expected_cert_digest \<notin> set digests
               then [''signing certificate mismatch''] else []) @
              (if \<not> meets then [''device does not meet basic integrity''] else [])
            in Inr (problems = [],
                 JObj [(''app_recognition'', recognition), (''device_recognition'', recognised),
                       (''licensing'', licensing), (''problems'', JList (map JStr problems))])))))))))))"

definition decode_integrity_payload :: "string \<Rightarrow> json option" where
  "decode_integrity_payload raw =
     (if raw = [] then None
      else (case loads raw of
          Some j \<Rightarrow> Some j
        | None \<Rightarrow>
            (case b64decode False (raw @ replicate ((4 - length raw mod 4) mod 4) b64_pad) of
               None \<Rightarrow> None
             | Some decoded \<Rightarrow> (case utf8_decode decoded of None \<Rightarrow> None | Some text \<Rightarrow> loads text))))"

section \<open>The reader never leaves its buffer\<close>

lemma byte_at_in: "i < length data \<Longrightarrow> byte_at data i = Inr (unat (data ! i))"
  by (simp add: byte_at_def)

lemma read_tlv_error: "read_tlv data offset = Inl e \<Longrightarrow> is_DerError e"
  by (auto simp: read_tlv_def byte_at_in bindS_Inl_iff Let_def split: if_splits)

lemma read_sequence_from_error: "read_sequence_from content offset = Inl e \<Longrightarrow> is_DerError e"
proof (induction content offset rule: read_sequence_from.induct)
  case (1 content offset)
  from 1(2) show ?case
    by (subst (asm) read_sequence_from.simps)
      (auto simp: bindS_Inl_iff split: if_splits sum.splits prod.splits dest: read_tlv_error 1(1))
qed

lemma read_sequence_error: "read_sequence content = Inl e \<Longrightarrow> is_DerError e"
  by (simp add: read_sequence_def read_sequence_from_error)

lemma scan_entry_error: "scan_entry t body out = Inl e \<Longrightarrow> is_DerError e"
  by (auto simp: scan_entry_def bindS_Inl_iff split: if_splits prod.splits
      dest: read_tlv_error read_sequence_error)

lemma scan_from_error: "scan_from content offset out = Inl e \<Longrightarrow> is_DerError e"
proof (induction content offset out rule: scan_from.induct)
  case (1 content offset out)
  from 1(2) show ?case
    by (subst (asm) scan_from.simps)
      (auto split: if_splits sum.splits prod.splits dest: scan_entry_error 1(1))
qed


section \<open>When a chain is accepted\<close>

definition rooted :: "x509 \<Rightarrow> certificate list \<Rightarrow> certificate list option \<Rightarrow> bool" where
  "rooted x chain trusted_roots \<longleftrightarrow>
     (let top = last chain; roots = (case trusted_roots of None \<Rightarrow> [] | Some rs \<Rightarrow> rs) in
      roots = [] \<or> fingerprint x top (cert_hash_alg top)
        \<in> set (map (\<lambda>c. fingerprint x c (cert_hash_alg top)) roots))"

definition acceptable_key :: "key_description \<Rightarrow> bytes \<Rightarrow> bool \<Rightarrow> bool" where
  "acceptable_key kd challenge require_strongbox \<longleftrightarrow>
     kd_attestation_challenge kd = challenge \<and>
     kd_attestation_security_level kd \<noteq> ''software'' \<and>
     (require_strongbox \<longrightarrow> kd_attestation_security_level kd = ''strongbox'') \<and>
     al_boot_state (kd_auth kd) = Some ''verified'' \<and>
     al_device_locked (kd_auth kd) = Some True \<and>
     \<not> al_no_auth_required (kd_auth kd)"

lemma judge_key_ok: "av_ok (judge_key kd challenge sb subjects) \<longleftrightarrow> acceptable_key kd challenge sb"
  by (cases "al_boot_state (kd_auth kd)") (auto simp: judge_key_def acceptable_key_def Let_def)

lemma bad_verdict_not_ok [simp]: "\<not> av_ok (bad_verdict r s)"
  by (simp add: bad_verdict_def)


text \<open>A description as a phone in good order produces it, for the concrete inputs.\<close>

definition sample_extension :: bytes where
  "sample_extension =
     [0x30, 0x2A, 0x02, 0x01, 0x03, 0x0A, 0x01, 0x01, 0x02, 0x01, 0x04, 0x0A, 0x01, 0x01,
      0x04, 0x02, 0x09, 0x09, 0x04, 0x00, 0x30, 0x00,
      0x30, 0x14, 0xBF, 0x85, 0x40, 0x10, 0x30, 0x0E, 0x04, 0x02, 0x01, 0x01, 0x01, 0x01, 0xFF,
      0x0A, 0x01, 0x00, 0x04, 0x02, 0x05, 0x05]"

definition sample_description :: key_description where
  "sample_description = \<lparr>kd_attestation_version = 3, kd_attestation_security_level = ''trusted_environment'',
     kd_keymaster_version = 4, kd_keymaster_security_level = ''trusted_environment'',
     kd_attestation_challenge = [9, 9], kd_unique_id = [],
     kd_auth = \<lparr>al_boot_state = Some ''verified'', al_device_locked = Some True,
       al_no_auth_required = False, al_user_auth_type = None\<rparr>\<rparr>"

lemma parse_sample_extension: "parse_key_description sample_extension = Inr sample_description"
  by code_simp

definition sample_leaf :: certificate where
  "sample_leaf = \<lparr>cert_id = 1, cert_subject = ''CN=leaf'', cert_key = Ec, cert_hash_alg = ''sha256'',
     cert_attestation = Some sample_extension\<rparr>"

definition sample_x509 :: x509 where
  "sample_x509 = \<lparr>load_pem = (\<lambda>_. Inr sample_leaf), verify_signature = (\<lambda>_ _. Inl (InvalidSignature [])),
     fingerprint = (\<lambda>c _. utf8 (cert_subject c))\<rparr>"

text \<open>
  With no roots configured, which is how the enrolment service calls it, a chain of one
  certificate is accepted on its contents alone: whatever the signature check would say, a leaf
  whose description is acceptable gives a positive verdict, so any party can present a leaf it
  made itself.
\<close>

theorem single_certificate_unanchored:
  assumes "load_pem x pem = Inr leaf" and "cert_attestation leaf = Some ext_bytes"
    and "parse_key_description ext_bytes = Inr kd" and "acceptable_key kd challenge sb"
  shows "\<exists>v. verify_key_attestation (x\<lparr>verify_signature := check\<rparr>) [pem] challenge None sb = Inr v \<and> av_ok v"
  using assms by (simp add: verify_key_attestation_def judge_key_ok)

theorem single_certificate_unanchored_witness:
  "\<exists>v. verify_key_attestation (sample_x509\<lparr>verify_signature := \<lambda>_ _. Inl (InvalidSignature [])\<rparr>) [''leaf''] [9, 9] None False
       = Inr v \<and> av_ok v"
  by (rule single_certificate_unanchored [of _ _ sample_leaf sample_extension sample_description])
    (simp_all add: sample_x509_def sample_leaf_def parse_sample_extension acceptable_key_def sample_description_def)

section \<open>Round trip of the DER reader\<close>

text \<open>The reference encoder: definite lengths in the shortest form, at most four length octets.\<close>

definition length_octets :: "nat \<Rightarrow> nat" where
  "length_octets n = (if n < 256 then 1 else if n < 256 ^ 2 then 2 else if n < 256 ^ 3 then 3 else 4)"

definition der_length :: "nat \<Rightarrow> bytes" where
  "der_length n =
     (if n < 128 then [of_nat n] else of_nat (128 + length_octets n) # nat_to_bytes (length_octets n) n)"

definition der_encode :: "der_value \<Rightarrow> bytes" where
  "der_encode v = of_nat (dv_tag v) # der_length (length (dv_content v)) @ dv_content v"

definition der_wf :: "der_value \<Rightarrow> bool" where
  "der_wf v \<longleftrightarrow> dv_tag v < 256 \<and> dv_tag v AND 0x1F \<noteq> 0x1F \<and> length (dv_content v) < 256 ^ 4"

lemma short_length_bit: "n < 128 \<Longrightarrow> n AND 0x80 = (0::nat)"
  using and_exp_eq_0_iff_not_bit [of n 7] by (simp add: bit_iff_odd)

lemma length_octets_range: "1 \<le> length_octets n" "length_octets n \<le> 4"
  by (simp_all add: length_octets_def)

lemma length_octets_fit: "n < 256 ^ 4 \<Longrightarrow> n < 256 ^ length_octets n"
  by (simp add: length_octets_def)

lemma long_length_bits: "(128 + length_octets n) AND 0x80 \<noteq> 0" "(128 + length_octets n) AND 0x7F = length_octets n"
  by (simp_all add: length_octets_def)

lemma slice_mid: "slice (pre @ mid @ post) (length pre) (length pre + length mid) = mid"
  by (simp add: slice_def)

text \<open>The length octets of a buffer, read at their offset.\<close>

definition read_length :: "bytes \<Rightarrow> nat \<Rightarrow> nat \<Rightarrow> exn + (nat \<times> nat)" where
  "read_length data len0 offset =
     (if len0 AND 0x80 \<noteq> 0 then
        (let count = len0 AND 0x7F in
         if count = 0 \<or> 4 < count \<or> length data < offset + count
         then Inl (DerError ''bad length encoding'')
         else Inr (int_from_bytes (slice data offset (offset + count)), offset + count))
      else Inr (len0, offset))"

lemma read_length_encoded:
  assumes "n < 256 ^ 4" and "data = pre @ der_length n @ post"
  shows "read_length data (unat (data ! length pre)) (length pre + 1) = Inr (n, length pre + length (der_length n))"
proof (cases "n < 128")
  case True
  then show ?thesis
    by (simp add: assms(2) read_length_def der_length_def unat_of_nat_byte short_length_bit nth_append)
next
  case False
  let ?k = "length_octets n"
  have nth: "unat (data ! length pre) = 128 + ?k"
    using False length_octets_range(2) [of n]
    by (simp add: assms(2) der_length_def nth_append unat_of_nat_byte del: of_nat_add)
  have "slice data (length pre + 1) (length pre + 1 + ?k) = nat_to_bytes ?k n"
    using slice_mid [of "pre @ [of_nat (128 + ?k)]" "nat_to_bytes ?k n" post] False
    by (simp add: assms(2) der_length_def)
  moreover have "length pre + 1 + ?k \<le> length data"
    using False by (simp add: assms(2) der_length_def)
  ultimately show ?thesis
    using False length_octets_range [of n] int_from_nat_to_bytes [OF length_octets_fit [OF assms(1)]]
    by (simp add: read_length_def nth long_length_bits Let_def der_length_def)
qed

lemma read_tlv_length:
  assumes "offset + 1 < length data" and "unat (data ! offset) AND 0x1F \<noteq> 0x1F"
    and "read_length data (unat (data ! (offset + 1))) (offset + 2) = Inr (len, body)"
    and "body + len \<le> length data"
  shows "read_tlv data offset =
    Inr (\<lparr>dv_tag = unat (data ! offset), dv_content = slice data body (body + len)\<rparr>, body + len)"
  using assms by (simp add: read_tlv_def read_length_def byte_at_in Let_def)

lemma der_length_nonempty: "1 \<le> length (der_length n)" "der_length n \<noteq> []"
  by (simp_all add: der_length_def)

lemma read_tlv_encoded:
  assumes "der_wf v" and "data = pre @ der_encode v @ post"
  shows "read_tlv data (length pre) = Inr (v, length pre + length (der_encode v))"
proof -
  let ?n = "length (dv_content v)" and ?t = "of_nat (dv_tag v) :: byte"
  have n: "?n < 256 ^ 4" and tag: "unat (data ! length pre) = dv_tag v"
    using assms by (simp_all add: der_wf_def der_encode_def nth_append unat_of_nat_byte)
  have d: "data = (pre @ [?t]) @ der_length ?n @ dv_content v @ post"
    by (simp add: assms(2) der_encode_def)
  have len: "read_length data (unat (data ! (length pre + 1))) (length pre + 2)
      = Inr (?n, length pre + 1 + length (der_length ?n))"
    using read_length_encoded [OF n d] by simp
  have body: "slice data (length pre + 1 + length (der_length ?n)) (length pre + 1 + length (der_length ?n) + ?n)
      = dv_content v"
    using slice_mid [of "pre @ [?t] @ der_length ?n" "dv_content v" post] by (simp add: assms(2) der_encode_def)
  have "read_tlv data (length pre) = Inr (\<lparr>dv_tag = unat (data ! length pre),
      dv_content = slice data (length pre + 1 + length (der_length ?n))
        (length pre + 1 + length (der_length ?n) + ?n)\<rparr>, length pre + 1 + length (der_length ?n) + ?n)"
    using der_length_nonempty(1) [of ?n] der_length_nonempty(2) [of 0] assms(1) tag
    by (intro read_tlv_length len) (simp_all add: assms(2) der_encode_def der_wf_def)
  then show ?thesis unfolding body tag by (cases v) (simp add: der_encode_def)
qed

lemma read_sequence_from_encoded:
  assumes "list_all der_wf vs" and "data = pre @ concat (map der_encode vs)"
  shows "read_sequence_from data (length pre) = Inr vs"
  using assms
proof (induction vs arbitrary: pre)
  case Nil
  then show ?case by (subst read_sequence_from.simps) simp
next
  case (Cons v vs)
  have step: "read_tlv data (length pre) = Inr (v, length pre + length (der_encode v))"
    using Cons.prems by (intro read_tlv_encoded [where post = "concat (map der_encode vs)"]) simp_all
  have "read_sequence_from data (length (pre @ der_encode v)) = Inr vs"
    using Cons.prems by (intro Cons.IH) simp_all
  moreover have "length pre < length data" using Cons.prems by (simp add: der_encode_def)
  ultimately show ?case by (subst read_sequence_from.simps) (simp add: step)
qed

text \<open>
  Reading a sequence of DER values, each with a one-byte tag and fewer than \<open>2 ^ 32\<close>
  content bytes, encoded with definite lengths, gives back exactly those values, for both the
  short and the long form of the length.
\<close>

theorem read_sequence_roundtrip:
  assumes "list_all der_wf vs"
  shows "read_sequence (concat (map der_encode vs)) = Inr vs"
  using read_sequence_from_encoded [OF assms, where pre = "[]"] by (simp add: read_sequence_def)

theorem read_sequence_roundtrip_witness:
  "read_sequence (concat (map der_encode [\<lparr>dv_tag = 2, dv_content = [7]\<rparr>, \<lparr>dv_tag = 4, dv_content = replicate 130 9\<rparr>]))
     = Inr [\<lparr>dv_tag = 2, dv_content = [7]\<rparr>, \<lparr>dv_tag = 4, dv_content = replicate 130 9\<rparr>]"
  by (rule read_sequence_roundtrip) (simp add: der_wf_def)

end
