(* ===== verification/Hub.thy ===== *)
theory Hub
  imports Json Errors
begin

text \<open>
  \<^verbatim>\<open>backend/app/ws/hub.py\<close>: the registry of live controller connections. Sessions and futures are
  objects with identity, which the code relies on (\<^verbatim>\<open>is session\<close>, a request that still holds the
  session it was sent through after another one replaced it), so both live in a store addressed
  by number. \<^verbatim>\<open>send_command\<close> is split at its \<^verbatim>\<open>await\<close>: what runs before it (\<open>send_begin\<close>) and after
  it, where the future is done, the wait timed out (\<open>send_finish\<close>) or writing to the socket failed
  (\<open>send_abort\<close>). Between them any other coroutine may run; \<open>hub_step\<close> is one such run.
\<close>

section \<open>State\<close>

datatype fut_state = Fut_pending | Fut_result "(string \<times> json) list" | Fut_exception exn | Fut_cancelled

record controller_session =
  cs_controller_id :: uuid
  cs_code :: string
  cs_connected_at :: instant
  cs_last_pong_at :: instant
  cs_remote_ip :: "string option"
  cs_firmware :: json
  cs_pending :: "(string \<times> nat) list"

record hub =
  h_sessions :: "(string \<times> nat) list"
  h_objects :: "nat \<Rightarrow> controller_session option"
  h_futures :: "nat \<Rightarrow> fut_state option"
  h_next :: nat

definition empty_hub :: hub where
  "empty_hub = \<lparr>h_sessions = [], h_objects = \<lambda>_. None, h_futures = \<lambda>_. None, h_next = 0\<rparr>"

section \<open>Operations\<close>

text \<open>\<^verbatim>\<open>if not future.done(): future.set_...\<close>.\<close>

definition settle :: "fut_state \<Rightarrow> (nat \<Rightarrow> fut_state option) \<Rightarrow> nat \<Rightarrow> nat \<Rightarrow> fut_state option" where
  "settle v futs f = (if futs f = Some Fut_pending then futs(f := Some v) else futs)"

definition fail_pending :: "string \<Rightarrow> controller_session \<Rightarrow> hub \<Rightarrow> hub" where
  "fail_pending reason s h =
     h\<lparr>h_futures := foldl (settle (Fut_exception (ControllerOffline reason))) (h_futures h) (map snd (cs_pending s))\<rparr>"

text \<open>The constructor of a session object.\<close>

definition new_session :: "controller_session \<Rightarrow> hub \<Rightarrow> nat \<times> hub" where
  "new_session s h =
     (h_next h, h\<lparr>h_objects := (h_objects h)(h_next h := Some (s\<lparr>cs_pending := []\<rparr>)), h_next := h_next h + 1\<rparr>)"

definition session_at :: "hub \<Rightarrow> string \<Rightarrow> controller_session option" where
  "session_at h code = (case map_of (h_sessions h) code of None \<Rightarrow> None | Some sid \<Rightarrow> h_objects h sid)"

definition register :: "nat \<Rightarrow> controller_session \<Rightarrow> hub \<Rightarrow> hub" where
  "register sid s h =
     (let h1 = (case session_at h (cs_code s) of
                  None \<Rightarrow> h
                | Some existing \<Rightarrow> fail_pending ''superseded'' existing h)
      in h1\<lparr>h_sessions := dict_set (h_sessions h1) (cs_code s) sid\<rparr>)"

definition unregister :: "string \<Rightarrow> nat \<Rightarrow> hub \<Rightarrow> hub" where
  "unregister code sid h =
     (let h1 = (if map_of (h_sessions h) code = Some sid
                then h\<lparr>h_sessions := filter (\<lambda>kv. fst kv \<noteq> code) (h_sessions h)\<rparr> else h)
      in (case h_objects h1 sid of None \<Rightarrow> h1 | Some s \<Rightarrow> fail_pending ''disconnected'' s h1))"

definition hub_get :: "hub \<Rightarrow> string \<Rightarrow> nat option" where
  "hub_get h code = map_of (h_sessions h) code"

definition is_online :: "hub \<Rightarrow> string \<Rightarrow> bool" where
  "is_online h code = (code \<in> set (map fst (h_sessions h)))"

definition online_count :: "hub \<Rightarrow> int" where
  "online_count h = int (length (h_sessions h))"

definition online_codes :: "hub \<Rightarrow> string list" where
  "online_codes h = map fst (sort_keys (h_sessions h))"

text \<open>\<^verbatim>\<open>envelope["payload"]["command_id"]\<close>; every caller puts a string there.\<close>

definition envelope_command_id :: "(string \<times> json) list \<Rightarrow> exn + string" where
  "envelope_command_id envelope =
     (case obj_get envelope ''payload'' of
        None \<Rightarrow> Inl (KeyError ''payload'')
      | Some (JObj payload) \<Rightarrow>
          (case obj_get payload ''command_id'' of
             None \<Rightarrow> Inl (KeyError ''command_id'')
           | Some (JStr cid) \<Rightarrow> Inr cid
           | Some _ \<Rightarrow> Inl TypeError)
      | Some _ \<Rightarrow> Inl TypeError)"

definition set_pending :: "nat \<Rightarrow> (string \<times> nat) list \<Rightarrow> hub \<Rightarrow> hub" where
  "set_pending sid p h =
     (case h_objects h sid of
        None \<Rightarrow> h
      | Some s \<Rightarrow> h\<lparr>h_objects := (h_objects h)(sid := Some (s\<lparr>cs_pending := p\<rparr>))\<rparr>)"

definition send_begin :: "string \<Rightarrow> (string \<times> json) list \<Rightarrow> hub \<Rightarrow> exn + (nat \<times> string \<times> nat \<times> string \<times> hub)" where
  "send_begin code envelope h =
     (case map_of (h_sessions h) code of
        None \<Rightarrow> Inl (ControllerOffline code)
      | Some sid \<Rightarrow>
          (case h_objects h sid of
             None \<Rightarrow> Inl (ControllerOffline code)
           | Some s \<Rightarrow>
               bindS (envelope_command_id envelope) (\<lambda>cid.
                 let fut = h_next h;
                     h1 = h\<lparr>h_futures := (h_futures h)(fut := Some Fut_pending), h_next := fut + 1\<rparr>;
                     h2 = set_pending sid (dict_set (cs_pending s) cid fut) h1
                 in Inr (sid, cid, fut, dumps False True (JObj envelope), h2))))"

text \<open>\<^verbatim>\<open>session.pending.pop(command_id, None)\<close>.\<close>

definition pop_pending :: "nat \<Rightarrow> string \<Rightarrow> hub \<Rightarrow> hub" where
  "pop_pending sid cid h =
     (case h_objects h sid of
        None \<Rightarrow> h
      | Some s \<Rightarrow> set_pending sid (filter (\<lambda>kv. fst kv \<noteq> cid) (cs_pending s)) h)"

text \<open>After \<^verbatim>\<open>wait_for\<close>: a wait that ran out of time cancels the future.\<close>

definition send_finish :: "nat \<Rightarrow> string \<Rightarrow> nat \<Rightarrow> hub \<Rightarrow> (exn + (string \<times> json) list) \<times> hub" where
  "send_finish sid cid fut h =
     (case h_futures h fut of
        Some (Fut_result m) \<Rightarrow> (Inr m, pop_pending sid cid h)
      | Some (Fut_exception e) \<Rightarrow> (Inl e, pop_pending sid cid h)
      | _ \<Rightarrow> (Inl (CommandTimeout cid),
              pop_pending sid cid (h\<lparr>h_futures := settle Fut_cancelled (h_futures h) fut\<rparr>)))"

definition send_abort :: "nat \<Rightarrow> string \<Rightarrow> hub \<Rightarrow> hub" where
  "send_abort sid cid h = pop_pending sid cid h"

text \<open>\<^verbatim>\<open>str(message.get("command_id", ""))\<close>.\<close>

definition message_command_id :: "(string \<times> json) list \<Rightarrow> string" where
  "message_command_id message = (case obj_get message ''command_id'' of None \<Rightarrow> [] | Some j \<Rightarrow> py_str j)"

definition resolve :: "nat \<Rightarrow> (string \<times> json) list \<Rightarrow> hub \<Rightarrow> hub" where
  "resolve sid message h =
     (case h_objects h sid of
        None \<Rightarrow> h
      | Some s \<Rightarrow>
          (case map_of (cs_pending s) (message_command_id message) of
             None \<Rightarrow> h
           | Some fut \<Rightarrow> h\<lparr>h_futures := settle (Fut_result message) (h_futures h) fut\<rparr>))"

definition set_last_pong :: "nat \<Rightarrow> instant \<Rightarrow> hub \<Rightarrow> hub" where
  "set_last_pong sid t h =
     (case h_objects h sid of
        None \<Rightarrow> h
      | Some s \<Rightarrow> h\<lparr>h_objects := (h_objects h)(sid := Some (s\<lparr>cs_last_pong_at := t\<rparr>))\<rparr>)"

section \<open>Interleavings\<close>

text \<open>Which requests wait where: session, command and future.\<close>

definition waiting :: "hub \<Rightarrow> (nat \<times> string \<times> nat) set" where
  "waiting h = {(sid, cid, f). \<exists>s. h_objects h sid = Some s \<and> (cid, f) \<in> set (cs_pending s)}"

inductive hub_step :: "hub \<Rightarrow> hub \<Rightarrow> bool" where
  connect: "new_session s h = (sid, h1) \<Longrightarrow> hub_step h (register sid (s\<lparr>cs_pending := []\<rparr>) h1)"
| disconnect: "h_objects h sid = Some s \<Longrightarrow> hub_step h (unregister (cs_code s) sid h)"
| send: "send_begin code envelope h = Inr (sid, cid, f, text', h') \<Longrightarrow> hub_step h h'"
| ack: "hub_step h (resolve sid message h)"
| finish: "(sid, cid, f) \<in> waiting h \<Longrightarrow> hub_step h (snd (send_finish sid cid f h))"
| abort: "(sid, cid, f) \<in> waiting h \<Longrightarrow> hub_step h (send_abort sid cid h)"
| pong: "hub_step h (set_last_pong sid t h)"

definition hub_reachable :: "hub \<Rightarrow> bool" where
  "hub_reachable h = rtranclp hub_step empty_hub h"

inductive_cases hub_stepE: "hub_step h h'"

section \<open>What each operation changes\<close>

lemma settle_apply:
  "settle v futs f g = (if g = f \<and> futs f = Some Fut_pending then Some v else futs g)"
  by (simp add: settle_def)

lemma foldl_settle:
  assumes "v \<noteq> Fut_pending"
  shows "foldl (settle v) futs fs g = (if g \<in> set fs \<and> futs g = Some Fut_pending then Some v else futs g)"
  using assms by (induction fs arbitrary: futs) (auto simp: settle_apply)

lemma dict_set_map_of: "map_of (dict_set d k v) = (map_of d)(k \<mapsto> v)"
  by (induction d k v rule: dict_set.induct) (auto simp: fun_eq_iff)

lemma dict_set_keys: "set (map fst (dict_set d k v)) = insert k (set (map fst d))"
  by (induction d k v rule: dict_set.induct) auto

lemma dict_set_distinct: "distinct (map fst d) \<Longrightarrow> distinct (map fst (dict_set d k v))"
proof (induction d k v rule: dict_set.induct)
  case (2 k' v' d k v)
  then show ?case using dict_set_keys [of d k v] by auto
qed simp

lemma dict_set_set:
  assumes "distinct (map fst d)"
  shows "set (dict_set d k v) = {kv \<in> set d. fst kv \<noteq> k} \<union> {(k, v)}"
proof -
  have "kv \<in> set (dict_set d k v) \<longleftrightarrow> kv \<in> {kv \<in> set d. fst kv \<noteq> k} \<union> {(k, v)}" for kv
    using map_of_eq_Some_iff [OF dict_set_distinct [OF assms], of k v "fst kv" "snd kv"]
      map_of_eq_Some_iff [OF assms, of "fst kv" "snd kv"]
    by (cases kv) (auto simp: dict_set_map_of split: if_splits)
  then show ?thesis by blast
qed

lemma distinct_filter_keys: "distinct (map fst d) \<Longrightarrow> distinct (map fst (filter P d))"
  by (induction d) auto

lemma fail_pending_simps [simp]:
  "h_sessions (fail_pending r s h) = h_sessions h" "h_objects (fail_pending r s h) = h_objects h"
  "h_next (fail_pending r s h) = h_next h" "waiting (fail_pending r s h) = waiting h"
  by (simp_all add: fail_pending_def waiting_def)

lemma fail_pending_futures:
  "h_futures (fail_pending r s h) f =
     (if f \<in> snd ` set (cs_pending s) \<and> h_futures h f = Some Fut_pending
      then Some (Fut_exception (ControllerOffline r)) else h_futures h f)"
  by (simp add: fail_pending_def foldl_settle)

section \<open>The invariant\<close>

definition registry_ok :: "hub \<Rightarrow> bool" where
  "registry_ok h \<longleftrightarrow> distinct (map fst (h_sessions h)) \<and>
     (\<forall>code sid. (code, sid) \<in> set (h_sessions h) \<longrightarrow> (\<exists>s. h_objects h sid = Some s \<and> cs_code s = code))"

definition fresh_ok :: "hub \<Rightarrow> bool" where
  "fresh_ok h \<longleftrightarrow> (\<forall>n \<ge> h_next h. h_objects h n = None \<and> h_futures h n = None)"

definition pending_ok :: "hub \<Rightarrow> bool" where
  "pending_ok h \<longleftrightarrow> (\<forall>sid s. h_objects h sid = Some s \<longrightarrow> distinct (map fst (cs_pending s))) \<and>
     (\<forall>sid cid f. (sid, cid, f) \<in> waiting h \<longrightarrow> h_futures h f \<noteq> None) \<and>
     (\<forall>sid cid f sid' cid'. (sid, cid, f) \<in> waiting h \<longrightarrow> (sid', cid', f) \<in> waiting h \<longrightarrow> sid = sid' \<and> cid = cid')"

definition live_ok :: "hub \<Rightarrow> bool" where
  "live_ok h \<longleftrightarrow> (\<forall>sid cid f. (sid, cid, f) \<in> waiting h \<longrightarrow> h_futures h f = Some Fut_pending \<longrightarrow>
     sid \<in> snd ` set (h_sessions h))"

definition keyed_ok :: "hub \<Rightarrow> bool" where
  "keyed_ok h \<longleftrightarrow> (\<forall>sid cid f m. (sid, cid, f) \<in> waiting h \<longrightarrow> h_futures h f = Some (Fut_result m) \<longrightarrow>
     message_command_id m = cid)"

definition hub_inv :: "hub \<Rightarrow> bool" where
  "hub_inv h \<longleftrightarrow> registry_ok h \<and> fresh_ok h \<and> pending_ok h \<and> live_ok h \<and> keyed_ok h"

lemmas hub_inv_defs = hub_inv_def registry_ok_def fresh_ok_def pending_ok_def live_ok_def keyed_ok_def

text \<open>
  A step that only settles futures, or only drops requests, keeps the invariant as soon as what
  it settles is keyed by its command and no registered session loses its place.
\<close>

lemma hub_inv_settle:
  assumes inv: "hub_inv h"
    and futs: "h_futures h' = settle v (h_futures h) f"
    and rest: "h_sessions h' = h_sessions h" "h_objects h' = h_objects h" "h_next h' = h_next h"
    and v: "v \<noteq> Fut_pending" "\<And>m sid cid. v = Fut_result m \<Longrightarrow> (sid, cid, f) \<in> waiting h \<Longrightarrow> message_command_id m = cid"
  shows "hub_inv h'"
proof -
  have w: "waiting h' = waiting h" by (simp add: waiting_def rest)
  show ?thesis
    using inv unfolding hub_inv_defs w rest futs settle_apply
    by (auto simp: v split: if_splits)
qed

lemma session_at_registered:
  assumes "registry_ok h" and "(cs_code s, sid) \<in> set (h_sessions h)" and "h_objects h sid = Some t"
  shows "session_at h (cs_code s) = Some t"
  using assms by (auto simp: registry_ok_def session_at_def)

lemma hub_inv_connect:
  assumes inv: "hub_inv h" and new: "new_session s0 h = (sid, h1)"
  shows "hub_inv (register sid (s0\<lparr>cs_pending := []\<rparr>) h1)"
proof -
  let ?s = "s0\<lparr>cs_pending := []\<rparr>" and ?n = "h_next h"
  let ?h' = "register sid ?s h1"
  have sid: "sid = ?n" and h1: "h1 = h\<lparr>h_objects := (h_objects h)(?n := Some ?s), h_next := ?n + 1\<rparr>"
    using new by (auto simp: new_session_def)
  have reg: "registry_ok h" and fresh: "h_objects h ?n = None" "\<And>n. n \<ge> ?n \<Longrightarrow> h_futures h n = None"
    and live: "live_ok h" using inv by (simp_all add: hub_inv_def fresh_ok_def)
  have w: "waiting ?h' = waiting h"
    using fresh(1) by (auto simp: register_def waiting_def h1 split: option.splits if_splits)
  have objs: "h_objects ?h' = (h_objects h)(?n := Some ?s)" and nxt: "h_next ?h' = ?n + 1"
    and sess: "h_sessions ?h' = dict_set (h_sessions h) (cs_code ?s) ?n"
    by (simp_all add: register_def h1 sid Let_def split: option.split)
  have no_n: "(code, ?n) \<notin> set (h_sessions h)" for code using reg fresh(1) unfolding registry_ok_def by fastforce
  have at: "session_at h1 (cs_code ?s) = session_at h (cs_code ?s)"
    using no_n by (auto simp: session_at_def h1 split: option.split dest: map_of_SomeD)
  have h1f: "h_futures h1 = h_futures h" by (simp add: h1)
  have futs: "h_futures ?h' f = (if (\<exists>t. session_at h (cs_code ?s) = Some t \<and> f \<in> snd ` set (cs_pending t))
        \<and> h_futures h f = Some Fut_pending
      then Some (Fut_exception (ControllerOffline ''superseded'')) else h_futures h f)" for f
    using at [unfolded controller_session.simps] h1f
    by (cases "session_at h (cs_code s0)") (auto simp: register_def fail_pending_futures)
  have d: "distinct (map fst (h_sessions h))" using reg by (simp add: registry_ok_def)
  have "live_ok ?h'"
    unfolding live_ok_def w
  proof (intro allI impI)
    fix k cid f assume k: "(k, cid, f) \<in> waiting h" and pend: "h_futures ?h' f = Some Fut_pending"
    then obtain code t where code: "(code, k) \<in> set (h_sessions h)" and t: "h_objects h k = Some t"
        "(cid, f) \<in> set (cs_pending t)"
      using live by (fastforce simp: live_ok_def waiting_def futs split: if_splits)
    have "code \<noteq> cs_code ?s"
    proof
      assume "code = cs_code ?s"
      then have "session_at h (cs_code ?s) = Some t" using session_at_registered [OF reg _ t(1)] code by blast
      moreover have "f \<in> snd ` set (cs_pending t)" using t(2) by force
      ultimately have "h_futures ?h' f \<noteq> Some Fut_pending" unfolding futs by simp
      with pend show False by simp
    qed
    with code show "k \<in> snd ` set (h_sessions ?h')" by (force simp: sess dict_set_set [OF d])
  qed
  moreover have "registry_ok ?h'"
    using reg no_n by (auto simp: registry_ok_def sess objs dict_set_set dict_set_distinct)
  moreover have "fresh_ok ?h'"
    using inv fresh(2) by (simp add: hub_inv_def fresh_ok_def objs nxt futs)
  moreover have "pending_ok ?h'" using inv by (auto simp: hub_inv_def pending_ok_def w objs futs)
  moreover have "keyed_ok ?h'" using inv by (auto simp: hub_inv_def keyed_ok_def w futs split: if_splits)
  ultimately show ?thesis by (simp add: hub_inv_def)
qed

lemma hub_inv_disconnect:
  assumes inv: "hub_inv h" and s: "h_objects h sid = Some s"
  shows "hub_inv (unregister (cs_code s) sid h)"
proof -
  let ?h' = "unregister (cs_code s) sid h"
  have w: "waiting ?h' = waiting h" and objs: "h_objects ?h' = h_objects h" and nxt: "h_next ?h' = h_next h"
    using s by (simp_all add: unregister_def Let_def waiting_def)
  have futs: "h_futures ?h' f = (if f \<in> snd ` set (cs_pending s) \<and> h_futures h f = Some Fut_pending
      then Some (Fut_exception (ControllerOffline ''disconnected'')) else h_futures h f)" for f
    using s by (simp add: unregister_def Let_def fail_pending_futures)
  have sess: "h_sessions ?h' = (if map_of (h_sessions h) (cs_code s) = Some sid
      then filter (\<lambda>kv. fst kv \<noteq> cs_code s) (h_sessions h) else h_sessions h)"
    using s by (simp add: unregister_def Let_def)
  have "live_ok ?h'"
    unfolding live_ok_def w
  proof (intro allI impI)
    fix k cid f assume k: "(k, cid, f) \<in> waiting h" and pend: "h_futures ?h' f = Some Fut_pending"
    have "k \<noteq> sid"
    proof
      assume "k = sid"
      then have "f \<in> snd ` set (cs_pending s)" using k s by (force simp: waiting_def)
      then show False using pend by (simp add: futs split: if_splits)
    qed
    moreover have "h_futures h f = Some Fut_pending" using pend by (simp add: futs split: if_splits)
    then obtain code where code: "(code, k) \<in> set (h_sessions h)"
      using inv k by (force simp: hub_inv_def live_ok_def)
    ultimately have "map_of (h_sessions h) (cs_code s) = Some sid \<longrightarrow> code \<noteq> cs_code s"
      using inv code map_of_eq_Some_iff [of "h_sessions h" code] by (auto simp: hub_inv_def registry_ok_def)
    then have "(code, k) \<in> set (h_sessions ?h')" using code by (simp add: sess)
    then show "k \<in> snd ` set (h_sessions ?h')" by force
  qed
  moreover have "registry_ok ?h'"
    using inv by (simp add: hub_inv_def registry_ok_def sess objs distinct_filter_keys)
  moreover have "fresh_ok ?h'" using inv by (simp add: hub_inv_def fresh_ok_def objs nxt futs)
  moreover have "pending_ok ?h'" using inv by (simp add: hub_inv_def pending_ok_def w objs futs)
  moreover have "keyed_ok ?h'" using inv by (auto simp: hub_inv_def keyed_ok_def w futs split: if_splits)
  ultimately show ?thesis by (simp add: hub_inv_def)
qed

lemma hub_inv_send:
  assumes inv: "hub_inv h" and send: "send_begin code envelope h = Inr (sid, cid, fut, txt, h')"
  shows "hub_inv h'"
proof -
  obtain s where sid: "map_of (h_sessions h) code = Some sid" and s: "h_objects h sid = Some s"
    and fut: "fut = h_next h" and h': "h' = h\<lparr>h_objects := (h_objects h)(sid := Some (s\<lparr>cs_pending := dict_set (cs_pending s) cid fut\<rparr>)),
      h_futures := (h_futures h)(fut := Some Fut_pending), h_next := fut + 1\<rparr>"
    using send by (auto simp: send_begin_def set_pending_def bindS_Inr_iff Let_def split: option.splits)
  have d: "distinct (map fst (cs_pending s))" and fresh: "\<And>n. n \<ge> fut \<Longrightarrow> h_objects h n = None \<and> h_futures h n = None"
    using inv s fut by (simp_all add: hub_inv_def pending_ok_def fresh_ok_def)
  have w: "waiting h' = {(k, c, f) \<in> waiting h. (k, c) \<noteq> (sid, cid)} \<union> {(sid, cid, fut)}"
    using s by (auto simp: waiting_def h' dict_set_set [OF d] split: if_splits)
  have nofut: "(k, c, fut) \<notin> waiting h" for k c
    using inv fresh [of fut] by (force simp: hub_inv_def pending_ok_def)
  have reg: "sid \<in> snd ` set (h_sessions h)" using map_of_SomeD [OF sid] by force
  have "registry_ok h'" using inv s by (fastforce simp: hub_inv_def registry_ok_def h')
  moreover have "fresh_ok h'" using fresh s by (auto simp: fresh_ok_def h')
  moreover have "pending_ok h'"
    using inv nofut d by (auto simp: hub_inv_def pending_ok_def w) (auto simp: h' dict_set_distinct split: if_splits)
  moreover have "live_ok h'"
    unfolding live_ok_def
  proof (intro allI impI)
    fix k c f assume k: "(k, c, f) \<in> waiting h'" and pend: "h_futures h' f = Some Fut_pending"
    show "k \<in> snd ` set (h_sessions h')"
    proof (cases "f = fut")
      case True
      then show ?thesis using k nofut reg by (simp add: w) (auto simp: h')
    next
      case False
      then have "(k, c, f) \<in> waiting h" "h_futures h f = Some Fut_pending"
        using k pend by (simp add: w, simp add: h')
      then show ?thesis using inv by (simp add: hub_inv_def live_ok_def h')
    qed
  qed
  moreover have "keyed_ok h'" using inv nofut by (auto simp: hub_inv_def keyed_ok_def w) (auto simp: h' split: if_splits)
  ultimately show ?thesis by (simp add: hub_inv_def)
qed

lemma pop_pending_simps [simp]:
  "h_sessions (pop_pending sid cid h) = h_sessions h" "h_futures (pop_pending sid cid h) = h_futures h"
  "h_next (pop_pending sid cid h) = h_next h"
  by (simp_all add: pop_pending_def set_pending_def split: option.split)

lemma hub_inv_pop:
  assumes inv: "hub_inv h"
  shows "hub_inv (pop_pending sid cid h)"
proof (cases "h_objects h sid")
  case None
  then show ?thesis using inv by (simp add: pop_pending_def)
next
  case (Some s)
  let ?h' = "pop_pending sid cid h"
  have objs: "h_objects ?h' = (h_objects h)(sid := Some (s\<lparr>cs_pending := filter (\<lambda>kv. fst kv \<noteq> cid) (cs_pending s)\<rparr>))"
    using Some by (simp add: pop_pending_def set_pending_def)
  have w: "waiting ?h' \<subseteq> waiting h" using Some by (auto simp: waiting_def objs split: if_splits)
  have "registry_ok ?h'" using inv Some by (fastforce simp: hub_inv_def registry_ok_def objs)
  moreover have "fresh_ok ?h'" using inv Some by (auto simp: hub_inv_def fresh_ok_def objs)
  moreover have "pending_ok ?h'"
    using inv Some w unfolding hub_inv_def pending_ok_def by (simp add: objs distinct_filter_keys) blast
  moreover have "live_ok ?h'" "keyed_ok ?h'"
    using inv w unfolding hub_inv_def live_ok_def keyed_ok_def by (simp_all, blast+)
  ultimately show ?thesis by (simp add: hub_inv_def)
qed

lemma hub_inv_pong:
  assumes inv: "hub_inv h"
  shows "hub_inv (set_last_pong sid t h)"
proof (cases "h_objects h sid")
  case None
  then show ?thesis using inv by (simp add: set_last_pong_def)
next
  case (Some s)
  let ?h' = "set_last_pong sid t h"
  have w: "waiting ?h' = waiting h" using Some by (auto simp: set_last_pong_def waiting_def split: if_splits)
  have "registry_ok ?h'" using inv Some by (fastforce simp: hub_inv_def registry_ok_def set_last_pong_def)
  moreover have "fresh_ok ?h'" using inv Some by (auto simp: hub_inv_def fresh_ok_def set_last_pong_def)
  moreover have "pending_ok ?h'" "live_ok ?h'" "keyed_ok ?h'"
    using inv Some by (simp_all add: hub_inv_def pending_ok_def live_ok_def keyed_ok_def w) (simp_all add: set_last_pong_def)
  ultimately show ?thesis by (simp add: hub_inv_def)
qed

lemma hub_inv_resolve:
  assumes inv: "hub_inv h"
  shows "hub_inv (resolve sid message h)"
proof (cases "\<exists>s fut. h_objects h sid = Some s \<and> map_of (cs_pending s) (message_command_id message) = Some fut")
  case True
  then obtain s fut where s: "h_objects h sid = Some s" "map_of (cs_pending s) (message_command_id message) = Some fut"
    by blast
  then have w: "(sid, message_command_id message, fut) \<in> waiting h" by (auto simp: waiting_def dest: map_of_SomeD)
  show ?thesis
    by (rule hub_inv_settle [OF inv, where v = "Fut_result message" and f = fut])
      (use s w inv in \<open>auto simp: resolve_def hub_inv_def pending_ok_def\<close>)
next
  case False
  then show ?thesis using inv by (auto simp: resolve_def split: option.split)
qed

lemma hub_inv_finish: "hub_inv h \<Longrightarrow> hub_inv (snd (send_finish sid cid f h))"
  using hub_inv_settle [of h "h\<lparr>h_futures := settle Fut_cancelled (h_futures h) f\<rparr>" Fut_cancelled f]
  by (simp add: send_finish_def hub_inv_pop split: option.split fut_state.split)

lemma hub_inv_step: "hub_step h h' \<Longrightarrow> hub_inv h \<Longrightarrow> hub_inv h'"
  by (erule hub_stepE)
    (simp_all add: hub_inv_connect hub_inv_disconnect hub_inv_send hub_inv_resolve hub_inv_finish
      hub_inv_pop hub_inv_pong send_abort_def)

interpretation hub_step: step_invariant hub_step hub_inv
  by unfold_locales (rule hub_inv_step)

lemma hub_inv_empty: "hub_inv empty_hub"
  by (simp add: hub_inv_defs empty_hub_def waiting_def)

lemma hub_inv_reachable: "hub_reachable h \<Longrightarrow> hub_inv h"
  using hub_step.star_keeps [OF _ hub_inv_empty] by (simp add: hub_reachable_def)

text \<open>A future that is done stays as it is, and keeps its number below the next free one.\<close>

definition settled_as :: "nat \<Rightarrow> fut_state \<Rightarrow> hub \<Rightarrow> bool" where
  "settled_as f v h \<longleftrightarrow> f < h_next h \<and> h_futures h f = Some v \<and> v \<noteq> Fut_pending"

lemma settled_as_pop [simp]: "settled_as f v (pop_pending sid cid h) = settled_as f v h"
  by (simp add: settled_as_def)

lemma settled_as_step: "hub_step h h' \<Longrightarrow> settled_as f v h \<Longrightarrow> settled_as f v h'"
proof (erule hub_stepE)
  fix s sid h1 assume "settled_as f v h" "h' = register sid (s\<lparr>cs_pending := []\<rparr>) h1" "new_session s h = (sid, h1)"
  then show "settled_as f v h'"
    by (auto simp: settled_as_def register_def new_session_def fail_pending_futures Let_def split: option.split)
next
  fix sid s assume "settled_as f v h" "h' = unregister (cs_code s) sid h" "h_objects h sid = Some s"
  then show "settled_as f v h'" by (simp add: settled_as_def unregister_def fail_pending_futures Let_def)
next
  fix code envelope sid cid g line assume "settled_as f v h" "send_begin code envelope h = Inr (sid, cid, g, line, h')"
  then show "settled_as f v h'"
    by (auto simp: settled_as_def send_begin_def set_pending_def bindS_Inr_iff Let_def split: option.splits)
qed (auto simp: settled_as_def resolve_def send_finish_def send_abort_def set_last_pong_def settle_apply
    split: option.split fut_state.split)

interpretation settled: step_invariant hub_step "settled_as f v" for f v
  by unfold_locales (rule settled_as_step)

section \<open>Properties\<close>

lemma waiting_registered:
  assumes inv: "hub_inv h" and w: "(sid, cid, f) \<in> waiting h" "h_futures h f = Some Fut_pending"
    and s: "h_objects h sid = Some s"
  shows "map_of (h_sessions h) (cs_code s) = Some sid"
proof -
  obtain code where code: "(code, sid) \<in> set (h_sessions h)"
    using inv w unfolding hub_inv_def live_ok_def by fastforce
  then have "cs_code s = code" using inv s by (fastforce simp: hub_inv_def registry_ok_def)
  then show ?thesis using inv code by (simp add: hub_inv_def registry_ok_def)
qed

text \<open>A run of the hub for the concrete inputs: a controller connects and one command is sent.\<close>

definition sample_session :: controller_session where
  "sample_session = \<lparr>cs_controller_id = ''c'', cs_code = ''ctrl-1'', cs_connected_at = 0, cs_last_pong_at = 0,
     cs_remote_ip = None, cs_firmware = JNull, cs_pending = []\<rparr>"

definition sample_envelope :: "(string \<times> json) list" where
  "sample_envelope = [(''payload'', JObj [(''command_id'', JStr ''k1'')])]"

definition online_hub :: hub where
  "online_hub = register 0 sample_session (snd (new_session sample_session empty_hub))"

definition busy_hub :: hub where
  "busy_hub = (case send_begin ''ctrl-1'' sample_envelope online_hub of
     Inr (sid, cid, f, line, h) \<Rightarrow> h | Inl e \<Rightarrow> online_hub)"

definition acked_hub :: hub where
  "acked_hub = resolve 0 [(''command_id'', JStr ''k1''), (''result'', JStr ''opened'')] busy_hub"

lemma sample_session_pending [simp]: "sample_session\<lparr>cs_pending := []\<rparr> = sample_session" "cs_code sample_session = ''ctrl-1''"
    "cs_pending sample_session = []"
  by (simp_all add: sample_session_def)

lemma online_hub_reachable: "hub_reachable online_hub"
proof -
  have "hub_step empty_hub (register 0 (sample_session\<lparr>cs_pending := []\<rparr>) (snd (new_session sample_session empty_hub)))"
    by (rule hub_step.connect [of sample_session]) (simp add: new_session_def empty_hub_def)
  then show ?thesis unfolding hub_reachable_def online_hub_def by simp
qed

lemma online_hub_eq: "online_hub = \<lparr>h_sessions = [(''ctrl-1'', 0)],
    h_objects = (\<lambda>_. None)(0 := Some sample_session), h_futures = (\<lambda>_. None), h_next = 1\<rparr>"
  by (simp add: online_hub_def register_def session_at_def new_session_def empty_hub_def)

lemma send_online: "send_begin ''ctrl-1'' sample_envelope online_hub =
    Inr (0, ''k1'', 1, dumps False True (JObj sample_envelope), \<lparr>h_sessions = [(''ctrl-1'', 0)],
      h_objects = (\<lambda>_. None)(0 := Some (sample_session\<lparr>cs_pending := [(''k1'', 1)]\<rparr>)),
      h_futures = (\<lambda>_. None)(1 := Some Fut_pending), h_next = 2\<rparr>)"
  by (simp add: send_begin_def online_hub_eq envelope_command_id_def sample_envelope_def obj_get_def
      set_pending_def Let_def)

lemma busy_hub_eq: "busy_hub = \<lparr>h_sessions = [(''ctrl-1'', 0)],
    h_objects = (\<lambda>_. None)(0 := Some (sample_session\<lparr>cs_pending := [(''k1'', 1)]\<rparr>)),
    h_futures = (\<lambda>_. None)(1 := Some Fut_pending), h_next = 2\<rparr>"
  by (simp add: busy_hub_def send_online)

lemma busy_hub_reachable: "hub_reachable busy_hub"
  using online_hub_reachable hub_step.send [OF send_online]
  unfolding hub_reachable_def busy_hub_eq by (rule rtranclp.rtrancl_into_rtrancl)

lemma acked_hub_reachable: "hub_reachable acked_hub"
  using busy_hub_reachable hub_step.ack
  unfolding hub_reachable_def acked_hub_def by (rule rtranclp.rtrancl_into_rtrancl)

text \<open>
  In every interleaving of connections, disconnections, commands, acknowledgements and
  timeouts, a request that is still waiting was sent through the session that is registered now
  for its controller: no request waits on a connection that was replaced or has gone.
\<close>

theorem hub_waits_on_registered:
  assumes "hub_reachable h" and "(sid, cid, f) \<in> waiting h" and "h_futures h f = Some Fut_pending"
    and "h_objects h sid = Some s"
  shows "hub_get h (cs_code s) = Some sid"
  using waiting_registered [OF hub_inv_reachable [OF assms(1)] assms(2-4)] by (simp add: hub_get_def)

theorem hub_waits_on_registered_witness: "hub_get busy_hub ''ctrl-1'' = Some 0"
  using hub_waits_on_registered [OF busy_hub_reachable, of 0 "''k1''" 1 "sample_session\<lparr>cs_pending := [(''k1'', 1)]\<rparr>"]
  by (simp add: waiting_def busy_hub_eq)

text \<open>
  The acknowledgement a request returns names the command that request sent, whatever
  else arrived on the socket, and the request leaves nothing waiting under its command.
\<close>

theorem hub_ack_matches:
  assumes "hub_reachable h" and "(sid, cid, f) \<in> waiting h" and "send_finish sid cid f h = (Inr m, h')"
  shows "message_command_id m = cid \<and> (\<forall>g. (sid, cid, g) \<notin> waiting h')"
proof
  have m: "h_futures h f = Some (Fut_result m)" and h': "h' = pop_pending sid cid h"
    using assms(3) by (auto simp: send_finish_def split: option.splits fut_state.splits)
  show "message_command_id m = cid"
    using hub_inv_reachable [OF assms(1)] assms(2) m by (auto simp: hub_inv_def keyed_ok_def)
  show "\<forall>g. (sid, cid, g) \<notin> waiting h'"
    unfolding h' by (auto simp: waiting_def pop_pending_def set_pending_def split: option.splits)
qed

theorem hub_ack_matches_witness:
  "fst (send_finish 0 ''k1'' 1 acked_hub) = Inr [(''command_id'', JStr ''k1''), (''result'', JStr ''opened'')] \<and>
   message_command_id [(''command_id'', JStr ''k1''), (''result'', JStr ''opened'')] = ''k1''"
proof -
  have w: "(0, ''k1'', 1) \<in> waiting acked_hub"
    by (simp add: waiting_def acked_hub_def resolve_def busy_hub_eq message_command_id_def obj_get_def py_str_def)
  have f: "send_finish 0 ''k1'' 1 acked_hub = (Inr [(''command_id'', JStr ''k1''), (''result'', JStr ''opened'')],
      pop_pending 0 ''k1'' acked_hub)"
    by (simp add: send_finish_def acked_hub_def resolve_def busy_hub_eq message_command_id_def obj_get_def
        py_str_def settle_def)
  show ?thesis using hub_ack_matches [OF acked_hub_reachable w f] f by simp
qed

text \<open>
  A future is completed at most once: from the moment it holds a result, an exception
  or a cancellation, no later event changes what the waiting request will see.
\<close>

theorem hub_future_settles_once:
  assumes "hub_reachable h" and "rtranclp hub_step h h'" and "h_futures h f = Some v" and "v \<noteq> Fut_pending"
  shows "h_futures h' f = Some v"
proof -
  have "settled_as f v h"
    using hub_inv_reachable [OF assms(1)] assms(3,4)
    by (auto simp: settled_as_def hub_inv_def fresh_ok_def intro: ccontr)
  then show ?thesis using settled.star_keeps [OF assms(2)] by (simp add: settled_as_def)
qed

theorem hub_future_settles_once_witness:
  "h_futures (resolve 0 [(''command_id'', JStr ''k1''), (''result'', JStr ''refused'')] acked_hub) 1
     = Some (Fut_result [(''command_id'', JStr ''k1''), (''result'', JStr ''opened'')])"
proof (rule hub_future_settles_once [OF acked_hub_reachable])
  show "rtranclp hub_step acked_hub (resolve 0 [(''command_id'', JStr ''k1''), (''result'', JStr ''refused'')] acked_hub)"
    by (rule r_into_rtranclp) (rule hub_step.ack)
  show "h_futures acked_hub 1 = Some (Fut_result [(''command_id'', JStr ''k1''), (''result'', JStr ''opened'')])"
    by (simp add: acked_hub_def resolve_def busy_hub_eq message_command_id_def obj_get_def py_str_def settle_def)
qed simp

text \<open>
  When a second connection registers for a controller, it becomes the one registered
  and every request still waiting on the earlier session ends with ControllerOffline.
\<close>

theorem hub_register_supersedes:
  assumes "hub_reachable h" and "new_session s h = (sid, h1)"
    and "(old, cid, f) \<in> waiting h" and "h_objects h old = Some t" and "cs_code t = cs_code s"
    and "h_futures h f = Some Fut_pending"
  shows "hub_get (register sid s h1) (cs_code s) = Some sid
    \<and> h_futures (register sid s h1) f = Some (Fut_exception (ControllerOffline ''superseded''))"
proof -
  note inv = hub_inv_reachable [OF assms(1)]
  have reg: "map_of (h_sessions h) (cs_code s) = Some old"
    using waiting_registered [OF inv assms(3,6,4)] assms(5) by simp
  have "old \<noteq> sid" using inv assms(2,4) by (auto simp: new_session_def hub_inv_def fresh_ok_def)
  then have "session_at h1 (cs_code s) = Some t" and futs: "h_futures h1 = h_futures h"
    using reg assms(2,4) by (auto simp: session_at_def new_session_def)
  moreover have "f \<in> snd ` set (cs_pending t)" using assms(3,4) by (force simp: waiting_def)
  ultimately show ?thesis
    using assms(6) by (simp add: register_def hub_get_def fail_pending_futures dict_set_map_of)
qed

theorem hub_register_supersedes_witness:
  "h_futures (register 2 sample_session (snd (new_session sample_session busy_hub))) 1
     = Some (Fut_exception (ControllerOffline ''superseded''))"
proof -
  have "new_session sample_session busy_hub = (2, snd (new_session sample_session busy_hub))"
    by (simp add: new_session_def busy_hub_eq)
  then show ?thesis
    using hub_register_supersedes [OF busy_hub_reachable, of sample_session 2 _ 0 "''k1''" 1
        "sample_session\<lparr>cs_pending := [(''k1'', 1)]\<rparr>"]
    by (simp add: waiting_def busy_hub_eq)
qed

text \<open>
  A message on one controller's socket cannot complete a command that was sent through
  another session, whatever command identifier it carries.
\<close>

theorem hub_resolve_isolated:
  assumes "hub_reachable h" and "(other, cid, f) \<in> waiting h" and "other \<noteq> sid"
  shows "h_futures (resolve sid message h) f = h_futures h f"
  using hub_inv_reachable [OF assms(1)] assms(2,3)
  by (auto simp: resolve_def settle_apply hub_inv_def pending_ok_def waiting_def
      split: option.split dest!: map_of_SomeD)

theorem hub_resolve_isolated_witness:
  "h_futures (resolve 7 [(''command_id'', JStr ''k1'')] busy_hub) 1 = h_futures busy_hub 1"
  by (rule hub_resolve_isolated [OF busy_hub_reachable, of 0 "''k1''"]) (simp_all add: waiting_def busy_hub_eq)

end
