(* ===== verification/Audit_Chain.thy ===== *)
theory Audit_Chain
  imports Text_Codec Json Errors
begin

text \<open>
  The hash chain of the audit table, \<^verbatim>\<open>backend/db/migrations/005_audit_chain.sql\<close>, which
  \<^verbatim>\<open>backend/app/db/repositories/audit.py\<close> writes and reads: the row, the bytes that are hashed, the
  BEFORE INSERT trigger, the verifier and the head. SHA-256 is the parameter \<open>sha\<close>; how PostgreSQL
  renders a timestamp, an address and a jsonb value as text is the parameter \<open>pg_text\<close>.
\<close>

record audit_row =
  a_seq :: int
  a_occurred_at :: instant
  a_event_type :: string
  a_outcome :: string
  a_actor_type :: string
  a_actor_id :: "uuid option"
  a_device_id :: "uuid option"
  a_door_id :: "uuid option"
  a_controller_id :: "uuid option"
  a_client_ip :: "string option"
  a_detail :: json
  a_prev_hash :: bytes
  a_row_hash :: bytes

record pg_text =
  ts_text :: "instant \<Rightarrow> string"
  inet_host :: "string \<Rightarrow> string"
  jsonb_text :: "json \<Rightarrow> string"

section \<open>Trigger and verifier\<close>

definition audit_genesis_hash :: bytes where
  "audit_genesis_hash = replicate 32 0"

definition or_empty :: "string option \<Rightarrow> string" where
  "or_empty v = (case v of None \<Rightarrow> [] | Some s \<Rightarrow> s)"

definition audit_fields :: "pg_text \<Rightarrow> audit_row \<Rightarrow> string list" where
  "audit_fields pg r =
     [py_str_int (a_seq r), ts_text pg (a_occurred_at r), a_event_type r, a_outcome r, a_actor_type r,
      or_empty (a_actor_id r), or_empty (a_device_id r), or_empty (a_door_id r), or_empty (a_controller_id r),
      or_empty (map_option (inet_host pg) (a_client_ip r)), jsonb_text pg (a_detail r)]"

definition audit_payload :: "pg_text \<Rightarrow> audit_row \<Rightarrow> bytes" where
  "audit_payload pg r = utf8 (py_join [CHR 0x1F] (audit_fields pg r))"

text \<open>\<^verbatim>\<open>ORDER BY seq DESC LIMIT 1\<close>.\<close>

fun newest :: "audit_row list \<Rightarrow> audit_row option" where
  "newest [] = None"
| "newest (r # rs) =
     (case newest rs of None \<Rightarrow> Some r | Some m \<Rightarrow> if a_seq m < a_seq r then Some r else Some m)"

definition head_hash :: "audit_row list \<Rightarrow> bytes" where
  "head_hash rows = (case newest rows of None \<Rightarrow> audit_genesis_hash | Some r \<Rightarrow> a_row_hash r)"

definition audit_hash_chain ::
  "(bytes \<Rightarrow> bytes) \<Rightarrow> pg_text \<Rightarrow> audit_row list \<Rightarrow> audit_row \<Rightarrow> audit_row"
where
  "audit_hash_chain sha pg rows new =
     (let v_prev = head_hash rows
      in new\<lparr>a_prev_hash := v_prev, a_row_hash := sha (audit_payload pg new @ v_prev)\<rparr>)"

record chain_status =
  chain_ok :: bool
  rows_checked :: int
  first_bad_seq :: "int option"
  first_bad_reason :: "string option"

definition reason_prev :: string where
  "reason_prev = ''prev_hash does not match the preceding row: a row was removed, reordered, or inserted out of band''"

definition reason_row :: string where
  "reason_row = ''row_hash does not match the row contents: this row was modified after it was written''"

fun walk_chain :: "(bytes \<Rightarrow> bytes) \<Rightarrow> pg_text \<Rightarrow> bytes \<Rightarrow> int \<Rightarrow> audit_row list \<Rightarrow> chain_status" where
  "walk_chain sha pg v_prev n [] =
     \<lparr>chain_ok = True, rows_checked = n, first_bad_seq = None, first_bad_reason = None\<rparr>"
| "walk_chain sha pg v_prev n (r # rs) =
     (if a_prev_hash r \<noteq> v_prev then
        \<lparr>chain_ok = False, rows_checked = n + 1, first_bad_seq = Some (a_seq r), first_bad_reason = Some reason_prev\<rparr>
      else if a_row_hash r \<noteq> sha (audit_payload pg r @ v_prev) then
        \<lparr>chain_ok = False, rows_checked = n + 1, first_bad_seq = Some (a_seq r), first_bad_reason = Some reason_row\<rparr>
      else walk_chain sha pg (a_row_hash r) (n + 1) rs)"

definition verify_audit_chain :: "(bytes \<Rightarrow> bytes) \<Rightarrow> pg_text \<Rightarrow> audit_row list \<Rightarrow> int \<Rightarrow> chain_status" where
  "verify_audit_chain sha pg rows from_seq =
     (let v_prev = (if from_seq \<le> 0 then audit_genesis_hash
                    else head_hash (filter (\<lambda>r. a_seq r < from_seq) rows))
      in walk_chain sha pg v_prev 0 (sort_key a_seq (filter (\<lambda>r. from_seq \<le> a_seq r) rows)))"

definition audit_chain_head :: "audit_row list \<Rightarrow> (int \<times> instant \<times> bytes) option" where
  "audit_chain_head rows = map_option (\<lambda>r. (a_seq r, a_occurred_at r, a_row_hash r)) (newest rows)"

section \<open>Chains\<close>

text \<open>What the verifier looks for, as a property of the rows in order.\<close>

fun linked :: "(bytes \<Rightarrow> bytes) \<Rightarrow> pg_text \<Rightarrow> bytes \<Rightarrow> audit_row list \<Rightarrow> bool" where
  "linked sha pg prev [] \<longleftrightarrow> True"
| "linked sha pg prev (r # rs) \<longleftrightarrow>
     a_prev_hash r = prev \<and> a_row_hash r = sha (audit_payload pg r @ prev) \<and> linked sha pg (a_row_hash r) rs"

definition seq_sorted :: "audit_row list \<Rightarrow> bool" where
  "seq_sorted rows \<longleftrightarrow> sorted_wrt (<) (map a_seq rows)"

text \<open>A log as the trigger leaves it when rows arrive in the order of their numbers.\<close>

definition chained :: "(bytes \<Rightarrow> bytes) \<Rightarrow> pg_text \<Rightarrow> audit_row list \<Rightarrow> bool" where
  "chained sha pg rows \<longleftrightarrow>
     seq_sorted rows \<and> (\<forall>r \<in> set rows. 0 < a_seq r) \<and> linked sha pg audit_genesis_hash rows"

lemma walk_chain_ok: "chain_ok (walk_chain sha pg prev n rows) \<longleftrightarrow> linked sha pg prev rows"
  by (induction rows arbitrary: prev n) auto

lemma walk_chain_linked:
  "linked sha pg prev rows \<Longrightarrow> walk_chain sha pg prev n rows =
     \<lparr>chain_ok = True, rows_checked = n + int (length rows), first_bad_seq = None, first_bad_reason = None\<rparr>"
  by (induction rows arbitrary: prev n) auto

lemma sort_sorted_seq: "seq_sorted rows \<Longrightarrow> sort_key a_seq rows = rows"
  by (simp add: seq_sorted_def strict_sorted_imp_sorted sort_key_id_if_sorted)

lemma newest_last: "seq_sorted rows \<Longrightarrow> rows \<noteq> [] \<Longrightarrow> newest rows = Some (last rows)"
proof (induction rows)
  case (Cons r rs)
  show ?case
  proof (cases "rs = []")
    case False
    then have "newest rs = Some (last rs)" using Cons by (simp add: seq_sorted_def)
    moreover have "a_seq r < a_seq (last rs)"
      using Cons.prems False by (simp add: seq_sorted_def)
    ultimately show ?thesis using False by simp
  qed simp
qed simp

lemma head_hash_sorted: "seq_sorted rows \<Longrightarrow> head_hash rows = (if rows = [] then audit_genesis_hash else a_row_hash (last rows))"
  by (cases "rows = []") (simp_all add: head_hash_def newest_last)

lemma linked_append:
  "linked sha pg prev (xs @ ys) \<longleftrightarrow>
     linked sha pg prev xs \<and> linked sha pg (if xs = [] then prev else a_row_hash (last xs)) ys"
  by (induction xs arbitrary: prev) auto

lemma seq_sorted_append:
  "seq_sorted (xs @ ys) \<longleftrightarrow> seq_sorted xs \<and> seq_sorted ys \<and> (\<forall>x \<in> set xs. \<forall>y \<in> set ys. a_seq x < a_seq y)"
  by (simp add: seq_sorted_def sorted_wrt_append)

lemma seq_sorted_Cons:
  "seq_sorted (x # xs) \<longleftrightarrow> (\<forall>y \<in> set xs. a_seq x < a_seq y) \<and> seq_sorted xs"
  by (auto simp: seq_sorted_def)

lemma chained_verifies:
  assumes "chained sha pg rows"
  shows "verify_audit_chain sha pg rows 0 =
    \<lparr>chain_ok = True, rows_checked = int (length rows), first_bad_seq = None, first_bad_reason = None\<rparr>"
proof -
  have "filter (\<lambda>r. 0 \<le> a_seq r) rows = rows"
    using assms by (force simp: chained_def filter_id_conv)
  then show ?thesis
    using assms walk_chain_linked [of sha pg audit_genesis_hash rows 0]
    by (simp add: verify_audit_chain_def chained_def sort_sorted_seq)
qed

lemma chained_snoc:
  assumes "chained sha pg rows" and "\<forall>r \<in> set rows. a_seq r < a_seq new" and "0 < a_seq new"
  shows "chained sha pg (rows @ [audit_hash_chain sha pg rows new])"
  using assms
  by (auto simp: chained_def linked_append seq_sorted_append audit_hash_chain_def Let_def head_hash_sorted
      seq_sorted_def sorted_wrt_append audit_payload_def audit_fields_def)

lemma chained_prefix: "chained sha pg (rows @ rest) \<Longrightarrow> chained sha pg rows"
  by (simp add: chained_def linked_append seq_sorted_append)

section \<open>The rendered row is determined by its bytes\<close>

lemma split_at_separator:
  assumes "u \<notin> set a" and "u \<notin> set b" and "a @ u # x = b @ u # y"
  shows "a = b \<and> x = y"
  using assms by (induction a arbitrary: b) (case_tac b; auto)+

lemma split_at_last_separator:
  assumes "u \<notin> set x" and "u \<notin> set y" and "a @ u # x = b @ u # y"
  shows "a = b \<and> x = y"
proof -
  have "rev x @ u # rev a = rev y @ u # rev b" using arg_cong [OF assms(3), of rev] by simp
  then show ?thesis using split_at_separator [of u "rev x" "rev y"] assms by auto
qed

lemma split_fields:
  assumes "length ws = length vs" and "\<forall>w \<in> set ws. u \<notin> set w" and "\<forall>v \<in> set vs. u \<notin> set v"
    and "a @ concat (map (Cons u) ws) = b @ concat (map (Cons u) vs)"
  shows "a = b \<and> ws = vs"
  using assms
proof (induction ws arbitrary: vs rule: rev_induct)
  case (snoc w ws)
  then obtain v vs' where vs: "vs = vs' @ [v]" by (metis append_is_Nil_conv length_0_conv rev_exhaust snoc_eq_iff_butlast)
  have "(a @ concat (map (Cons u) ws)) @ u # w = (b @ concat (map (Cons u) vs')) @ u # v"
    using snoc.prems(4) by (simp add: vs)
  then have "a @ concat (map (Cons u) ws) = b @ concat (map (Cons u) vs') \<and> w = v"
    by (rule split_at_last_separator [rotated 2]) (use snoc.prems in \<open>simp_all add: vs\<close>)
  then show ?case using snoc by (simp add: vs)
qed simp

lemma py_join_concat: "py_join [u] (w # ws) = w @ concat (map (Cons u) ws)"
  by (induction ws arbitrary: w) simp_all

text \<open>
  Every column but the event type is free of the separator: numbers, timestamps, enumeration
  labels, UUIDs, addresses and jsonb text (which escapes control characters).
\<close>

definition separable :: "pg_text \<Rightarrow> audit_row \<Rightarrow> bool" where
  "separable pg r \<longleftrightarrow> (\<forall>w \<in> set (take 2 (audit_fields pg r) @ drop 3 (audit_fields pg r)). CHR 0x1F \<notin> set w)"

lemma audit_payload_fields:
  assumes "audit_payload pg r = audit_payload pg q" and "separable pg r" and "separable pg q"
  shows "audit_fields pg r = audit_fields pg q"
proof -
  define u :: char where "u = CHR 0x1F"
  obtain s t e ws where r: "audit_fields pg r = s # t # e # ws" "length ws = 8" by (simp add: audit_fields_def)
  obtain s' t' e' ws' where q: "audit_fields pg q = s' # t' # e' # ws'" "length ws' = 8" by (simp add: audit_fields_def)
  have clean: "u \<notin> set s" "u \<notin> set t" "\<forall>w \<in> set ws. u \<notin> set w"
      "u \<notin> set s'" "u \<notin> set t'" "\<forall>w \<in> set ws'. u \<notin> set w"
    using assms(2,3) by (simp_all add: separable_def r q u_def)
  have "s @ u # t @ u # e @ concat (map (Cons u) ws) = s' @ u # t' @ u # e' @ concat (map (Cons u) ws')"
    using assms(1) unfolding audit_payload_def utf8_inj r q py_join_concat u_def by simp
  then have "s = s' \<and> t @ u # e @ concat (map (Cons u) ws) = t' @ u # e' @ concat (map (Cons u) ws')"
    using split_at_separator clean by metis
  moreover from this have "t = t' \<and> e @ concat (map (Cons u) ws) = e' @ concat (map (Cons u) ws')"
    using split_at_separator clean by metis
  moreover from this have "e = e' \<and> ws = ws'" using split_fields [of ws ws' u e e'] clean r(2) q(2) by simp
  ultimately show ?thesis by (simp add: r q)
qed

lemma payloads_fields:
  assumes "map (audit_payload pg) xs = map (audit_payload pg) ys" and "\<forall>r \<in> set xs \<union> set ys. separable pg r"
  shows "map (audit_fields pg) xs = map (audit_fields pg) ys"
proof -
  have "length xs = length ys" using assms(1) by (rule map_eq_imp_length_eq)
  then show ?thesis
    using assms
  proof (induction xs ys rule: list_induct2)
    case (Cons x xs y ys)
    then have "audit_fields pg x = audit_fields pg y" by (intro audit_payload_fields) simp_all
    with Cons show ?case by simp
  qed simp
qed

section \<open>Tampering\<close>

text \<open>The byte strings that were hashed for a log, and a collision between two logs.\<close>

definition hash_inputs :: "pg_text \<Rightarrow> audit_row list \<Rightarrow> bytes set" where
  "hash_inputs pg rows = (\<lambda>r. audit_payload pg r @ a_prev_hash r) ` set rows"

definition collision :: "(bytes \<Rightarrow> bytes) \<Rightarrow> bytes set \<Rightarrow> bytes set \<Rightarrow> bool" where
  "collision sha A B \<longleftrightarrow> (\<exists>x \<in> A. \<exists>y \<in> B. x \<noteq> y \<and> sha x = sha y)"

definition chain_end :: "bytes \<Rightarrow> audit_row list \<Rightarrow> bytes" where
  "chain_end prev rows = (if rows = [] then prev else a_row_hash (last rows))"

lemma linked_prev_length:
  assumes "linked sha pg prev rows" and "\<And>x. length (sha x) = 32" and "length prev = 32" and "r \<in> set rows"
  shows "length (a_prev_hash r) = 32"
  using assms(1,3,4) by (induction rows arbitrary: prev) (auto simp: assms(2))

lemma same_end_same_log:
  assumes "\<And>x. length (sha x) = 32"
    and "linked sha pg audit_genesis_hash xs" and "linked sha pg audit_genesis_hash ys"
    and "chain_end audit_genesis_hash xs = chain_end audit_genesis_hash ys"
    and "\<forall>r \<in> set xs \<union> set ys. a_row_hash r \<noteq> audit_genesis_hash"
    and "\<not> collision sha (hash_inputs pg xs) (hash_inputs pg ys)"
  shows "map (audit_payload pg) xs = map (audit_payload pg) ys"
  using assms(2-)
proof (induction xs arbitrary: ys rule: rev_induct)
  case Nil
  then show ?case by (cases ys rule: rev_cases) (auto simp: chain_end_def)
next
  case (snoc r xs)
  note prems = snoc.prems
  obtain q ys' where ys: "ys = ys' @ [q]"
    using prems(3,4) by (cases ys rule: rev_cases) (auto simp: chain_end_def)
  have links: "linked sha pg audit_genesis_hash xs" "a_prev_hash r = chain_end audit_genesis_hash xs"
      "linked sha pg audit_genesis_hash ys'" "a_prev_hash q = chain_end audit_genesis_hash ys'"
      "sha (audit_payload pg r @ a_prev_hash r) = sha (audit_payload pg q @ a_prev_hash q)"
    using prems(1-3) by (auto simp: ys linked_append chain_end_def)
  have "audit_payload pg r @ a_prev_hash r = audit_payload pg q @ a_prev_hash q"
    using prems(5) links(5) by (auto simp: collision_def hash_inputs_def ys)
  moreover have "length (a_prev_hash r) = length (a_prev_hash q)"
    using linked_prev_length [OF prems(1) assms(1)] linked_prev_length [OF prems(2) assms(1)]
    by (simp add: ys audit_genesis_hash_def)
  ultimately have eq: "audit_payload pg r = audit_payload pg q" "a_prev_hash r = a_prev_hash q" by simp_all
  have "map (audit_payload pg) xs = map (audit_payload pg) ys'"
    by (rule snoc.IH) (use prems links eq in \<open>auto simp: ys collision_def hash_inputs_def\<close>)
  then show ?case by (simp add: ys eq)
qed

lemma verify_sorted:
  assumes "seq_sorted rows" and "\<forall>r \<in> set rows. 0 < a_seq r"
  shows "chain_ok (verify_audit_chain sha pg rows 0) \<longleftrightarrow> chained sha pg rows"
proof -
  have "filter (\<lambda>r. 0 \<le> a_seq r) rows = rows" using assms(2) by (force simp: filter_id_conv)
  then show ?thesis using assms by (simp add: verify_audit_chain_def walk_chain_ok sort_sorted_seq chained_def)
qed

lemma walk_chain_append:
  "linked sha pg prev xs \<Longrightarrow> walk_chain sha pg prev n (xs @ ys) =
     walk_chain sha pg (chain_end prev xs) (n + int (length xs)) ys"
  by (induction xs arbitrary: prev n) (auto simp: chain_end_def add.assoc)

lemma chain_end_head:
  assumes "seq_sorted rows"
  shows "chain_end audit_genesis_hash rows = head_hash rows"
  using assms by (simp add: chain_end_def head_hash_sorted)

text \<open>Two rows for the concrete inputs, hashed with a 32-byte stand-in for SHA-256.\<close>

definition sample_pg :: pg_text where
  "sample_pg = \<lparr>ts_text = py_str_int, inet_host = id, jsonb_text = dumps False True\<rparr>"

definition sample_row :: "int \<Rightarrow> string \<Rightarrow> audit_row" where
  "sample_row n event = \<lparr>a_seq = n, a_occurred_at = n, a_event_type = event, a_outcome = ''success'',
     a_actor_type = ''system'', a_actor_id = None, a_device_id = None, a_door_id = None, a_controller_id = None,
     a_client_ip = None, a_detail = JObj [], a_prev_hash = [], a_row_hash = []\<rparr>"

definition sample_log :: "audit_row list" where
  "sample_log = (let r = audit_hash_chain sample_hash sample_pg [] (sample_row 1 ''a'')
     in [r, audit_hash_chain sample_hash sample_pg [r] (sample_row 3 ''b'')])"

lemma sample_log_chained: "chained sample_hash sample_pg sample_log"
  by code_simp

lemma sample_log_hashes:
  "separable sample_pg (sample_log ! 0)" "separable sample_pg (sample_log ! 1)"
  "a_row_hash (sample_log ! 0) \<noteq> audit_genesis_hash" "a_row_hash (sample_log ! 1) \<noteq> audit_genesis_hash"
  "a_row_hash (sample_log ! 0) \<noteq> a_row_hash (sample_log ! 1)"
  by code_simp+

lemma sample_log_set: "set sample_log = {sample_log ! 0, sample_log ! 1}" "length sample_log = 2"
  by (simp_all add: sample_log_def Let_def)

text \<open>
  Claim C28. A log that the verifier accepts and whose head is the anchored head of the log as it
  was written records the same entries, column by column and in the same order; otherwise two
  different byte strings that were actually hashed collide under SHA-256, or one of them hashes
  to the all-zero genesis value.
\<close>

theorem tampering_is_evident:
  assumes "\<And>x. length (sha x) = 32"
    and "chained sha pg written"
    and "seq_sorted found" and "\<forall>r \<in> set found. 0 < a_seq r" and "chain_ok (verify_audit_chain sha pg found 0)"
    and "audit_chain_head found = audit_chain_head written"
    and "\<forall>r \<in> set written \<union> set found. separable pg r"
    and "\<not> collision sha (hash_inputs pg found) (hash_inputs pg written)"
    and "\<forall>r \<in> set found \<union> set written. a_row_hash r \<noteq> audit_genesis_hash"
  shows "map (audit_fields pg) found = map (audit_fields pg) written"
proof -
  have f: "chained sha pg found" using assms(3-5) by (simp add: verify_sorted)
  have "head_hash found = head_hash written"
    using assms(6) by (auto simp: audit_chain_head_def head_hash_def split: option.splits)
  then have "chain_end audit_genesis_hash found = chain_end audit_genesis_hash written"
    using f assms(2) by (simp add: chain_end_head chained_def)
  then have same: "map (audit_payload pg) found = map (audit_payload pg) written"
    using same_end_same_log [of sha pg found written, OF assms(1)] f assms(2,8,9) by (simp add: chained_def)
  show ?thesis by (rule payloads_fields [OF same]) (use assms(7) in auto)
qed

theorem tampering_is_evident_witness:
  "map (audit_fields sample_pg) sample_log = map (audit_fields sample_pg) sample_log"
proof (rule tampering_is_evident [of sample_hash])
  show "length (sample_hash x) = 32" for x by (rule length_sample_hash)
  show ch: "chained sample_hash sample_pg sample_log" by (rule sample_log_chained)
  then show "seq_sorted sample_log" "\<forall>r \<in> set sample_log. 0 < a_seq r" by (simp_all add: chained_def)
  show "chain_ok (verify_audit_chain sample_hash sample_pg sample_log 0)" using chained_verifies [OF ch] by simp
  show "\<forall>r \<in> set sample_log \<union> set sample_log. separable sample_pg r"
    "\<forall>r \<in> set sample_log \<union> set sample_log. a_row_hash r \<noteq> audit_genesis_hash"
    using sample_log_hashes by (simp_all add: sample_log_set)
  have "linked sample_hash sample_pg audit_genesis_hash sample_log" using ch by (simp add: chained_def)
  then show "\<not> collision sample_hash (hash_inputs sample_pg sample_log) (hash_inputs sample_pg sample_log)"
    using sample_log_hashes by (auto simp: collision_def hash_inputs_def sample_log_set) (auto simp: sample_log_def Let_def)
qed simp

text \<open>
  Removing the newest rows leaves a log the verifier still accepts, but the head
  changes: truncation is visible only to a party that kept the head.
\<close>

theorem truncation_needs_the_head:
  assumes "chained sha pg (rows @ tail)" and "tail \<noteq> []"
  shows "chain_ok (verify_audit_chain sha pg rows 0) \<and> audit_chain_head rows \<noteq> audit_chain_head (rows @ tail)"
proof
  show "chain_ok (verify_audit_chain sha pg rows 0)"
    using chained_verifies [OF chained_prefix [OF assms(1)]] by simp
  have s: "seq_sorted (rows @ tail)" "seq_sorted rows" using assms(1) by (simp_all add: chained_def seq_sorted_append)
  show "audit_chain_head rows \<noteq> audit_chain_head (rows @ tail)"
  proof (cases "rows = []")
    case False
    have "last rows \<in> set rows" "last tail \<in> set tail" using False assms(2) by simp_all
    then have "a_seq (last rows) < a_seq (last tail)" using s(1) by (simp add: seq_sorted_append)
    then show ?thesis using False assms(2) newest_last [OF s(1)] newest_last [OF s(2)] by (simp add: audit_chain_head_def)
  qed (use assms(2) newest_last [OF s(1)] in \<open>simp add: audit_chain_head_def\<close>)
qed

theorem truncation_needs_the_head_witness:
  "chain_ok (verify_audit_chain sample_hash sample_pg (take 1 sample_log) 0)
    \<and> audit_chain_head (take 1 sample_log) \<noteq> audit_chain_head (take 1 sample_log @ drop 1 sample_log)"
  by (rule truncation_needs_the_head) (use sample_log_chained sample_log_set(2) in simp_all)

text \<open>
  The number of a row is drawn before the trigger takes its lock. When a row whose
  number is lower than that of rows already stored is inserted last, which two concurrent
  requests can cause, the untouched log fails verification at exactly that row.
\<close>

theorem late_number_breaks_chain:
  assumes "chained sha pg (early @ late)" and "late \<noteq> []" and "0 < a_seq new"
    and "\<forall>r \<in> set early. a_seq r < a_seq new" and "\<forall>r \<in> set late. a_seq new < a_seq r"
    and "head_hash (early @ late) \<noteq> head_hash early"
  shows "verify_audit_chain sha pg ((early @ late) @ [audit_hash_chain sha pg (early @ late) new]) 0 =
    \<lparr>chain_ok = False, rows_checked = int (length early) + 1, first_bad_seq = Some (a_seq new),
     first_bad_reason = Some reason_prev\<rparr>"
proof -
  let ?new = "audit_hash_chain sha pg (early @ late) new"
  have seq: "a_seq ?new = a_seq new" and prev: "a_prev_hash ?new = head_hash (early @ late)"
    by (simp_all add: audit_hash_chain_def Let_def)
  have s: "seq_sorted early" "seq_sorted late" using assms(1) by (simp_all add: chained_def seq_sorted_append)
  have pos: "\<forall>r \<in> set early \<union> set late. 0 < a_seq r" using assms(1) by (auto simp: chained_def)
  have sorted: "seq_sorted (early @ ?new # late)"
    using assms(1,4,5) s seq by (auto simp: chained_def seq_sorted_append seq_sorted_Cons)
  have none: "filter (\<lambda>y. a_seq new = a_seq y) late = []" using assms(5) by (auto simp: filter_empty_conv)
  have "sort_key a_seq ((early @ late) @ [?new]) = early @ ?new # late"
  proof (rule properties_for_sort_key)
    fix x show "x \<in> set (early @ ?new # late) \<Longrightarrow> filter (\<lambda>y. a_seq x = a_seq y) (early @ ?new # late)
        = filter (\<lambda>y. a_seq x = a_seq y) ((early @ late) @ [?new])"
      using none seq by (cases "a_seq x = a_seq new") auto
  qed (use sorted in \<open>simp_all add: seq_sorted_def strict_sorted_imp_sorted\<close>)
  moreover have "filter (\<lambda>r. 0 \<le> a_seq r) ((early @ late) @ [?new]) = (early @ late) @ [?new]"
    by (rule filter_True) (use pos assms(3) seq in \<open>auto simp: less_imp_le\<close>)
  moreover have "linked sha pg audit_genesis_hash early" using assms(1) by (simp add: chained_def linked_append)
  then have "walk_chain sha pg audit_genesis_hash 0 (early @ ?new # late) =
      walk_chain sha pg (chain_end audit_genesis_hash early) (int (length early)) (?new # late)"
    using walk_chain_append [of sha pg audit_genesis_hash early 0] by simp
  ultimately show ?thesis
    using assms(6) prev seq chain_end_head [OF s(1)] by (simp add: verify_audit_chain_def)
qed

theorem late_number_breaks_chain_witness:
  "verify_audit_chain sample_hash sample_pg ((take 1 sample_log @ drop 1 sample_log) @
      [audit_hash_chain sample_hash sample_pg (take 1 sample_log @ drop 1 sample_log) (sample_row 2 ''c'')]) 0 =
    \<lparr>chain_ok = False, rows_checked = int (length (take 1 sample_log)) + 1,
     first_bad_seq = Some (a_seq (sample_row 2 ''c'')), first_bad_reason = Some reason_prev\<rparr>"
proof (rule late_number_breaks_chain)
  show "chained sample_hash sample_pg (take 1 sample_log @ drop 1 sample_log)" using sample_log_chained by simp
  show "head_hash (take 1 sample_log @ drop 1 sample_log) \<noteq> head_hash (take 1 sample_log)" by code_simp
qed (simp_all add: sample_log_def sample_row_def audit_hash_chain_def Let_def)

end
