(* ===== verification/Store.thy ===== *)
theory Store
  imports Config Signer Attestation Hub Audit_Chain
begin

text \<open>
  The state the backend works on, and the code it calls that is not part of the repository.

  The database (\<^verbatim>\<open>backend/db/migrations/003_core_tables.sql\<close>, \<^verbatim>\<open>004_audit_log.sql\<close>) is one list of rows
  per table, in insertion order; a statement is one function of the state, which is what
  PostgreSQL's READ COMMITTED gives a single statement. The process state is the hub, the
  challenge store and the limiter's memory. \<open>w_now\<close> is the clock that \<^verbatim>\<open>time.time()\<close> and \<^verbatim>\<open>now()\<close>
  read; \<open>w_draws\<close> counts the values taken from the random sources, so that the \<open>n\<close>-th draw is the
  value \<open>n\<close> of a tape.

  \<open>ext\<close> collects the parameters: SHA-256, Argon2, Ed25519, X.509, PostgreSQL's text conversions and
  time zones, the signer's socket, what happens on a controller's socket, and the random tape.
\<close>

section \<open>Tables\<close>

record user_row =
  u_id :: uuid
  u_username :: string
  u_display_name :: string
  u_password_hash :: string
  u_is_admin :: bool
  u_is_active :: bool
  u_created_at :: instant
  u_updated_at :: instant
  u_last_login_at :: "instant option"

record device_row =
  d_id :: uuid
  d_user_id :: uuid
  d_label :: string
  d_public_key :: bytes
  d_platform :: string
  d_app_version :: "string option"
  d_attestation_status :: string
  d_attestation_verified_at :: "instant option"
  d_attestation_detail :: json
  d_is_blocked :: bool
  d_blocked_reason :: "string option"
  d_created_at :: instant
  d_last_seen_at :: "instant option"

record code_row =
  e_id :: uuid
  e_user_id :: uuid
  e_code_hash :: bytes
  e_created_by :: "uuid option"
  e_created_at :: instant
  e_expires_at :: instant
  e_used_at :: "instant option"
  e_used_by_device :: "uuid option"

record controller_row =
  c_id :: uuid
  c_code :: string
  c_name :: string
  c_public_key :: bytes
  c_beacon_key :: bytes
  c_firmware_version :: "string option"
  c_is_blocked :: bool
  c_blocked_reason :: "string option"
  c_last_seen_at :: "instant option"
  c_last_ip :: "string option"
  c_created_at :: instant

record door_row =
  dr_id :: uuid
  dr_code :: string
  dr_name :: string
  dr_location :: "string option"
  dr_controller_id :: "uuid option"
  dr_relay_channel :: int
  dr_unlock_seconds :: int
  dr_is_active :: bool
  dr_created_at :: instant

record permission_row =
  p_id :: uuid
  p_user_id :: uuid
  p_door_id :: uuid
  p_valid_from :: instant
  p_valid_until :: "instant option"
  p_weekday_mask :: int
  p_start_time :: int
  p_end_time :: int
  p_time_zone :: string
  p_is_active :: bool
  p_created_by :: "uuid option"
  p_created_at :: instant

record token_row =
  t_id :: uuid
  t_family_id :: uuid
  t_user_id :: uuid
  t_device_id :: uuid
  t_kind :: string
  t_token_hash :: bytes
  t_parent_id :: "uuid option"
  t_issued_at :: instant
  t_expires_at :: instant
  t_used_at :: "instant option"
  t_revoked_at :: "instant option"
  t_revoked_reason :: "string option"

record failed_row =
  f_subject_type :: string
  f_subject :: string
  f_endpoint :: string
  f_client_ip :: "string option"
  f_occurred_at :: instant

text \<open>\<^verbatim>\<open>_Challenge\<close> of the enrolment service.\<close>

record challenge =
  ch_value :: bytes
  ch_user_hint :: string
  ch_expires_at :: instant

section \<open>State\<close>

record world =
  w_now :: instant
  w_draws :: nat
  w_users :: "user_row list"
  w_devices :: "device_row list"
  w_codes :: "code_row list"
  w_controllers :: "controller_row list"
  w_doors :: "door_row list"
  w_permissions :: "permission_row list"
  w_tokens :: "token_row list"
  w_failed :: "failed_row list"
  w_audit :: "audit_row list"
  w_audit_seq :: int
  w_challenges :: "(string \<times> challenge) list"
  w_recent :: "((string \<times> string) \<times> instant list) list"
  w_dummy_hashes :: "((int \<times> int \<times> int) \<times> string) list"
  w_hub :: hub

text \<open>
  What can happen on a controller's line while a request waits for an acknowledgement: a message
  arrives, the connection drops, or the same controller connects again.
\<close>

datatype line_event = Message "(string \<times> json) list" | Dropped | Reconnected controller_session

type_synonym 'a io = "(world, exn, 'a) comp"

record ext =
  sha256 :: "bytes \<Rightarrow> bytes"
  pg :: pg_text
  inet_ok :: "string \<Rightarrow> bool"
  zone_local :: "string \<Rightarrow> instant \<Rightarrow> (int \<times> int) option"
  pg_time :: "string \<Rightarrow> int option"
  db_error_name :: "string \<Rightarrow> string"
  argon2_hash :: "int \<times> int \<times> int \<Rightarrow> bytes \<Rightarrow> string \<Rightarrow> string"
  argon2_verify :: "string \<Rightarrow> string \<Rightarrow> exn + unit"
  argon2_cost :: "string \<Rightarrow> int"
  ed25519_verify :: "bytes \<Rightarrow> bytes \<Rightarrow> bytes \<Rightarrow> exn + unit"
  certs :: x509
  signer_io :: "bytes \<Rightarrow> transport"
  controller_io :: "string \<Rightarrow> string \<Rightarrow> string + (int \<times> line_event list)"
  rand_bytes :: "nat \<Rightarrow> nat \<Rightarrow> bytes"
  rand_uuid :: "nat \<Rightarrow> uuid"
  dummy_password :: string

section \<open>Dates as text\<close>

definition pad_digits :: "nat \<Rightarrow> int \<Rightarrow> string" where
  "pad_digits k n = (let s = py_str_int n in replicate (k - length s) (CHR ''0'') @ s)"

text \<open>\<^verbatim>\<open>str(datetime.time)\<close>, a time of day being its microseconds since midnight.\<close>

definition time_text :: "int \<Rightarrow> string" where
  "time_text t =
     (let s = t div 1000000; us = t mod 1000000
      in pad_digits 2 (s div 3600) @ '':'' @ pad_digits 2 (s div 60 mod 60) @ '':'' @ pad_digits 2 (s mod 60) @
         (if us = 0 then [] else ''.'' @ pad_digits 6 us))"

text \<open>The Gregorian date of a day counted from 1970-01-01 (eras of 400 years from 1 March).\<close>

definition civil_from_days :: "int \<Rightarrow> int \<times> int \<times> int" where
  "civil_from_days days =
     (let z = days + 719468; era = z div 146097; doe = z mod 146097;
          yoe = (doe - doe div 1460 + doe div 36524 - doe div 146096) div 365;
          doy = doe - (365 * yoe + yoe div 4 - yoe div 100);
          mp = (5 * doy + 2) div 153;
          d = doy - (153 * mp + 2) div 5 + 1;
          m = (if mp < 10 then mp + 3 else mp - 9)
      in (yoe + era * 400 + (if m \<le> 2 then 1 else 0), m, d))"

text \<open>\<^verbatim>\<open>datetime.isoformat()\<close> of a UTC instant.\<close>

definition iso_text :: "instant \<Rightarrow> string" where
  "iso_text t =
     (case civil_from_days (t div 86400000000) of (y, m, d) \<Rightarrow>
        pad_digits 4 y @ ''-'' @ pad_digits 2 m @ ''-'' @ pad_digits 2 d @ ''T'' @
        time_text (t mod 86400000000) @ ''+00:00'')"

section \<open>Clock, randomness, rows\<close>

definition current_time :: "instant io" where
  "current_time = gets w_now"

text \<open>\<^verbatim>\<open>asyncio.sleep\<close>, and work that takes time: the clock moves on, never back.\<close>

definition sleep :: "int \<Rightarrow> unit io" where
  "sleep d = puts (\<lambda>w. w\<lparr>w_now := w_now w + max 0 d\<rparr>)"

definition draw_uuid :: "ext \<Rightarrow> uuid io" where
  "draw_uuid x = bindE (gets w_draws) (\<lambda>n. bindE (puts (\<lambda>w. w\<lparr>w_draws := n + 1\<rparr>)) (\<lambda>_. ret (rand_uuid x n)))"

text \<open>\<^verbatim>\<open>secrets.token_bytes(k)\<close>.\<close>

definition draw_bytes :: "ext \<Rightarrow> nat \<Rightarrow> bytes io" where
  "draw_bytes x k = bindE (gets w_draws) (\<lambda>n. bindE (puts (\<lambda>w. w\<lparr>w_draws := n + 1\<rparr>)) (\<lambda>_. ret (rand_bytes x n k)))"

text \<open>\<^verbatim>\<open>UPDATE ... SET ... WHERE\<close>.\<close>

definition update_rows :: "('r \<Rightarrow> bool) \<Rightarrow> ('r \<Rightarrow> 'r) \<Rightarrow> 'r list \<Rightarrow> 'r list" where
  "update_rows p f rows = map (\<lambda>r. if p r then f r else r) rows"

text \<open>PostgreSQL's \<^verbatim>\<open>lower()\<close> on the characters a username may hold.\<close>

definition pg_lower :: "string \<Rightarrow> string" where
  "pg_lower s = map (\<lambda>c. let n = (of_char c :: nat) in if 65 \<le> n \<and> n \<le> 90 then char_of (n + 32) else c) s"

definition inet_valid :: "ext \<Rightarrow> string option \<Rightarrow> bool" where
  "inet_valid x ip = (case ip of None \<Rightarrow> True | Some s \<Rightarrow> inet_ok x s)"

definition user_exists :: "world \<Rightarrow> uuid \<Rightarrow> bool" where
  "user_exists w uid = list_ex (\<lambda>u. u_id u = uid) (w_users w)"

lemma update_rows_simps [simp]:
  "update_rows p f [] = []"
  "update_rows p f (r # rs) = (if p r then f r else r) # update_rows p f rs"
  "length (update_rows p f rows) = length rows"
  by (simp_all add: update_rows_def)

lemma update_rows_set: "set (update_rows p f rows) = (\<lambda>r. if p r then f r else r) ` set rows"
  by (simp add: update_rows_def)

lemma update_rows_map:
  "(\<And>r. g (f r) = g r) \<Longrightarrow> map g (update_rows p f rows) = map g rows"
  by (simp add: update_rows_def)

lemma list_ex_update:
  "(\<And>r. q (f r) = q r) \<Longrightarrow> list_ex q (update_rows p f rows) = list_ex q rows"
  by (induction rows) simp_all

lemma find_update:
  assumes "\<And>r. q (f r) = q r"
  shows "find q (update_rows p f rows) = map_option (\<lambda>r. if p r then f r else r) (find q rows)"
  using assms by (induction rows) simp_all

lemma find_append: "find q (xs @ ys) = (case find q xs of None \<Rightarrow> find q ys | Some x \<Rightarrow> Some x)"
  by (induction xs) simp_all

lemma find_cong_set: "(\<And>x. x \<in> set xs \<Longrightarrow> q x = q' x) \<Longrightarrow> find q xs = find q' xs"
  by (induction xs) simp_all

lemma find_SomeD: "find q xs = Some y \<Longrightarrow> q y \<and> y \<in> set xs"
  by (induction xs) (auto split: if_splits)

lemma find_NoneD: "find q xs = None \<Longrightarrow> x \<in> set xs \<Longrightarrow> \<not> q x"
  by (induction xs) (auto split: if_splits)

end
