(* ===== verification/Repositories.thy ===== *)
theory Repositories
  imports Store
begin

text \<open>
  \<^verbatim>\<open>backend/app/db/repositories/\<close>: every method of the eight repositories, as the statement it runs.
  An INSERT draws the default identifier and checks the constraints of the table (primary key,
  unique index, CHECK, foreign key, enumeration label); a violation is \<open>DatabaseError\<close> with the name
  of the table.
\<close>

definition insert_checked :: "string \<Rightarrow> bool \<Rightarrow> (world \<Rightarrow> world) \<Rightarrow> 'a \<Rightarrow> 'a io" where
  "insert_checked table ok f v =
     (if ok then bindE (puts f) (\<lambda>_. ret v) else throw (DatabaseError table))"

section \<open>users.py\<close>

definition users_by_username :: "world \<Rightarrow> string \<Rightarrow> user_row option" where
  "users_by_username w username = find (\<lambda>u. pg_lower (u_username u) = pg_lower username) (w_users w)"

definition users_by_id :: "world \<Rightarrow> uuid \<Rightarrow> user_row option" where
  "users_by_id w uid = find (\<lambda>u. u_id u = uid) (w_users w)"

definition username_shape :: "string \<Rightarrow> bool" where
  "username_shape s \<longleftrightarrow> 3 \<le> length s \<and> length s \<le> 64 \<and>
     list_all (\<lambda>c. let n = (of_char c :: nat) in
       (97 \<le> n \<and> n \<le> 122) \<or> (48 \<le> n \<and> n \<le> 57) \<or> c \<in> {CHR ''.'', CHR ''_'', CHR ''-''}) s"

definition users_create :: "ext \<Rightarrow> string \<Rightarrow> string \<Rightarrow> string \<Rightarrow> bool \<Rightarrow> uuid io" where
  "users_create x username display_name password_hash is_admin =
     bindE (draw_uuid x) (\<lambda>uid. bindE (gets id) (\<lambda>w.
       let name = pg_lower username;
           row = \<lparr>u_id = uid, u_username = name, u_display_name = display_name,
                  u_password_hash = password_hash, u_is_admin = is_admin, u_is_active = True,
                  u_created_at = w_now w, u_updated_at = w_now w, u_last_login_at = None\<rparr>
       in insert_checked ''users''
            (username_shape name \<and> \<not> user_exists w uid \<and> users_by_username w name = None)
            (\<lambda>w. w\<lparr>w_users := w_users w @ [row]\<rparr>) uid))"

definition users_touch_login :: "uuid \<Rightarrow> unit io" where
  "users_touch_login uid = puts (\<lambda>w. w\<lparr>w_users := update_rows (\<lambda>u. u_id u = uid)
     (\<lambda>u. u\<lparr>u_last_login_at := Some (w_now w), u_updated_at := w_now w\<rparr>) (w_users w)\<rparr>)"

definition users_set_active :: "uuid \<Rightarrow> bool \<Rightarrow> unit io" where
  "users_set_active uid active = puts (\<lambda>w. w\<lparr>w_users := update_rows (\<lambda>u. u_id u = uid)
     (\<lambda>u. u\<lparr>u_is_active := active, u_updated_at := w_now w\<rparr>) (w_users w)\<rparr>)"

section \<open>devices.py\<close>

definition devices_by_id :: "world \<Rightarrow> uuid \<Rightarrow> device_row option" where
  "devices_by_id w did = find (\<lambda>d. d_id d = did) (w_devices w)"

definition devices_for_user :: "world \<Rightarrow> uuid \<Rightarrow> device_row list" where
  "devices_for_user w uid = sort_key d_created_at (filter (\<lambda>d. d_user_id d = uid) (w_devices w))"

definition ATTESTATION_STATUSES :: "string list" where
  "ATTESTATION_STATUSES = [''pending'', ''verified'', ''failed'', ''exempt'']"

definition devices_create ::
  "ext \<Rightarrow> uuid \<Rightarrow> string \<Rightarrow> bytes \<Rightarrow> string \<Rightarrow> string option \<Rightarrow> string \<Rightarrow> json \<Rightarrow> uuid io"
where
  "devices_create x user_id label public_key platform app_version attestation_status attestation_detail =
     bindE (draw_uuid x) (\<lambda>did. bindE (gets id) (\<lambda>w.
       let row = \<lparr>d_id = did, d_user_id = user_id, d_label = label, d_public_key = public_key,
                  d_platform = platform, d_app_version = app_version,
                  d_attestation_status = attestation_status,
                  d_attestation_verified_at = (if attestation_status = ''verified'' then Some (w_now w) else None),
                  d_attestation_detail = attestation_detail, d_is_blocked = False, d_blocked_reason = None,
                  d_created_at = w_now w, d_last_seen_at = None\<rparr>
       in insert_checked ''devices''
            (attestation_status \<in> set ATTESTATION_STATUSES \<and> length public_key = 32 \<and> user_exists w user_id \<and>
             devices_by_id w did = None \<and> \<not> list_ex (\<lambda>d. d_public_key d = public_key) (w_devices w))
            (\<lambda>w. w\<lparr>w_devices := w_devices w @ [row]\<rparr>) did))"

definition devices_touch_seen :: "uuid \<Rightarrow> unit io" where
  "devices_touch_seen did = puts (\<lambda>w. w\<lparr>w_devices := update_rows (\<lambda>d. d_id d = did)
     (\<lambda>d. d\<lparr>d_last_seen_at := Some (w_now w)\<rparr>) (w_devices w)\<rparr>)"

definition devices_block :: "uuid \<Rightarrow> string \<Rightarrow> unit io" where
  "devices_block did reason = puts (\<lambda>w. w\<lparr>w_devices := update_rows (\<lambda>d. d_id d = did)
     (\<lambda>d. d\<lparr>d_is_blocked := True, d_blocked_reason := Some reason\<rparr>) (w_devices w)\<rparr>)"

definition enrollments_create :: "ext \<Rightarrow> uuid \<Rightarrow> bytes \<Rightarrow> uuid option \<Rightarrow> int \<Rightarrow> uuid io" where
  "enrollments_create x user_id code_hash created_by ttl_seconds =
     bindE (draw_uuid x) (\<lambda>eid. bindE (gets id) (\<lambda>w.
       let row = \<lparr>e_id = eid, e_user_id = user_id, e_code_hash = code_hash, e_created_by = created_by,
                  e_created_at = w_now w, e_expires_at = w_now w + seconds ttl_seconds,
                  e_used_at = None, e_used_by_device = None\<rparr>
       in insert_checked ''enrollment_codes''
            (length code_hash = 32 \<and> user_exists w user_id \<and>
             (case created_by of None \<Rightarrow> True | Some u \<Rightarrow> user_exists w u) \<and>
             \<not> list_ex (\<lambda>e. e_id e = eid \<or> e_code_hash e = code_hash) (w_codes w))
            (\<lambda>w. w\<lparr>w_codes := w_codes w @ [row]\<rparr>) eid))"

definition open_code :: "bytes \<Rightarrow> instant \<Rightarrow> code_row \<Rightarrow> bool" where
  "open_code code_hash now e \<longleftrightarrow> e_code_hash e = code_hash \<and> e_used_at e = None \<and> now < e_expires_at e"

definition enrollments_claim :: "bytes \<Rightarrow> (uuid \<times> uuid) option io" where
  "enrollments_claim code_hash =
     bindE (gets (\<lambda>w. find (open_code code_hash (w_now w)) (w_codes w))) (\<lambda>hit.
     bindE (puts (\<lambda>w. w\<lparr>w_codes := update_rows (open_code code_hash (w_now w))
              (\<lambda>e. e\<lparr>e_used_at := Some (w_now w)\<rparr>) (w_codes w)\<rparr>)) (\<lambda>_.
       ret (map_option (\<lambda>e. (e_id e, e_user_id e)) hit)))"

definition enrollments_attach_device :: "uuid \<Rightarrow> uuid \<Rightarrow> unit io" where
  "enrollments_attach_device eid did = puts (\<lambda>w. w\<lparr>w_codes := update_rows (\<lambda>e. e_id e = eid)
     (\<lambda>e. e\<lparr>e_used_by_device := Some did\<rparr>) (w_codes w)\<rparr>)"

section \<open>controllers.py\<close>

definition controllers_by_code :: "world \<Rightarrow> string \<Rightarrow> controller_row option" where
  "controllers_by_code w code = find (\<lambda>c. c_code c = code) (w_controllers w)"

definition controllers_by_id :: "world \<Rightarrow> uuid \<Rightarrow> controller_row option" where
  "controllers_by_id w cid = find (\<lambda>c. c_id c = cid) (w_controllers w)"

definition controllers_register :: "ext \<Rightarrow> string \<Rightarrow> string \<Rightarrow> bytes \<Rightarrow> bytes \<Rightarrow> uuid io" where
  "controllers_register x code name public_key beacon_key =
     bindE (draw_uuid x) (\<lambda>cid. bindE (gets id) (\<lambda>w.
       let row = \<lparr>c_id = cid, c_code = code, c_name = name, c_public_key = public_key, c_beacon_key = beacon_key,
                  c_firmware_version = None, c_is_blocked = False, c_blocked_reason = None,
                  c_last_seen_at = None, c_last_ip = None, c_created_at = w_now w\<rparr>
       in insert_checked ''controllers''
            (length public_key = 32 \<and> length beacon_key = 32 \<and>
             \<not> list_ex (\<lambda>c. c_id c = cid \<or> c_code c = code \<or> c_public_key c = public_key) (w_controllers w))
            (\<lambda>w. w\<lparr>w_controllers := w_controllers w @ [row]\<rparr>) cid))"

text \<open>\<^verbatim>\<open>coalesce($2, column)\<close>.\<close>

definition coalesce :: "'a option \<Rightarrow> 'a option \<Rightarrow> 'a option" where
  "coalesce new old = (case new of None \<Rightarrow> old | Some v \<Rightarrow> Some v)"

definition controllers_touch_seen :: "ext \<Rightarrow> uuid \<Rightarrow> string option \<Rightarrow> string option \<Rightarrow> unit io" where
  "controllers_touch_seen x cid ip firmware_version =
     bindE (guardE (\<not> inet_valid x ip) (throw (DatabaseError ''inet''))) (\<lambda>_.
       puts (\<lambda>w. w\<lparr>w_controllers := update_rows (\<lambda>c. c_id c = cid)
         (\<lambda>c. c\<lparr>c_last_seen_at := Some (w_now w), c_last_ip := coalesce ip (c_last_ip c),
                c_firmware_version := coalesce firmware_version (c_firmware_version c)\<rparr>) (w_controllers w)\<rparr>))"

definition controllers_block :: "uuid \<Rightarrow> string \<Rightarrow> unit io" where
  "controllers_block cid reason = puts (\<lambda>w. w\<lparr>w_controllers := update_rows (\<lambda>c. c_id c = cid)
     (\<lambda>c. c\<lparr>c_is_blocked := True, c_blocked_reason := Some reason\<rparr>) (w_controllers w)\<rparr>)"

text \<open>\<^verbatim>\<open>ORDER BY\<close> on a text column.\<close>

definition sort_by_text :: "('r \<Rightarrow> string) \<Rightarrow> 'r list \<Rightarrow> 'r list" where
  "sort_by_text f rows = map snd (sort_keys (map (\<lambda>r. (f r, r)) rows))"

definition controllers_list_all :: "world \<Rightarrow> controller_row list" where
  "controllers_list_all w = sort_by_text c_code (w_controllers w)"

section \<open>doors.py\<close>

text \<open>A door with the controller the LEFT JOIN finds for it.\<close>

definition controller_of :: "world \<Rightarrow> door_row \<Rightarrow> controller_row option" where
  "controller_of w d = (case dr_controller_id d of None \<Rightarrow> None | Some cid \<Rightarrow> controllers_by_id w cid)"

definition doors_by_id :: "world \<Rightarrow> uuid \<Rightarrow> (door_row \<times> controller_row option) option" where
  "doors_by_id w did =
     map_option (\<lambda>d. (d, controller_of w d)) (find (\<lambda>d. dr_id d = did) (w_doors w))"

definition in_force :: "instant \<Rightarrow> permission_row \<Rightarrow> bool" where
  "in_force now p \<longleftrightarrow> p_is_active p \<and> p_valid_from p \<le> now \<and>
     (case p_valid_until p of None \<Rightarrow> True | Some t \<Rightarrow> now < t)"

definition recently_seen :: "instant \<Rightarrow> controller_row option \<Rightarrow> bool" where
  "recently_seen now c =
     (case c of
        None \<Rightarrow> False
      | Some c \<Rightarrow> \<not> c_is_blocked c \<and> (case c_last_seen_at c of None \<Rightarrow> False | Some t \<Rightarrow> now - seconds 120 < t))"

text \<open>
  Rows of \<^verbatim>\<open>list_for_user\<close>: permission, door, and the computed \<^verbatim>\<open>controller_online\<close> column (NULL, where the
  controller was never seen, reads as false).
\<close>

definition doors_list_for_user :: "world \<Rightarrow> uuid \<Rightarrow> (permission_row \<times> door_row \<times> bool) list" where
  "doors_list_for_user w uid =
     sort_by_text (\<lambda>(p, d, on). dr_name d)
       (concat (map (\<lambda>p. map (\<lambda>d. (p, d, recently_seen (w_now w) (controller_of w d)))
            (filter (\<lambda>d. dr_id d = p_door_id p \<and> dr_is_active d) (w_doors w)))
          (filter (\<lambda>p. p_user_id p = uid \<and> in_force (w_now w) p) (w_permissions w))))"

definition doors_create ::
  "ext \<Rightarrow> string \<Rightarrow> string \<Rightarrow> string option \<Rightarrow> uuid option \<Rightarrow> int \<Rightarrow> int \<Rightarrow> uuid io"
where
  "doors_create x code name location controller_id relay_channel unlock_seconds =
     bindE (draw_uuid x) (\<lambda>did. bindE (gets id) (\<lambda>w.
       let row = \<lparr>dr_id = did, dr_code = code, dr_name = name, dr_location = location,
                  dr_controller_id = controller_id, dr_relay_channel = relay_channel,
                  dr_unlock_seconds = unlock_seconds, dr_is_active = True, dr_created_at = w_now w\<rparr>
       in insert_checked ''doors''
            (1 \<le> unlock_seconds \<and> unlock_seconds \<le> 10 \<and> 1 \<le> relay_channel \<and> relay_channel \<le> 4 \<and>
             (case controller_id of None \<Rightarrow> True | Some cid \<Rightarrow> controllers_by_id w cid \<noteq> None) \<and>
             \<not> list_ex (\<lambda>d. dr_id d = did \<or> dr_code d = code) (w_doors w))
            (\<lambda>w. w\<lparr>w_doors := w_doors w @ [row]\<rparr>) did))"

record permission_view =
  pv_row :: permission_row
  pv_local_time :: int
  pv_local_dow :: int
  pv_within_window :: bool

definition within_window :: "permission_row \<Rightarrow> int \<Rightarrow> int \<Rightarrow> bool" where
  "within_window p local_time local_dow \<longleftrightarrow>
     (p_weekday_mask p div 2 ^ nat (local_dow - 1)) mod 2 = 1 \<and>
     p_start_time p \<le> local_time \<and> local_time \<le> p_end_time p"

definition permissions_effective :: "ext \<Rightarrow> uuid \<Rightarrow> uuid \<Rightarrow> permission_view option io" where
  "permissions_effective x uid did =
     bindE (gets id) (\<lambda>w.
       case find (\<lambda>p. p_user_id p = uid \<and> p_door_id p = did \<and> in_force (w_now w) p) (w_permissions w) of
         None \<Rightarrow> ret None
       | Some p \<Rightarrow>
           (case zone_local x (p_time_zone p) (w_now w) of
              None \<Rightarrow> throw (DatabaseError ''time zone'')
            | Some (local_time, local_dow) \<Rightarrow>
                ret (Some \<lparr>pv_row = p, pv_local_time = local_time, pv_local_dow = local_dow,
                          pv_within_window = within_window p local_time local_dow\<rparr>)))"

definition permission_checks :: "permission_row \<Rightarrow> bool" where
  "permission_checks p \<longleftrightarrow> 0 \<le> p_weekday_mask p \<and> p_weekday_mask p \<le> 127 \<and> p_start_time p < p_end_time p \<and>
     (case p_valid_until p of None \<Rightarrow> True | Some t \<Rightarrow> p_valid_from p < t)"

definition live_grant :: "uuid \<Rightarrow> uuid \<Rightarrow> permission_row \<Rightarrow> bool" where
  "live_grant uid did p \<longleftrightarrow> p_user_id p = uid \<and> p_door_id p = did \<and> p_is_active p"

text \<open>\<^verbatim>\<open>ON CONFLICT (user_id, door_id) WHERE is_active DO UPDATE\<close>.\<close>

definition permissions_grant ::
  "ext \<Rightarrow> uuid \<Rightarrow> uuid \<Rightarrow> uuid option \<Rightarrow> int \<Rightarrow> string \<Rightarrow> string \<Rightarrow> string \<Rightarrow> instant option \<Rightarrow> uuid io"
where
  "permissions_grant x uid did created_by weekday_mask start_time end_time time_zone valid_until =
     bindE (draw_uuid x) (\<lambda>pid. bindE (gets id) (\<lambda>w.
       case (pg_time x start_time, pg_time x end_time) of
         (Some t0, Some t1) \<Rightarrow>
           (let set_window = (\<lambda>p. p\<lparr>p_weekday_mask := weekday_mask, p_start_time := t0, p_end_time := t1,
                                     p_time_zone := time_zone, p_valid_until := valid_until\<rparr>);
                row = \<lparr>p_id = pid, p_user_id = uid, p_door_id = did, p_valid_from = w_now w,
                       p_valid_until = valid_until, p_weekday_mask = weekday_mask, p_start_time = t0, p_end_time = t1,
                       p_time_zone = time_zone, p_is_active = True, p_created_by = created_by, p_created_at = w_now w\<rparr>
            in if \<not> permission_checks row then throw (DatabaseError ''permissions'')
               else (case find (live_grant uid did) (w_permissions w) of
                   Some p \<Rightarrow> insert_checked ''permissions'' (permission_checks (set_window p))
                     (\<lambda>w. w\<lparr>w_permissions := update_rows (live_grant uid did) set_window (w_permissions w)\<rparr>) (p_id p)
                 | None \<Rightarrow> insert_checked ''permissions''
                     (user_exists w uid \<and> list_ex (\<lambda>d. dr_id d = did) (w_doors w) \<and>
                      (case created_by of None \<Rightarrow> True | Some u \<Rightarrow> user_exists w u) \<and>
                      \<not> list_ex (\<lambda>p. p_id p = pid) (w_permissions w))
                     (\<lambda>w. w\<lparr>w_permissions := w_permissions w @ [row]\<rparr>) pid))
       | _ \<Rightarrow> throw (DatabaseError ''time'')))"

definition permissions_revoke :: "uuid \<Rightarrow> unit io" where
  "permissions_revoke pid = puts (\<lambda>w. w\<lparr>w_permissions := update_rows (\<lambda>p. p_id p = pid)
     (\<lambda>p. p\<lparr>p_is_active := False\<rparr>) (w_permissions w)\<rparr>)"

section \<open>tokens.py\<close>

definition TOKEN_KINDS :: "string list" where
  "TOKEN_KINDS = [''access'', ''refresh'']"

definition token_row_of ::
  "uuid \<Rightarrow> uuid \<Rightarrow> uuid \<Rightarrow> uuid \<Rightarrow> string \<Rightarrow> bytes \<Rightarrow> int \<Rightarrow> uuid option \<Rightarrow> instant \<Rightarrow> token_row"
where
  "token_row_of tid family_id user_id device_id kind token_hash ttl_seconds parent_id now =
     \<lparr>t_id = tid, t_family_id = family_id, t_user_id = user_id, t_device_id = device_id,
      t_kind = kind, t_token_hash = token_hash, t_parent_id = parent_id,
      t_issued_at = now, t_expires_at = now + seconds ttl_seconds,
      t_used_at = None, t_revoked_at = None, t_revoked_reason = None\<rparr>"

definition tokens_insert ::
  "ext \<Rightarrow> uuid \<Rightarrow> uuid \<Rightarrow> uuid \<Rightarrow> string \<Rightarrow> bytes \<Rightarrow> int \<Rightarrow> uuid option \<Rightarrow> uuid io"
where
  "tokens_insert x family_id user_id device_id kind token_hash ttl_seconds parent_id =
     bindE (draw_uuid x) (\<lambda>tid. bindE (gets id) (\<lambda>w.
       let row = token_row_of tid family_id user_id device_id kind token_hash ttl_seconds parent_id (w_now w)
       in insert_checked ''tokens''
            (kind \<in> set TOKEN_KINDS \<and> length token_hash = 32 \<and> t_issued_at row < t_expires_at row \<and>
             user_exists w user_id \<and> devices_by_id w device_id \<noteq> None \<and>
             (case parent_id of None \<Rightarrow> True | Some q \<Rightarrow> list_ex (\<lambda>t. t_id t = q) (w_tokens w)) \<and>
             \<not> list_ex (\<lambda>t. t_id t = tid \<or> t_token_hash t = token_hash) (w_tokens w))
            (\<lambda>w. w\<lparr>w_tokens := w_tokens w @ [row]\<rparr>) tid))"

text \<open>The joined row of \<^verbatim>\<open>lookup\<close>.\<close>

record token_view =
  tv_row :: token_row
  tv_user_active :: bool
  tv_user_is_admin :: bool
  tv_display_name :: string
  tv_username :: string
  tv_device_blocked :: bool
  tv_attestation_status :: string

definition tokens_lookup :: "world \<Rightarrow> bytes \<Rightarrow> string \<Rightarrow> token_view option" where
  "tokens_lookup w token_hash kind =
     (case find (\<lambda>t. t_token_hash t = token_hash \<and> t_kind t = kind) (w_tokens w) of
        None \<Rightarrow> None
      | Some t \<Rightarrow>
          (case (users_by_id w (t_user_id t), devices_by_id w (t_device_id t)) of
             (Some u, Some d) \<Rightarrow>
               Some \<lparr>tv_row = t, tv_user_active = u_is_active u, tv_user_is_admin = u_is_admin u,
                     tv_display_name = u_display_name u, tv_username = u_username u,
                     tv_device_blocked = d_is_blocked d, tv_attestation_status = d_attestation_status d\<rparr>
           | _ \<Rightarrow> None))"

definition tokens_mark_used :: "uuid \<Rightarrow> unit io" where
  "tokens_mark_used tid = puts (\<lambda>w. w\<lparr>w_tokens := update_rows (\<lambda>t. t_id t = tid \<and> t_used_at t = None)
     (\<lambda>t. t\<lparr>t_used_at := Some (w_now w)\<rparr>) (w_tokens w)\<rparr>)"

definition revoke_row :: "instant \<Rightarrow> string \<Rightarrow> token_row \<Rightarrow> token_row" where
  "revoke_row now reason t = t\<lparr>t_revoked_at := Some now, t_revoked_reason := Some reason\<rparr>"

text \<open>The UPDATE that the three revocations share, and the number of rows it touched.\<close>

definition revoke_where :: "(token_row \<Rightarrow> bool) \<Rightarrow> string \<Rightarrow> int io" where
  "revoke_where p reason =
     bindE (gets (\<lambda>w. int (length (filter (\<lambda>t. p t \<and> t_revoked_at t = None) (w_tokens w))))) (\<lambda>n.
     bindE (puts (\<lambda>w. w\<lparr>w_tokens := update_rows (\<lambda>t. p t \<and> t_revoked_at t = None)
              (revoke_row (w_now w) reason) (w_tokens w)\<rparr>)) (\<lambda>_. ret n))"

definition tokens_revoke :: "uuid \<Rightarrow> string \<Rightarrow> unit io" where
  "tokens_revoke tid reason = bindE (revoke_where (\<lambda>t. t_id t = tid) reason) (\<lambda>_. ret ())"

definition tokens_revoke_family :: "uuid \<Rightarrow> string \<Rightarrow> int io" where
  "tokens_revoke_family fid reason = revoke_where (\<lambda>t. t_family_id t = fid) reason"

definition tokens_revoke_device_sessions :: "uuid \<Rightarrow> string \<Rightarrow> int io" where
  "tokens_revoke_device_sessions did reason = revoke_where (\<lambda>t. t_device_id t = did) reason"

definition tokens_is_live :: "token_view \<Rightarrow> instant \<Rightarrow> bool" where
  "tokens_is_live r now \<longleftrightarrow>
     t_revoked_at (tv_row r) = None \<and> now < t_expires_at (tv_row r) \<and> tv_user_active r \<and> \<not> tv_device_blocked r"

definition tokens_expiry :: "int \<Rightarrow> instant \<Rightarrow> instant" where
  "tokens_expiry ttl_seconds now = now + seconds ttl_seconds"

section \<open>rate_limit.py\<close>

definition RATE_SUBJECTS :: "string list" where
  "RATE_SUBJECTS = [''user'', ''device'', ''ip'']"

definition rate_record_failure :: "ext \<Rightarrow> string \<Rightarrow> string \<Rightarrow> string \<Rightarrow> string option \<Rightarrow> unit io" where
  "rate_record_failure x subject_type subject endpoint client_ip =
     insert_checked ''failed_attempts'' (subject_type \<in> set RATE_SUBJECTS \<and> inet_valid x client_ip)
       (\<lambda>w. w\<lparr>w_failed := w_failed w @ [\<lparr>f_subject_type = subject_type, f_subject = subject,
          f_endpoint = endpoint, f_client_ip = client_ip, f_occurred_at = w_now w\<rparr>]\<rparr>) ()"

definition rate_failure_count :: "world \<Rightarrow> string \<Rightarrow> string \<Rightarrow> int \<Rightarrow> string option \<Rightarrow> int" where
  "rate_failure_count w subject_type subject window_seconds endpoint =
     int (length (filter (\<lambda>f. f_subject_type f = subject_type \<and> f_subject f = subject \<and>
        w_now w - seconds window_seconds < f_occurred_at f \<and>
        (case endpoint of None \<Rightarrow> True | Some e \<Rightarrow> f_endpoint f = e)) (w_failed w)))"

definition rate_unlock_count :: "world \<Rightarrow> uuid \<Rightarrow> int \<Rightarrow> int" where
  "rate_unlock_count w uid secs =
     int (length (filter (\<lambda>r. a_actor_id r = Some uid \<and> prefix ''door.unlock'' (a_event_type r) \<and>
        w_now w - seconds secs < a_occurred_at r) (w_audit w)))"

section \<open>audit.py\<close>

definition AUDIT_OUTCOMES :: "string list" where
  "AUDIT_OUTCOMES = [''success'', ''failure'', ''denied'']"

definition ACTOR_TYPES :: "string list" where
  "ACTOR_TYPES = [''user'', ''device'', ''controller'', ''admin'', ''system'', ''anonymous'']"

text \<open>What an audit call describes; the columns the caller does not name are NULL.\<close>

record audit_entry =
  en_actor_type :: string
  en_actor_id :: "uuid option"
  en_device_id :: "uuid option"
  en_door_id :: "uuid option"
  en_controller_id :: "uuid option"
  en_client_ip :: "string option"
  en_detail :: "(string \<times> json) list"

definition audit_row_of :: "world \<Rightarrow> string \<Rightarrow> string \<Rightarrow> audit_entry \<Rightarrow> audit_row" where
  "audit_row_of w event_type outcome en =
     \<lparr>a_seq = w_audit_seq w, a_occurred_at = w_now w, a_event_type = event_type, a_outcome = outcome,
      a_actor_type = en_actor_type en, a_actor_id = en_actor_id en, a_device_id = en_device_id en,
      a_door_id = en_door_id en, a_controller_id = en_controller_id en, a_client_ip = en_client_ip en,
      a_detail = JObj (en_detail en), a_prev_hash = [], a_row_hash = []\<rparr>"

definition audit_push :: "ext \<Rightarrow> string \<Rightarrow> string \<Rightarrow> audit_entry \<Rightarrow> world \<Rightarrow> world" where
  "audit_push x event_type outcome en w =
     w\<lparr>w_audit := w_audit w @ [audit_hash_chain (sha256 x) (pg x) (w_audit w) (audit_row_of w event_type outcome en)],
       w_audit_seq := w_audit_seq w + 1\<rparr>"

definition audit_accepts :: "ext \<Rightarrow> string \<Rightarrow> audit_entry \<Rightarrow> bool" where
  "audit_accepts x outcome en \<longleftrightarrow>
     outcome \<in> set AUDIT_OUTCOMES \<and> en_actor_type en \<in> set ACTOR_TYPES \<and> inet_valid x (en_client_ip en)"

definition audit_append :: "ext \<Rightarrow> string \<Rightarrow> string \<Rightarrow> audit_entry \<Rightarrow> int io" where
  "audit_append x event_type outcome en =
     bindE (gets w_audit_seq) (\<lambda>seq.
       insert_checked ''audit_log'' (audit_accepts x outcome en) (audit_push x event_type outcome en) seq)"

definition audit_recent :: "world \<Rightarrow> int \<Rightarrow> int option \<Rightarrow> string option \<Rightarrow> uuid option \<Rightarrow> audit_row list" where
  "audit_recent w lim before_seq event_type actor_id =
     take (nat lim) (rev (sort_key a_seq (filter (\<lambda>r.
       (case before_seq of None \<Rightarrow> True | Some b \<Rightarrow> a_seq r < b) \<and>
       (case event_type of None \<Rightarrow> True | Some e \<Rightarrow> a_event_type r = e) \<and>
       (case actor_id of None \<Rightarrow> True | Some a \<Rightarrow> a_actor_id r = Some a)) (w_audit w))))"

definition HISTORY_EVENTS :: "string list" where
  "HISTORY_EVENTS = [''door.unlock_granted'', ''door.unlock_denied'', ''door.unlock_confirmed'', ''door.unlock_failed'']"

definition audit_for_user :: "world \<Rightarrow> uuid \<Rightarrow> int \<Rightarrow> audit_row list" where
  "audit_for_user w uid lim =
     take (nat lim) (rev (sort_key a_seq (filter (\<lambda>r.
       a_actor_id r = Some uid \<and> a_event_type r \<in> set HISTORY_EVENTS) (w_audit w))))"

definition audit_verify_chain :: "ext \<Rightarrow> world \<Rightarrow> int \<Rightarrow> chain_status" where
  "audit_verify_chain x w from_seq = verify_audit_chain (sha256 x) (pg x) (w_audit w) from_seq"

definition audit_head :: "world \<Rightarrow> (int \<times> instant \<times> bytes) option" where
  "audit_head w = audit_chain_head (w_audit w)"

end
