(* ===== verification/Invariants.thy ===== *)
theory Invariants
  imports Repositories
begin

text \<open>
  Two things every statement of the repositories keeps, stated once for all of them.
  \<open>db_inv\<close> is the well-formedness of the state: keys are unique, references resolve, CHECK
  constraints hold, at most one live grant per user and door, the audit log is a chain numbered
  below the next number, the hub satisfies its invariant. \<open>progress\<close> is what never goes back: the
  clock, the audit log as a prefix, and per row what cannot be undone (a token's identity and
  owner, its use and its revocation; the use of an enrolment code; the keys of a device or controller
  and that it is blocked). \<open>safe\<close> is both; it is a frame
  relation, so a handler keeps it because its statements do.
\<close>

section \<open>Progress\<close>

definition grows :: "('r \<Rightarrow> 'r \<Rightarrow> bool) \<Rightarrow> 'r list \<Rightarrow> 'r list \<Rightarrow> bool" where
  "grows R xs ys \<longleftrightarrow> (\<exists>zs new. ys = zs @ new \<and> list_all2 R xs zs)"

definition token_step :: "token_row \<Rightarrow> token_row \<Rightarrow> bool" where
  "token_step t t' \<longleftrightarrow> t' = t\<lparr>t_used_at := t_used_at t', t_revoked_at := t_revoked_at t',
       t_revoked_reason := t_revoked_reason t'\<rparr> \<and>
     (t_used_at t \<noteq> None \<longrightarrow> t_used_at t' = t_used_at t) \<and>
     (t_revoked_at t \<noteq> None \<longrightarrow> t_revoked_at t' = t_revoked_at t \<and> t_revoked_reason t' = t_revoked_reason t)"

definition code_step :: "code_row \<Rightarrow> code_row \<Rightarrow> bool" where
  "code_step e e' \<longleftrightarrow> e' = e\<lparr>e_used_at := e_used_at e', e_used_by_device := e_used_by_device e'\<rparr> \<and>
     (e_used_at e \<noteq> None \<longrightarrow> e_used_at e' = e_used_at e)"

definition device_step :: "device_row \<Rightarrow> device_row \<Rightarrow> bool" where
  "device_step d d' \<longleftrightarrow> d_id d' = d_id d \<and> d_user_id d' = d_user_id d \<and> d_public_key d' = d_public_key d \<and>
     (d_is_blocked d \<longrightarrow> d_is_blocked d')"

definition controller_step :: "controller_row \<Rightarrow> controller_row \<Rightarrow> bool" where
  "controller_step c c' \<longleftrightarrow> c_id c' = c_id c \<and> c_code c' = c_code c \<and> c_public_key c' = c_public_key c \<and>
     c_beacon_key c' = c_beacon_key c \<and> (c_is_blocked c \<longrightarrow> c_is_blocked c')"

definition progress :: "world \<Rightarrow> world \<Rightarrow> bool" where
  "progress w w' \<longleftrightarrow> w_now w \<le> w_now w' \<and> prefix (w_audit w) (w_audit w') \<and>
     grows token_step (w_tokens w) (w_tokens w') \<and> grows code_step (w_codes w) (w_codes w') \<and>
     grows device_step (w_devices w) (w_devices w') \<and> grows controller_step (w_controllers w) (w_controllers w')"

lemma grows_refl: "(\<And>x. R x x) \<Longrightarrow> grows R xs xs"
  unfolding grows_def by (intro exI [of _ xs] exI [of _ "[]"]) (simp add: list.rel_refl)

lemma grows_append: "(\<And>x. R x x) \<Longrightarrow> grows R xs (xs @ ys)"
  unfolding grows_def by (intro exI [of _ xs] exI [of _ ys]) (simp add: list.rel_refl)

lemma grows_update: "(\<And>x. R x x) \<Longrightarrow> (\<And>x. p x \<Longrightarrow> R x (f x)) \<Longrightarrow> grows R xs (update_rows p f xs)"
  unfolding grows_def update_rows_def
  by (intro exI [of _ "map (\<lambda>r. if p r then f r else r) xs"] exI [of _ "[]"])
    (simp add: list_all2_conv_all_nth)

lemma grows_trans:
  assumes "grows R xs ys" and "grows R ys zs" and "\<And>x y z. R x y \<Longrightarrow> R y z \<Longrightarrow> R x z"
  shows "grows R xs zs"
proof -
  obtain ys1 ys2 where ys: "ys = ys1 @ ys2" "list_all2 R xs ys1" using assms(1) by (auto simp: grows_def)
  obtain zs1 zs2 where zs: "zs = zs1 @ zs2" "list_all2 R ys zs1" using assms(2) by (auto simp: grows_def)
  from zs(2) obtain u v where uv: "zs1 = u @ v" "list_all2 R ys1 u"
    unfolding ys(1) list_all2_append1 by blast
  have "list_all2 R xs u" using list_all2_trans [OF assms(3) ys(2) uv(2)] .
  then show ?thesis unfolding grows_def zs(1) uv(1) by (intro exI [of _ u] exI [of _ "v @ zs2"]) simp
qed

lemma grows_member: "grows R xs ys \<Longrightarrow> x \<in> set xs \<Longrightarrow> \<exists>y \<in> set ys. R x y"
  by (force simp: grows_def list_all2_conv_all_nth in_set_conv_nth)

lemma token_step_refl [simp]: "token_step t t"
  by (simp add: token_step_def)

lemma token_step_trans: "token_step s t \<Longrightarrow> token_step t u \<Longrightarrow> token_step s u"
  by (cases s; cases t; cases u) (auto simp: token_step_def)

lemma code_step_refl [simp]: "code_step e e"
  by (simp add: code_step_def)

lemma code_step_trans: "code_step s t \<Longrightarrow> code_step t u \<Longrightarrow> code_step s u"
  by (cases s; cases t; cases u) (auto simp: code_step_def)

lemma device_step_refl [simp]: "device_step d d"
  by (simp add: device_step_def)

lemma device_step_trans: "device_step s t \<Longrightarrow> device_step t u \<Longrightarrow> device_step s u"
  by (auto simp: device_step_def)

lemma controller_step_refl [simp]: "controller_step c c"
  by (simp add: controller_step_def)

lemma controller_step_trans: "controller_step s t \<Longrightarrow> controller_step t u \<Longrightarrow> controller_step s u"
  by (auto simp: controller_step_def)

lemma progress_refl [simp]: "progress w w"
  by (simp add: progress_def grows_refl)

lemma progress_trans: "progress u v \<Longrightarrow> progress v w \<Longrightarrow> progress u w"
  by (auto simp: progress_def intro: grows_trans token_step_trans code_step_trans device_step_trans controller_step_trans
      prefix_order.trans)

section \<open>Well-formed states\<close>

definition keys_ok :: "world \<Rightarrow> bool" where
  "keys_ok w \<longleftrightarrow>
     distinct (map u_id (w_users w)) \<and> distinct (map d_id (w_devices w)) \<and> distinct (map d_public_key (w_devices w)) \<and>
     distinct (map e_id (w_codes w)) \<and> distinct (map e_code_hash (w_codes w)) \<and>
     distinct (map c_id (w_controllers w)) \<and> distinct (map c_code (w_controllers w)) \<and>
     distinct (map dr_id (w_doors w)) \<and> distinct (map dr_code (w_doors w)) \<and>
     distinct (map p_id (w_permissions w)) \<and>
     distinct (map t_id (w_tokens w)) \<and> distinct (map t_token_hash (w_tokens w))"

definition refs_ok :: "world \<Rightarrow> bool" where
  "refs_ok w \<longleftrightarrow>
     set (map d_user_id (w_devices w)) \<subseteq> set (map u_id (w_users w)) \<and>
     set (map e_user_id (w_codes w)) \<subseteq> set (map u_id (w_users w)) \<and>
     set (map p_user_id (w_permissions w)) \<subseteq> set (map u_id (w_users w)) \<and>
     set (map p_door_id (w_permissions w)) \<subseteq> set (map dr_id (w_doors w)) \<and>
     set (map t_user_id (w_tokens w)) \<subseteq> set (map u_id (w_users w)) \<and>
     set (map t_device_id (w_tokens w)) \<subseteq> set (map d_id (w_devices w)) \<and>
     (\<forall>d \<in> set (w_doors w). \<forall>cid. dr_controller_id d = Some cid \<longrightarrow> cid \<in> set (map c_id (w_controllers w)))"

definition door_checks :: "door_row \<Rightarrow> bool" where
  "door_checks d \<longleftrightarrow> 1 \<le> dr_unlock_seconds d \<and> dr_unlock_seconds d \<le> 10 \<and> 1 \<le> dr_relay_channel d \<and> dr_relay_channel d \<le> 4"

definition checks_ok :: "world \<Rightarrow> bool" where
  "checks_ok w \<longleftrightarrow>
     (\<forall>d \<in> set (w_doors w). door_checks d) \<and> (\<forall>p \<in> set (w_permissions w). permission_checks p) \<and>
     (\<forall>t \<in> set (w_tokens w). length (t_token_hash t) = 32 \<and> t_issued_at t < t_expires_at t) \<and>
     (\<forall>c \<in> set (w_controllers w). length (c_beacon_key c) = 32)"

definition grants_ok :: "world \<Rightarrow> bool" where
  "grants_ok w \<longleftrightarrow> distinct (map (\<lambda>p. (p_user_id p, p_door_id p)) (filter p_is_active (w_permissions w)))"

definition audit_ok :: "ext \<Rightarrow> world \<Rightarrow> bool" where
  "audit_ok x w \<longleftrightarrow> chained (sha256 x) (pg x) (w_audit w) \<and> 0 < w_audit_seq w \<and>
     (\<forall>r \<in> set (w_audit w). a_seq r < w_audit_seq w)"

definition db_inv :: "ext \<Rightarrow> world \<Rightarrow> bool" where
  "db_inv x w \<longleftrightarrow> keys_ok w \<and> refs_ok w \<and> checks_ok w \<and> grants_ok w \<and> audit_ok x w \<and> hub_inv (w_hub w)"

lemmas db_inv_defs = db_inv_def keys_ok_def refs_ok_def checks_ok_def grants_ok_def audit_ok_def

definition safe :: "ext \<Rightarrow> world \<Rightarrow> world \<Rightarrow> bool" where
  "safe x w w' \<longleftrightarrow> progress w w' \<and> (db_inv x w \<longrightarrow> db_inv x w')"

interpretation safe: frame_rel "safe x" for x
  by unfold_locales (auto simp: safe_def intro: progress_trans)

lemma evolves_safe:
  assumes "evolves (safe x) m" and "m w = (r, w')"
  shows "safe x w w'" and "progress w w'" and "db_inv x w \<Longrightarrow> db_inv x w'"
proof -
  have "safe x w (snd (m w))" using assms(1) by (simp add: evolves_def)
  then show "safe x w w'" "progress w w'" "db_inv x w \<Longrightarrow> db_inv x w'" by (simp_all add: assms(2) safe_def)
qed

section \<open>Every statement is safe\<close>

lemma user_exists_iff: "user_exists w uid \<longleftrightarrow> uid \<in> set (map u_id (w_users w))"
  by (auto simp: user_exists_def list_ex_iff)

lemma by_id_None:
  "devices_by_id w did = None \<longleftrightarrow> did \<notin> set (map d_id (w_devices w))"
  "controllers_by_id w cid = None \<longleftrightarrow> cid \<notin> set (map c_id (w_controllers w))"
  "users_by_id w uid = None \<longleftrightarrow> uid \<notin> set (map u_id (w_users w))"
  by (auto simp: devices_by_id_def controllers_by_id_def users_by_id_def find_None_iff)

lemma list_ex_key: "list_ex (\<lambda>r. key r = k) rows \<longleftrightarrow> k \<in> set (map key rows)"
  by (auto simp: list_ex_iff)

lemma map_filter_update:
  "(\<And>r. g (f r) = g r) \<Longrightarrow> (\<And>r. q (f r) = q r) \<Longrightarrow> map g (filter q (update_rows p f rows)) = map g (filter q rows)"
  by (induction rows) simp_all

lemma distinct_deactivate:
  assumes "distinct (map g (filter q rows))" and "\<And>r. q (f r) \<Longrightarrow> q r" and "\<And>r. g (f r) = g r"
  shows "distinct (map g (filter q (update_rows p f rows)))"
proof -
  have sub: "g ` {r \<in> set (update_rows p f rows). q r} \<subseteq> g ` {r \<in> set rows. q r}" for rows
    using assms(2,3) by (auto simp: update_rows_set)
  have eq: "g (if p r then f r else r) = g r" for r using assms(3) by simp
  show ?thesis using assms(1)
  proof (induction rows)
    case (Cons r rs)
    then show ?case using sub [of rs] assms(2) [of r] eq [of r] by (simp split: if_splits) blast+
  qed simp
qed

lemmas run_simps = comp_simps insert_checked_def draw_uuid_def draw_bytes_def Let_def

lemma safe_sleep [frame_intros]: "evolves (safe x) (sleep d)"
  by (simp add: evolves_def sleep_def run_simps safe_def progress_def grows_refl db_inv_defs)

lemma safe_draw_uuid [frame_intros]: "evolves (safe x) (draw_uuid x')"
  by (simp add: evolves_def run_simps safe_def progress_def grows_refl db_inv_defs)

lemma safe_draw_bytes [frame_intros]: "evolves (safe x) (draw_bytes x' n)"
  by (simp add: evolves_def run_simps safe_def progress_def grows_refl db_inv_defs)

lemma safe_users_create [frame_intros]: "evolves (safe x) (users_create x' a b c d)"
  by (auto simp: evolves_def users_create_def run_simps safe_def progress_def grows_refl db_inv_defs user_exists_iff)

lemma safe_users_touch_login [frame_intros]: "evolves (safe x) (users_touch_login uid)"
  by (simp add: evolves_def users_touch_login_def run_simps safe_def progress_def grows_refl db_inv_defs update_rows_map
      del: set_map)

lemma safe_users_set_active [frame_intros]: "evolves (safe x) (users_set_active uid b)"
  by (simp add: evolves_def users_set_active_def run_simps safe_def progress_def grows_refl db_inv_defs update_rows_map
      del: set_map)

lemma safe_devices_create [frame_intros]: "evolves (safe x) (devices_create x' a b c d e f g)"
  by (auto simp: evolves_def devices_create_def run_simps safe_def progress_def grows_refl grows_append db_inv_defs
      user_exists_iff by_id_None list_ex_iff)

lemma safe_devices_touch_seen [frame_intros]: "evolves (safe x) (devices_touch_seen did)"
  by (auto simp: evolves_def devices_touch_seen_def run_simps safe_def progress_def grows_refl db_inv_defs
      update_rows_map device_step_def intro!: grows_update simp del: set_map)

lemma safe_devices_block [frame_intros]: "evolves (safe x) (devices_block did r)"
  by (auto simp: evolves_def devices_block_def run_simps safe_def progress_def grows_refl db_inv_defs
      update_rows_map device_step_def intro!: grows_update simp del: set_map)

lemma safe_enrollments_create [frame_intros]: "evolves (safe x) (enrollments_create x' a b c d)"
  by (auto simp: evolves_def enrollments_create_def run_simps safe_def progress_def grows_refl grows_append db_inv_defs
      user_exists_iff list_ex_iff)

lemma safe_enrollments_claim [frame_intros]: "evolves (safe x) (enrollments_claim h)"
  by (auto simp: evolves_def enrollments_claim_def run_simps safe_def progress_def grows_refl db_inv_defs
      update_rows_map open_code_def code_step_def intro!: grows_update simp del: set_map)

lemma safe_enrollments_attach [frame_intros]: "evolves (safe x) (enrollments_attach_device e d)"
  by (auto simp: evolves_def enrollments_attach_device_def run_simps safe_def progress_def grows_refl db_inv_defs
      update_rows_map code_step_def intro!: grows_update simp del: set_map)

lemma safe_controllers_register [frame_intros]: "evolves (safe x) (controllers_register x' a b c d)"
  by (auto simp: evolves_def controllers_register_def run_simps safe_def progress_def grows_refl grows_append db_inv_defs list_ex_iff)

lemma safe_controllers_touch_seen [frame_intros]: "evolves (safe x) (controllers_touch_seen x' a b c)"
  by (auto simp: evolves_def controllers_touch_seen_def run_simps safe_def progress_def grows_refl db_inv_defs
      update_rows_map update_rows_set controller_step_def intro!: grows_update simp del: set_map)

lemma safe_controllers_block [frame_intros]: "evolves (safe x) (controllers_block a b)"
  by (auto simp: evolves_def controllers_block_def run_simps safe_def progress_def grows_refl db_inv_defs
      update_rows_map update_rows_set controller_step_def intro!: grows_update simp del: set_map)

lemma safe_doors_create [frame_intros]: "evolves (safe x) (doors_create x' a b c d e f)"
  by (auto simp: evolves_def doors_create_def run_simps safe_def progress_def grows_refl db_inv_defs list_ex_iff
      by_id_None door_checks_def split: option.splits)

lemma permission_checks_active [simp]: "permission_checks (p\<lparr>p_is_active := b\<rparr>) = permission_checks p"
  by (simp add: permission_checks_def split: option.split)

lemma safe_permissions_revoke [frame_intros]: "evolves (safe x) (permissions_revoke a)"
  by (auto simp: evolves_def permissions_revoke_def run_simps safe_def progress_def grows_refl db_inv_defs
      update_rows_map update_rows_set intro!: distinct_deactivate simp del: set_map)

lemma grants_unique:
  assumes "grants_ok w" and "p \<in> set (w_permissions w)" and "q \<in> set (w_permissions w)"
    and "live_grant uid did p" and "live_grant uid did q"
  shows "p = q"
proof -
  have "inj_on (\<lambda>p. (p_user_id p, p_door_id p)) (set (filter p_is_active (w_permissions w)))"
    using assms(1) by (simp add: grants_ok_def distinct_map)
  then show ?thesis by (rule inj_onD) (use assms in \<open>simp_all add: live_grant_def\<close>)
qed

lemma db_inv_permissions:
  assumes "db_inv x w"
    and "distinct (map p_id ps)" and "set (map p_user_id ps) \<subseteq> set (map u_id (w_users w))"
    and "set (map p_door_id ps) \<subseteq> set (map dr_id (w_doors w))" and "\<forall>p \<in> set ps. permission_checks p"
    and "distinct (map (\<lambda>p. (p_user_id p, p_door_id p)) (filter p_is_active ps))"
  shows "db_inv x (w\<lparr>w_draws := n, w_permissions := ps\<rparr>)"
  using assms by (simp add: db_inv_defs)

lemma safe_permissions_grant [frame_intros]: "evolves (safe x) (permissions_grant x' uid did creator days t0 t1 tz til)"
  unfolding evolves_def
proof
  fix w :: world
  let ?n = "w_draws w + 1"
  have draw: "safe x w (w\<lparr>w_draws := ?n\<rparr>)"
    by (simp add: safe_def progress_def grows_refl db_inv_defs)
  have ins: "safe x w (w\<lparr>w_draws := ?n, w_permissions := w_permissions w @ [row]\<rparr>)"
    if "find (live_grant uid did) (w_permissions w) = None" and "permission_checks row"
      and "p_user_id row = uid" "p_door_id row = did" and "uid \<in> set (map u_id (w_users w))"
      and "did \<in> set (map dr_id (w_doors w))" and "p_id row \<notin> set (map p_id (w_permissions w))" for row
  proof -
    have "(p_user_id row, p_door_id row) \<notin> (\<lambda>p. (p_user_id p, p_door_id p)) ` set (filter p_is_active (w_permissions w))"
      using that by (auto simp: find_None_iff live_grant_def)
    then have "db_inv x w \<Longrightarrow> db_inv x (w\<lparr>w_draws := ?n, w_permissions := w_permissions w @ [row]\<rparr>)"
      using that by (intro db_inv_permissions) (auto simp: db_inv_defs)
    then show ?thesis by (simp add: safe_def progress_def grows_refl)
  qed
  have upd: "safe x w (w\<lparr>w_draws := ?n, w_permissions := update_rows (live_grant uid did) f (w_permissions w)\<rparr>)"
    if hit: "find (live_grant uid did) (w_permissions w) = Some p" "permission_checks (f p)"
      and f: "\<And>q. p_id (f q) = p_id q" "\<And>q. p_user_id (f q) = p_user_id q" "\<And>q. p_door_id (f q) = p_door_id q"
        "\<And>q. p_is_active (f q) = p_is_active q" for p f
  proof -
    have "permission_checks (f q)" if "db_inv x w" "q \<in> set (w_permissions w)" "live_grant uid did q" for q
      using grants_unique [of w q p uid did] find_SomeD [OF hit(1)] that hit(2) by (auto simp: db_inv_def)
    then have "db_inv x w \<Longrightarrow> db_inv x (w\<lparr>w_draws := ?n, w_permissions := update_rows (live_grant uid did) f (w_permissions w)\<rparr>)"
      by (intro db_inv_permissions)
        (auto simp: update_rows_map map_filter_update f update_rows_set db_inv_defs simp del: set_map)
    then show ?thesis by (simp add: safe_def progress_def grows_refl)
  qed
  show "safe x w (snd (permissions_grant x' uid did creator days t0 t1 tz til w))"
    using draw
    by (auto simp: permissions_grant_def run_simps user_exists_iff list_ex_key split: option.split
        intro!: ins [unfolded Suc_eq_plus1 [symmetric]] upd [unfolded Suc_eq_plus1 [symmetric]] simp del: set_map)
qed

lemma safe_permissions_effective [frame_intros]: "evolves (safe x) (permissions_effective x' a b)"
  by (auto simp: evolves_def permissions_effective_def run_simps safe_def split: option.split)

lemma safe_tokens_insert [frame_intros]: "evolves (safe x) (tokens_insert x' a b c d e f g)"
  by (auto simp: evolves_def tokens_insert_def token_row_of_def run_simps safe_def progress_def grows_refl grows_append db_inv_defs
      list_ex_iff by_id_None user_exists_iff split: option.splits)

lemma safe_tokens_mark_used [frame_intros]: "evolves (safe x) (tokens_mark_used a)"
  by (auto simp: evolves_def tokens_mark_used_def run_simps safe_def progress_def grows_refl db_inv_defs
      update_rows_map update_rows_set token_step_def intro!: grows_update simp del: set_map)

lemma safe_revoke_where [frame_intros]: "evolves (safe x) (revoke_where q r)"
  by (auto simp: evolves_def revoke_where_def revoke_row_def run_simps safe_def progress_def grows_refl db_inv_defs
      update_rows_map update_rows_set token_step_def intro!: grows_update simp del: set_map)

lemma safe_tokens_revoke [frame_intros]: "evolves (safe x) (tokens_revoke a b)"
  unfolding tokens_revoke_def by (intro frame_intros)

lemma safe_tokens_revoke_family [frame_intros]: "evolves (safe x) (tokens_revoke_family a b)"
  unfolding tokens_revoke_family_def by (intro frame_intros)

lemma safe_tokens_revoke_device [frame_intros]: "evolves (safe x) (tokens_revoke_device_sessions a b)"
  unfolding tokens_revoke_device_sessions_def by (intro frame_intros)

lemma safe_rate_record_failure [frame_intros]: "evolves (safe x) (rate_record_failure x' a b c d)"
  by (auto simp: evolves_def rate_record_failure_def run_simps safe_def progress_def grows_refl db_inv_defs)

lemma audit_push_ok:
  assumes "audit_ok x w"
  shows "audit_ok x (audit_push x a b c w)"
proof -
  have "chained (sha256 x) (pg x) (w_audit w @ [audit_hash_chain (sha256 x) (pg x) (w_audit w) (audit_row_of w a b c)])"
    using assms by (intro chained_snoc) (simp_all add: audit_ok_def audit_row_of_def)
  moreover have "a_seq (audit_hash_chain (sha256 x) (pg x) (w_audit w) (audit_row_of w a b c)) = w_audit_seq w"
    by (simp add: audit_hash_chain_def audit_row_of_def Let_def)
  ultimately show ?thesis using assms by (auto simp: audit_ok_def audit_push_def)
qed

lemma safe_audit_append [frame_intros]: "evolves (safe x) (audit_append x a b c)"
proof -
  have "progress w (audit_push x a b c w)" for w
    by (simp add: audit_push_def progress_def grows_refl)
  moreover have "db_inv x w \<Longrightarrow> db_inv x (audit_push x a b c w)" for w
    using audit_push_ok [of x w]
    by (simp add: db_inv_def keys_ok_def refs_ok_def checks_ok_def grants_ok_def) (simp add: audit_push_def)
  ultimately show ?thesis by (simp add: evolves_def audit_append_def run_simps safe_def)
qed

end
