(* ===== verification/Security.thy ===== *)
theory Security
  imports Invariants
begin

text \<open>
  \<^verbatim>\<open>backend/app/core/security.py\<close> (tokens, passwords, response padding) and
  \<^verbatim>\<open>backend/app/services/audit_service.py\<close>. Argon2 is a parameter; hashing and verifying
  take the time the parameters in the stored hash ask for, which is what the padding has to hide.
\<close>

section \<open>Tokens\<close>

definition TOKEN_BYTES :: nat where
  "TOKEN_BYTES = 32"

text \<open>\<^verbatim>\<open>secrets.token_urlsafe(n)\<close>.\<close>

definition token_urlsafe :: "ext \<Rightarrow> nat \<Rightarrow> string io" where
  "token_urlsafe x n = bindE (draw_bytes x n) (\<lambda>raw. ret (urlsafe_nopad raw))"

definition new_token :: "ext \<Rightarrow> string io" where
  "new_token x = token_urlsafe x TOKEN_BYTES"

definition hash_token :: "ext \<Rightarrow> settings \<Rightarrow> string \<Rightarrow> exn + bytes" where
  "hash_token x st token = bindS (pepper_bytes st) (\<lambda>pepper. Inr (sha256 x (pepper @ utf8 token)))"

definition tokens_equal :: "bytes \<Rightarrow> bytes \<Rightarrow> bool" where
  "tokens_equal a b = (a = b)"

definition constant_time_compare :: "string \<Rightarrow> string \<Rightarrow> bool" where
  "constant_time_compare a b = (utf8 a = utf8 b)"

section \<open>Passwords\<close>

definition hasher_params :: "settings \<Rightarrow> int \<times> int \<times> int" where
  "hasher_params st = (argon2_time_cost st, argon2_memory_kib st, argon2_parallelism st)"

definition hash_password :: "ext \<Rightarrow> settings \<Rightarrow> string \<Rightarrow> string io" where
  "hash_password x st password =
     bindE (draw_bytes x 16) (\<lambda>salt.
       let stored = argon2_hash x (hasher_params st) salt password
       in bindE (sleep (argon2_cost x stored)) (\<lambda>_. ret stored))"

fun is_mismatch :: "exn \<Rightarrow> bool" where
  "is_mismatch (VerificationError m) = (m = ''mismatch'')"
| "is_mismatch e = is_ValueError e"

definition verify_password :: "ext \<Rightarrow> string \<Rightarrow> string \<Rightarrow> bool io" where
  "verify_password x stored_hash password =
     bindE (sleep (argon2_cost x stored_hash)) (\<lambda>_.
       case argon2_verify x stored_hash password of
         Inr _ \<Rightarrow> ret True
       | Inl e \<Rightarrow> if is_mismatch e then ret False else throw e)"

definition burn_password_time :: "ext \<Rightarrow> settings \<Rightarrow> unit io" where
  "burn_password_time x st =
     bindE (gets (\<lambda>w. map_of (w_dummy_hashes w) (hasher_params st))) (\<lambda>cached.
     bindE (case cached of
              Some stored \<Rightarrow> ret stored
            | None \<Rightarrow>
                bindE (hash_password x st (dummy_password x)) (\<lambda>stored.
                bindE (puts (\<lambda>w. w\<lparr>w_dummy_hashes := (hasher_params st, stored) # w_dummy_hashes w\<rparr>)) (\<lambda>_.
                  ret stored))) (\<lambda>stored.
     bindE (verify_password x stored ''definitely not the password'') (\<lambda>_. ret ())))"

section \<open>Response padding\<close>

definition fixed_duration :: "int \<Rightarrow> 'a io \<Rightarrow> 'a io" where
  "fixed_duration milliseconds body =
     bindE current_time (\<lambda>started.
       finallyE body
         (bindE current_time (\<lambda>finished.
            let remaining = milliseconds * 1000 - (finished - started)
            in if 0 < remaining then sleep remaining else ret ())))"

section \<open>Audit service\<close>

definition entry :: "string \<Rightarrow> audit_entry" where
  "entry actor_type = \<lparr>en_actor_type = actor_type, en_actor_id = None, en_device_id = None, en_door_id = None,
     en_controller_id = None, en_client_ip = None, en_detail = []\<rparr>"

definition audit_record :: "ext \<Rightarrow> string \<Rightarrow> string \<Rightarrow> audit_entry \<Rightarrow> int io" where
  "audit_record x event outcome en = audit_append x event outcome en"

definition audit_success :: "ext \<Rightarrow> AuditEvent \<Rightarrow> audit_entry \<Rightarrow> int io" where
  "audit_success x event en = audit_record x (event_value event) ''success'' en"

definition audit_failure :: "ext \<Rightarrow> AuditEvent \<Rightarrow> audit_entry \<Rightarrow> int io" where
  "audit_failure x event en = audit_record x (event_value event) ''failure'' en"

definition audit_denied :: "ext \<Rightarrow> AuditEvent \<Rightarrow> audit_entry \<Rightarrow> int io" where
  "audit_denied x event en = audit_record x (event_value event) ''denied'' en"

definition audit_chain_status :: "ext \<Rightarrow> int \<Rightarrow> chain_status io" where
  "audit_chain_status x from_seq = gets (\<lambda>w. audit_verify_chain x w from_seq)"

section \<open>Frames\<close>

lemmas audit_calls = audit_success_def audit_failure_def audit_denied_def audit_record_def

lemma safe_audit_calls [frame_intros]:
  "evolves (safe x) (audit_record x a b c)" "evolves (safe x) (audit_success x e c)"
  "evolves (safe x) (audit_failure x e c)" "evolves (safe x) (audit_denied x e c)"
  unfolding audit_calls by (intro frame_intros)+

lemma safe_current_time [frame_intros]: "evolves (safe x) current_time"
  unfolding current_time_def by (intro frame_intros)

lemma safe_new_token [frame_intros]: "evolves (safe x) (new_token x')"
  unfolding new_token_def token_urlsafe_def by (intro frame_intros)

lemma safe_hash_password [frame_intros]: "evolves (safe x) (hash_password x' st p)"
  unfolding hash_password_def by (intro frame_intros)

lemma safe_verify_password [frame_intros]: "evolves (safe x) (verify_password x' h p)"
  unfolding verify_password_def by (intro frame_intros)

lemma safe_burn [frame_intros]: "evolves (safe x) (burn_password_time x' st)"
  unfolding burn_password_time_def
  by (intro frame_intros) (simp add: safe_def progress_def grows_refl db_inv_defs)

lemma safe_fixed_duration [frame_intros]: "evolves (safe x) m \<Longrightarrow> evolves (safe x) (fixed_duration ms m)"
  unfolding fixed_duration_def by (intro frame_intros)

section \<open>Lemmas\<close>

lemma audit_record_run:
  "audit_record x ev oc en w =
     (if audit_accepts x oc en then (Inr (w_audit_seq w), audit_push x ev oc en w)
      else (Inl (DatabaseError ''audit_log''), w))"
  by (simp add: audit_record_def audit_append_def run_simps)

lemma hash_token_eq: "pepper_bytes st = Inr p \<Longrightarrow> hash_token x st token = Inr (sha256 x (p @ utf8 token))"
  by (simp add: hash_token_def)

lemma constant_time_compare_iff: "constant_time_compare a b \<longleftrightarrow> a = b"
  by (simp add: constant_time_compare_def utf8_inj)

end
