(* ===== verification/Rate_Limit.thy ===== *)
theory Rate_Limit
  imports Security
begin

text \<open>
  \<^verbatim>\<open>backend/app/core/ratelimit.py\<close>: the decisions of the limiter and what it records. The process
  memory \<^verbatim>\<open>_recent\<close> is kept as the code keeps it, although no decision reads it.
\<close>

record rate_decision =
  rd_allowed :: bool
  rd_delay_ms :: int
  rd_retry_after_seconds :: int
  rd_failures :: int
  rd_subject_type :: string

definition remember_bucket :: "settings \<Rightarrow> instant \<Rightarrow> instant list \<Rightarrow> instant list" where
  "remember_bucket st now old = filter (\<lambda>t. now - t < seconds (rate_window_seconds st)) old @ [now]"

definition remember :: "settings \<Rightarrow> string \<Rightarrow> string \<Rightarrow> int io" where
  "remember st subject_type subject =
     bindE (gets (\<lambda>w. remember_bucket st (w_now w)
              (case map_of (w_recent w) (subject_type, subject) of None \<Rightarrow> [] | Some ts \<Rightarrow> ts))) (\<lambda>bucket.
     bindE (puts (\<lambda>w. w\<lparr>w_recent := ((subject_type, subject), bucket) #
              filter (\<lambda>kv. fst kv \<noteq> (subject_type, subject)) (w_recent w)\<rparr>)) (\<lambda>_.
       ret (int (length bucket))))"

definition progressive_delay_ms :: "settings \<Rightarrow> int \<Rightarrow> int" where
  "progressive_delay_ms st failures =
     (if failures \<le> 0 then 0
      else min (rate_base_delay_ms st * 2 ^ nat (failures - 1)) (rate_max_delay_ms st))"

definition login_decision :: "settings \<Rightarrow> int \<Rightarrow> int \<Rightarrow> rate_decision" where
  "login_decision st by_user by_ip =
     (let failures = max by_user by_ip;
          subject_type = (if by_ip \<le> by_user then ''user'' else ''ip'')
      in if rate_max_login_failures st \<le> failures
         then \<lparr>rd_allowed = False, rd_delay_ms = rate_max_delay_ms st,
               rd_retry_after_seconds = rate_window_seconds st, rd_failures = failures,
               rd_subject_type = subject_type\<rparr>
         else \<lparr>rd_allowed = True, rd_delay_ms = progressive_delay_ms st failures,
               rd_retry_after_seconds = 0, rd_failures = failures, rd_subject_type = subject_type\<rparr>)"

text \<open>\<^verbatim>\<open>if client_ip\<close>: absent or empty is false.\<close>

definition ip_given :: "string option \<Rightarrow> bool" where
  "ip_given ip = (case ip of None \<Rightarrow> False | Some s \<Rightarrow> s \<noteq> [])"

definition check_login :: "settings \<Rightarrow> string \<Rightarrow> string option \<Rightarrow> rate_decision io" where
  "check_login st username client_ip =
     bindE (gets (\<lambda>w. rate_failure_count w ''user'' (py_lower username) (rate_window_seconds st) None)) (\<lambda>by_user.
     bindE (if ip_given client_ip
            then gets (\<lambda>w. rate_failure_count w ''ip'' (the client_ip) (rate_window_seconds st) None)
            else ret 0) (\<lambda>by_ip.
       ret (login_decision st by_user by_ip)))"

definition unlock_decision :: "settings \<Rightarrow> int \<Rightarrow> rate_decision" where
  "unlock_decision st attempts =
     (if rate_max_unlocks_per_minute st \<le> attempts
      then \<lparr>rd_allowed = False, rd_delay_ms = 0, rd_retry_after_seconds = 60, rd_failures = attempts,
            rd_subject_type = ''user''\<rparr>
      else \<lparr>rd_allowed = True, rd_delay_ms = 0, rd_retry_after_seconds = 0, rd_failures = attempts,
            rd_subject_type = ''user''\<rparr>)"

definition check_unlock :: "settings \<Rightarrow> uuid \<Rightarrow> uuid \<Rightarrow> rate_decision io" where
  "check_unlock st user_id device_id =
     bindE (gets (\<lambda>w. rate_unlock_count w user_id 60)) (\<lambda>attempts. ret (unlock_decision st attempts))"

definition record_login_failure :: "ext \<Rightarrow> settings \<Rightarrow> string \<Rightarrow> string option \<Rightarrow> string \<Rightarrow> unit io" where
  "record_login_failure x st username client_ip endpoint =
     bindE (rate_record_failure x ''user'' (py_lower username) endpoint client_ip) (\<lambda>_.
     bindE (remember st ''user'' (py_lower username)) (\<lambda>_.
       if ip_given client_ip then
         bindE (rate_record_failure x ''ip'' (the client_ip) endpoint client_ip) (\<lambda>_.
         bindE (remember st ''ip'' (the client_ip)) (\<lambda>_. ret ()))
       else ret ()))"

definition record_device_failure :: "ext \<Rightarrow> settings \<Rightarrow> uuid \<Rightarrow> string option \<Rightarrow> string \<Rightarrow> unit io" where
  "record_device_failure x st device_id client_ip endpoint =
     bindE (rate_record_failure x ''device'' device_id endpoint client_ip) (\<lambda>_.
     bindE (remember st ''device'' device_id) (\<lambda>_. ret ()))"

definition apply_delay :: "rate_decision \<Rightarrow> unit io" where
  "apply_delay decision = (if 0 < rd_delay_ms decision then sleep (rd_delay_ms decision * 1000) else ret ())"

section \<open>Frames\<close>

lemma safe_remember [frame_intros]: "evolves (safe x) (remember st a b)"
  unfolding remember_def by (intro frame_intros) (simp add: safe_def progress_def grows_refl db_inv_defs)

lemma safe_check_login [frame_intros]: "evolves (safe x) (check_login st a b)"
  unfolding check_login_def by (intro frame_intros)

lemma safe_check_unlock [frame_intros]: "evolves (safe x) (check_unlock st a b)"
  unfolding check_unlock_def by (intro frame_intros)

lemma safe_record_login_failure [frame_intros]: "evolves (safe x) (record_login_failure x' st a b c)"
  unfolding record_login_failure_def by (intro frame_intros)

lemma safe_record_device_failure [frame_intros]: "evolves (safe x) (record_device_failure x' st a b c)"
  unfolding record_device_failure_def by (intro frame_intros)

lemma safe_apply_delay [frame_intros]: "evolves (safe x) (apply_delay d)"
  unfolding apply_delay_def by (intro frame_intros)

section \<open>The delay\<close>

text \<open>
  The progressive delay is zero without failures, starts at the base, doubles with each
  further failure until the ceiling, never decreases as failures grow and never exceeds the
  ceiling.
\<close>

theorem progressive_delay_shape:
  assumes "0 \<le> rate_base_delay_ms st" and "rate_base_delay_ms st \<le> rate_max_delay_ms st"
  shows "progressive_delay_ms st 0 = 0 \<and> progressive_delay_ms st 1 = rate_base_delay_ms st
    \<and> (\<forall>n \<ge> 1. progressive_delay_ms st (n + 1) = min (2 * progressive_delay_ms st n) (rate_max_delay_ms st))
    \<and> (\<forall>m n. m \<le> n \<longrightarrow> progressive_delay_ms st m \<le> progressive_delay_ms st n)
    \<and> (\<forall>n. 0 \<le> progressive_delay_ms st n \<and> progressive_delay_ms st n \<le> rate_max_delay_ms st)"
proof (intro conjI allI impI)
  show "progressive_delay_ms st 0 = 0" "progressive_delay_ms st 1 = rate_base_delay_ms st"
    using assms by (simp_all add: progressive_delay_ms_def)
next
  fix n :: int assume n: "1 \<le> n"
  then have "nat (n + 1 - 1) = Suc (nat (n - 1))" by linarith
  then have pow: "(2::int) ^ nat (n + 1 - 1) = 2 * 2 ^ nat (n - 1)" by (simp only: power_Suc)
  show "progressive_delay_ms st (n + 1) = min (2 * progressive_delay_ms st n) (rate_max_delay_ms st)"
    using n assms unfolding progressive_delay_ms_def pow by (simp add: min_def)
next
  fix m n :: int assume "m \<le> n"
  then have "(2::int) ^ nat (m - 1) \<le> 2 ^ nat (n - 1)" by (intro power_increasing nat_mono) simp_all
  then have "rate_base_delay_ms st * 2 ^ nat (m - 1) \<le> rate_base_delay_ms st * 2 ^ nat (n - 1)"
    using assms(1) by (rule mult_left_mono)
  then show "progressive_delay_ms st m \<le> progressive_delay_ms st n"
    using \<open>m \<le> n\<close> assms by (auto simp: progressive_delay_ms_def min_def)
qed (use assms in \<open>auto simp: progressive_delay_ms_def min_def\<close>)

theorem progressive_delay_shape_witness:
  "progressive_delay_ms default_settings 0 = 0 \<and> progressive_delay_ms default_settings 7 \<le> 8000"
  using progressive_delay_shape [of default_settings] by (simp add: default_settings_def)

end
