(* ===== verification/Sample.thy ===== *)
theory Sample
  imports Invariants
begin

text \<open>
  A small installation for the concrete inputs of the development: one user with an enrolled
  phone, one controller with one door, one grant, and stand-ins for the external functions.
\<close>

definition sample_key :: bytes where
  "sample_key = replicate 32 7"

definition sample_settings :: settings where
  "sample_settings = default_settings\<lparr>token_pepper := b64encode sample_key, auth_fixed_response_ms := 5,
     rate_base_delay_ms := 3, rate_max_delay_ms := 20, beacon_rotation_seconds := 30\<rparr>"

definition sample_ext :: ext where
  "sample_ext = \<lparr>
     sha256 = sample_hash, pg = sample_pg, inet_ok = (\<lambda>s. s \<noteq> ''bad''),
     zone_local = (\<lambda>tz t. if tz = ''UTC'' then Some (t mod 86400000000, 1 + (3 + t div 86400000000) mod 7) else None),
     pg_time = (\<lambda>s. Some (if s = ''00:00:00'' then 0 else 86399000000)),
     db_error_name = (\<lambda>_. ''UniqueViolationError''),
     argon2_hash = (\<lambda>_ _ p. ''$'' @ p),
     argon2_verify = (\<lambda>h p. if h = ''$'' @ p then Inr () else Inl (VerificationError ''mismatch'')),
     argon2_cost = (\<lambda>_. 1000), ed25519_verify = (\<lambda>k s m. if s = k then Inr () else Inl (InvalidSignature [])),
     certs = sample_x509,
     signer_io = (\<lambda>_. Reply (encode_request [(''ok'', JBool True), (''signature'', JStr (b64encode sample_key)),
       (''key_id'', JStr ''signer-1'')])),
     controller_io = (\<lambda>code line. Inr (7, [Message [(''command_id'', JStr ''id-0''), (''result'', JStr ''opened'')]])),
     rand_bytes = (\<lambda>n k. replicate k (of_nat n)), rand_uuid = (\<lambda>n. ''id-'' @ nat_digits n),
     dummy_password = ''nobody''\<rparr>"

definition sample_user :: user_row where
  "sample_user = \<lparr>u_id = ''u1'', u_username = ''ann'', u_display_name = ''Ann'', u_password_hash = ''$pw'',
     u_is_admin = False, u_is_active = True, u_created_at = 0, u_updated_at = 0, u_last_login_at = None\<rparr>"

definition sample_device :: device_row where
  "sample_device = \<lparr>d_id = ''d1'', d_user_id = ''u1'', d_label = ''phone'', d_public_key = replicate 32 5,
     d_platform = ''android'', d_app_version = None, d_attestation_status = ''verified'',
     d_attestation_verified_at = Some 0, d_attestation_detail = JObj [], d_is_blocked = False,
     d_blocked_reason = None, d_created_at = 0, d_last_seen_at = None\<rparr>"

definition sample_controller :: controller_row where
  "sample_controller = \<lparr>c_id = ''c1'', c_code = ''ctrl-1'', c_name = ''Controller'', c_public_key = replicate 32 6,
     c_beacon_key = replicate 32 9, c_firmware_version = None, c_is_blocked = False, c_blocked_reason = None,
     c_last_seen_at = None, c_last_ip = None, c_created_at = 0\<rparr>"

definition sample_door :: door_row where
  "sample_door = \<lparr>dr_id = ''o1'', dr_code = ''door-1'', dr_name = ''Front'', dr_location = None,
     dr_controller_id = Some ''c1'', dr_relay_channel = 1, dr_unlock_seconds = 3, dr_is_active = True, dr_created_at = 0\<rparr>"

definition sample_permission :: permission_row where
  "sample_permission = \<lparr>p_id = ''p1'', p_user_id = ''u1'', p_door_id = ''o1'', p_valid_from = 0, p_valid_until = None,
     p_weekday_mask = 127, p_start_time = 0, p_end_time = 86399000000, p_time_zone = ''UTC'', p_is_active = True,
     p_created_by = None, p_created_at = 0\<rparr>"

definition sample_code :: code_row where
  "sample_code = \<lparr>e_id = ''e1'', e_user_id = ''u1'', e_code_hash = sample_hash (utf8 ''enrol-me''), e_created_by = None,
     e_created_at = 0, e_expires_at = 900000000, e_used_at = None, e_used_by_device = None\<rparr>"

definition sample_world :: world where
  "sample_world = \<lparr>
     w_now = 120000000, w_draws = 0, w_users = [sample_user], w_devices = [sample_device], w_codes = [sample_code],
     w_controllers = [sample_controller], w_doors = [sample_door], w_permissions = [sample_permission],
     w_tokens = [], w_failed = [], w_audit = [], w_audit_seq = 1, w_challenges = [], w_recent = [],
     w_dummy_hashes = [], w_hub = online_hub\<rparr>"

lemmas sample_rows = sample_user_def sample_device_def sample_controller_def sample_door_def
  sample_permission_def sample_code_def

lemma sample_world_inv: "db_inv sample_ext sample_world"
proof -
  have "hub_inv online_hub" by (rule hub_inv_reachable [OF online_hub_reachable])
  then show ?thesis
    by (simp add: db_inv_defs sample_world_def sample_rows permission_checks_def door_checks_def chained_def
        seq_sorted_def)
qed

lemma sample_pepper: "pepper_bytes sample_settings = Inr sample_key"
proof -
  have "b64encode sample_key \<noteq> []" by code_simp
  then show ?thesis by (simp add: pepper_bytes_def sample_settings_def b64decode_b64encode)
qed

lemma sample_sign: "sign_command (signer_io sample_ext) cmd = Inr (sample_key, JStr ''signer-1'')"
  by (simp add: sign_command_def client_request_def sample_ext_def encode_request_nonempty decode_encode_line
      response_ok_def response_pair_def obj_get_def b64decode_b64encode)

end
