(* ===== verification/Proximity.thy ===== *)
theory Proximity
  imports Text_Codec Errors
begin

text \<open>
  \<^verbatim>\<open>backend/app/core/proximity.py\<close>: the rotating beacon identifier and the check that a phone
  heard it recently. SHA-256 is the parameter \<open>h\<close>; HMAC is built on it. The clock \<open>now\<close> is in
  microseconds, the rotation and the maximal age in seconds.
\<close>

section \<open>Definitions\<close>

definition BEACON_ID_BYTES :: nat where
  "BEACON_ID_BYTES = 16"

definition beacon_domain :: bytes where
  "beacon_domain = utf8 ''acs-beacon:v1''"

definition slot_for :: "instant \<Rightarrow> int \<Rightarrow> exn + int" where
  "slot_for timestamp rotation_seconds =
     (if rotation_seconds = 0 then Inl ZeroDivisionError
      else Inr (timestamp div seconds rotation_seconds))"

definition derive_beacon_id :: "(bytes \<Rightarrow> bytes) \<Rightarrow> bytes \<Rightarrow> int \<Rightarrow> exn + string" where
  "derive_beacon_id h beacon_key slot =
     (if length beacon_key \<noteq> 32 then Inl (ValueError ''beacon_key must be 32 bytes'')
      else case int_to_bytes 8 slot of
          None \<Rightarrow> Inl OverflowError
        | Some raw \<Rightarrow>
            Inr (urlsafe_nopad (take BEACON_ID_BYTES (hmac_digest h beacon_key (beacon_domain @ raw)))))"

definition acceptable_slots :: "instant \<Rightarrow> int \<Rightarrow> int \<Rightarrow> exn + int list" where
  "acceptable_slots now rotation_seconds max_age_seconds =
     (case slot_for now rotation_seconds of
        Inl e \<Rightarrow> Inl e
      | Inr current \<Rightarrow>
          let span = max 1 (- ((- max_age_seconds) div rotation_seconds))
          in Inr (map (\<lambda>offset. current - offset) [0..span]))"

text \<open>
  \<^verbatim>\<open>hmac.compare_digest\<close> on two strings raises TypeError when one of them is not ASCII; the
  candidate is, so the presented value decides.
\<close>

definition is_ascii :: "string \<Rightarrow> bool" where
  "is_ascii s = list_all (\<lambda>c. (of_char c :: nat) < 128) s"

text \<open>
  The loop over the slots: every candidate is derived and compared, \<open>matched\<close> keeps the first
  slot that fits.
\<close>

fun match_slots :: "(bytes \<Rightarrow> bytes) \<Rightarrow> bytes \<Rightarrow> string \<Rightarrow> int option \<Rightarrow> int list \<Rightarrow> exn + int option" where
  "match_slots h key presented matched [] = Inr matched"
| "match_slots h key presented matched (slot # slots) =
     (case derive_beacon_id h key slot of
        Inl e \<Rightarrow> Inl e
      | Inr candidate \<Rightarrow>
          if \<not> is_ascii presented then Inl TypeError
          else match_slots h key presented
            (if candidate = presented \<and> matched = None then Some slot else matched) slots)"

definition verify_proximity ::
  "(bytes \<Rightarrow> bytes) \<Rightarrow> bytes \<Rightarrow> string \<Rightarrow> int \<Rightarrow> int \<Rightarrow> instant \<Rightarrow> exn + (bool \<times> int option)"
where
  "verify_proximity h beacon_key presented_beacon_id rotation_seconds max_age_seconds now =
     (if presented_beacon_id = [] then Inr (False, None)
      else
        let presented = rstrip_by (\<lambda>c. c = b64_pad) (py_strip presented_beacon_id) in
        case slot_for now rotation_seconds of
          Inl e \<Rightarrow> Inl e
        | Inr current \<Rightarrow>
            (case acceptable_slots now rotation_seconds max_age_seconds of
               Inl e \<Rightarrow> Inl e
             | Inr slots \<Rightarrow>
                 (case match_slots h beacon_key presented None slots of
                    Inl e \<Rightarrow> Inl e
                  | Inr matched \<Rightarrow>
                      (case matched of
                         None \<Rightarrow> Inr (False, None)
                       | Some slot \<Rightarrow> Inr (True, Some ((current - slot) * rotation_seconds))))))"

section \<open>The window of slots\<close>

text \<open>Specification side: the identifier of a slot, the slots covered and the current slot.\<close>

definition beacon_id :: "(bytes \<Rightarrow> bytes) \<Rightarrow> bytes \<Rightarrow> int \<Rightarrow> string" where
  "beacon_id h key slot =
     urlsafe_nopad (take BEACON_ID_BYTES (hmac_digest h key (beacon_domain @ nat_to_bytes 8 (nat slot))))"

definition window_span :: "int \<Rightarrow> int \<Rightarrow> int" where
  "window_span rot age = max 1 (- ((- age) div rot))"

definition slot_at :: "instant \<Rightarrow> int \<Rightarrow> int" where
  "slot_at t rot = t div seconds rot"

definition window :: "instant \<Rightarrow> int \<Rightarrow> int \<Rightarrow> int list" where
  "window now rot age = map (\<lambda>k. slot_at now rot - k) [0..window_span rot age]"

definition normalise :: "string \<Rightarrow> string" where
  "normalise s = rstrip_by (\<lambda>c. c = b64_pad) (py_strip s)"

lemma slot_for_eq: "0 < rot \<Longrightarrow> slot_for now rot = Inr (slot_at now rot)"
  by (simp add: slot_for_def slot_at_def)

lemma acceptable_slots_eq: "0 < rot \<Longrightarrow> acceptable_slots now rot age = Inr (window now rot age)"
  by (simp add: acceptable_slots_def slot_for_eq window_def window_span_def Let_def)

lemma set_window: "set (window now rot age) = {slot_at now rot - window_span rot age .. slot_at now rot}"
proof -
  have "(\<lambda>k. c - k) ` {0..n} = {c - n..c}" for c n :: int
    by (auto intro: image_eqI [where x = "c - x" for x])
  then show ?thesis by (simp add: window_def)
qed

lemma window_span_bounds:
  assumes "0 < rot"
  shows "1 \<le> window_span rot age" and "age \<le> window_span rot age * rot"
    and "0 < age \<Longrightarrow> window_span rot age * rot < age + rot"
proof -
  have q: "- age = ((- age) div rot) * rot + (- age) mod rot" by simp
  have m: "0 \<le> (- age) mod rot" "(- age) mod rot < rot" using assms by simp_all
  have c: "(- ((- age) div rot)) * rot = age + (- age) mod rot"
    using q by linarith
  show "1 \<le> window_span rot age" by (simp add: window_span_def)
  have "(- ((- age) div rot)) * rot \<le> window_span rot age * rot"
    using assms by (intro mult_right_mono) (auto simp: window_span_def)
  then show "age \<le> window_span rot age * rot" using c m by linarith
  assume "0 < age"
  then have "(- age) div rot < 0" using assms by (simp add: div_neg_pos_less0)
  then have "1 \<le> - ((- age) div rot)" by linarith
  then have "window_span rot age = - ((- age) div rot)" by (simp add: window_span_def)
  with c m show "window_span rot age * rot < age + rot" by simp
qed

lemma derive_beacon_id_eq:
  assumes "length key = 32" and "0 \<le> slot" and "slot < 256 ^ 8"
  shows "derive_beacon_id h key slot = Inr (beacon_id h key slot)"
  using assms by (simp add: derive_beacon_id_def int_to_bytes_def beacon_id_def)

text \<open>The loop without an early exit finds the same slot as a search for the first match.\<close>

lemma match_slots_eq:
  assumes "length key = 32" and "is_ascii presented"
    and "\<And>s. s \<in> set slots \<Longrightarrow> 0 \<le> s \<and> s < 256 ^ 8"
  shows "match_slots h key presented matched slots =
    Inr (case matched of Some s \<Rightarrow> Some s | None \<Rightarrow> find (\<lambda>s. beacon_id h key s = presented) slots)"
  using assms(3)
  by (induction slots arbitrary: matched)
    (auto simp: derive_beacon_id_eq assms(1,2) split: option.splits)

lemma slot_at_mono: "0 < rot \<Longrightarrow> t \<le> t' \<Longrightarrow> slot_at t rot \<le> slot_at t' rot"
  by (simp add: slot_at_def zdiv_mono1)

lemma slot_at_recent:
  assumes "0 < rot" and "now - seconds age \<le> t"
  shows "slot_at now rot - window_span rot age \<le> slot_at t rot"
proof -
  have "seconds age \<le> seconds (window_span rot age * rot)"
    using window_span_bounds(2) [OF assms(1)] by simp
  with assms(2) have "now - window_span rot age * seconds rot \<le> t"
    by (simp add: algebra_simps)
  then have "(now - window_span rot age * seconds rot) div seconds rot \<le> slot_at t rot"
    unfolding slot_at_def using assms(1) by (simp add: zdiv_mono1)
  moreover have "(now - window_span rot age * seconds rot) div seconds rot
      = slot_at now rot - window_span rot age"
    using assms(1) div_mult_self1 [of "seconds rot" now "- window_span rot age"]
    by (simp add: slot_at_def)
  ultimately show ?thesis by simp
qed

lemma beacon_id_normal:
  "normalise (beacon_id h key s) = beacon_id h key s" "is_ascii (beacon_id h key s)"
proof -
  show "normalise (beacon_id h key s) = beacon_id h key s"
    unfolding normalise_def beacon_id_def urlsafe_nopad_strip
    by (rule rstrip_by_none) (use urlsafe_nopad_no_pad in auto)
  show "is_ascii (beacon_id h key s)"
    unfolding is_ascii_def beacon_id_def list_all_iff using urlsafe_nopad_graph by fastforce
qed

section \<open>The check\<close>

text \<open>A configuration the deployment uses: 32-byte key, positive rotation, and a clock whose window lies
  within the eight bytes a slot is encoded in.\<close>

definition beacon_config :: "bytes \<Rightarrow> int \<Rightarrow> int \<Rightarrow> instant \<Rightarrow> bool" where
  "beacon_config key rot age now \<longleftrightarrow>
     length key = 32 \<and> 0 < rot \<and> 0 < age \<and>
     window_span rot age \<le> slot_at now rot \<and> slot_at now rot < 256 ^ 8"

lemma verify_proximity_eq:
  assumes "beacon_config key rot age now" and "presented \<noteq> []" and "is_ascii (normalise presented)"
  shows "verify_proximity h key presented rot age now = Inr (
    case find (\<lambda>s. beacon_id h key s = normalise presented) (window now rot age) of
      None \<Rightarrow> (False, None)
    | Some s \<Rightarrow> (True, Some ((slot_at now rot - s) * rot)))"
proof -
  have rot: "0 < rot" and key: "length key = 32" using assms(1) by (simp_all add: beacon_config_def)
  have rng: "0 \<le> s \<and> s < 256 ^ 8" if "s \<in> set (window now rot age)" for s
    using that assms(1) by (auto simp: set_window beacon_config_def)
  note m = match_slots_eq [OF key assms(3), of "window now rot age" h None, OF rng]
  have "presented \<noteq> []" by (rule assms(2))
  then show ?thesis
    by (simp add: verify_proximity_def slot_for_eq [OF rot] acceptable_slots_eq [OF rot]
        normalise_def [symmetric] m Let_def split: option.split)
qed

text \<open>
  Claim C11. An accepted proof names a slot of the freshness window: the presented text is that
  slot's identifier, the reported age is the distance to the current slot, no newer slot of the
  window has the same identifier, and the age is less than the configured maximum plus one
  rotation.
\<close>

theorem verify_proximity_sound:
  assumes "beacon_config key rot age now" and "is_ascii (normalise presented)"
    and "verify_proximity h key presented rot age now = Inr (True, a)"
  shows "\<exists>s. a = Some ((slot_at now rot - s) * rot) \<and> s \<in> set (window now rot age)
    \<and> beacon_id h key s = normalise presented
    \<and> (\<forall>s' \<in> set (window now rot age). s < s' \<longrightarrow> beacon_id h key s' \<noteq> normalise presented)
    \<and> 0 \<le> the a \<and> the a < age + rot"
proof -
  have ne: "presented \<noteq> []" using assms(3) by (auto simp: verify_proximity_def)
  obtain s where f: "find (\<lambda>s. beacon_id h key s = normalise presented) (window now rot age) = Some s"
    and a: "a = Some ((slot_at now rot - s) * rot)"
    using assms(3) unfolding verify_proximity_eq [OF assms(1) ne assms(2)] by (auto split: option.splits)
  have rot: "0 < rot" and ag: "0 < age" using assms(1) by (simp_all add: beacon_config_def)
  from f obtain i where i: "i < length (window now rot age)" "s = window now rot age ! i"
      "beacon_id h key s = normalise presented"
      "\<forall>j < i. beacon_id h key (window now rot age ! j) \<noteq> normalise presented"
    by (auto simp: find_Some_iff)
  have mem: "s \<in> set (window now rot age)" using i by simp
  have newer: "beacon_id h key s' \<noteq> normalise presented" if s': "s' \<in> set (window now rot age)" "s < s'" for s'
  proof -
    from s'(1) obtain j where j: "j < length (window now rot age)" "s' = window now rot age ! j"
      by (auto simp: in_set_conv_nth)
    have "j < i" using j i s'(2) by (auto simp: window_def)
    then show ?thesis using i(4) j(2) by blast
  qed
  have lo: "slot_at now rot - window_span rot age \<le> s" "s \<le> slot_at now rot"
    using mem by (simp_all add: set_window)
  have "(slot_at now rot - s) * rot \<le> window_span rot age * rot"
    using lo rot by (intro mult_right_mono) auto
  also have "\<dots> < age + rot" by (rule window_span_bounds(3) [OF rot ag])
  finally have "the a < age + rot" using a by simp
  moreover have "0 \<le> the a" using a lo rot by simp
  ultimately show ?thesis using a mem i(3) newer by blast
qed

theorem verify_proximity_sound_witness:
  "\<exists>s. Some 30 = Some ((slot_at 1200000000 30 - s) * 30) \<and> s \<in> set (window 1200000000 30 60)
    \<and> beacon_id sample_hash (replicate 32 1) s = normalise ''AAAAAAAAACddXV1dXV1dXQ''
    \<and> (\<forall>s' \<in> set (window 1200000000 30 60). s < s' \<longrightarrow>
         beacon_id sample_hash (replicate 32 1) s' \<noteq> normalise ''AAAAAAAAACddXV1dXV1dXQ'')
    \<and> 0 \<le> the (Some (30::int)) \<and> the (Some 30) < (60::int) + 30"
proof (rule verify_proximity_sound)
  show "beacon_config (replicate 32 1) 30 60 1200000000" by code_simp
  show "is_ascii (normalise ''AAAAAAAAACddXV1dXV1dXQ'')" by code_simp
  show "verify_proximity sample_hash (replicate 32 1) ''AAAAAAAAACddXV1dXV1dXQ'' 30 60 1200000000
      = Inr (True, Some 30)" by code_simp
qed

text \<open>
  Every identifier the beacon advertised within the last \<open>age\<close> seconds is accepted,
  whatever the phone's clock says, and the reported age never exceeds the true slot distance.
\<close>

theorem verify_proximity_complete:
  assumes "beacon_config key rot age now" and "\<And>x. length (h x) = 32"
    and "now - seconds age \<le> t" and "t \<le> now"
  shows "\<exists>a. verify_proximity h key (beacon_id h key (slot_at t rot)) rot age now = Inr (True, Some a)
    \<and> 0 \<le> a \<and> a \<le> (slot_at now rot - slot_at t rot) * rot"
proof -
  let ?p = "beacon_id h key (slot_at t rot)"
  have rot: "0 < rot" using assms(1) by (simp add: beacon_config_def)
  have "length (hmac_digest h key m) = 32" for m
    unfolding hmac_digest_def Let_def by (rule assms(2))
  then have "hmac_digest h key m \<noteq> []" for m
    by (metis list.size(3) zero_neq_numeral)
  then have ne: "?p \<noteq> []"
    by (simp add: beacon_id_def urlsafe_nopad_Nil BEACON_ID_BYTES_def)
  have t_in: "slot_at t rot \<in> set (window now rot age)"
    using slot_at_recent [OF rot assms(3)] slot_at_mono [OF rot assms(4)] by (simp add: set_window)
  let ?f = "find (\<lambda>s. beacon_id h key s = ?p) (window now rot age)"
  have "?f \<noteq> None" using t_in by (auto simp: find_None_iff)
  then obtain s where s: "?f = Some s" by blast
  then obtain i where i: "i < length (window now rot age)" "s = window now rot age ! i"
      "\<forall>j < i. beacon_id h key (window now rot age ! j) \<noteq> ?p"
    by (auto simp: find_Some_iff)
  from t_in obtain j where j: "j < length (window now rot age)" "slot_at t rot = window now rot age ! j"
    by (metis in_set_conv_nth)
  have "i \<le> j" using i(3) j(2) not_le by metis
  then have "slot_at t rot \<le> s" using i j by (simp add: window_def)
  moreover have "s \<le> slot_at now rot" using i by (auto simp: set_window dest: nth_mem)
  ultimately have "0 \<le> (slot_at now rot - s) * rot"
      "(slot_at now rot - s) * rot \<le> (slot_at now rot - slot_at t rot) * rot"
    using rot by (simp_all add: mult_right_mono)
  moreover have "verify_proximity h key ?p rot age now = Inr (True, Some ((slot_at now rot - s) * rot))"
    using verify_proximity_eq [OF assms(1) ne, of h] s by (simp add: beacon_id_normal)
  ultimately show ?thesis by blast
qed

theorem verify_proximity_complete_witness:
  "\<exists>a. verify_proximity sample_hash (replicate 32 1)
         (beacon_id sample_hash (replicate 32 1) (slot_at 1150000000 30)) 30 60 1200000000 = Inr (True, Some a)
     \<and> 0 \<le> a \<and> a \<le> (slot_at 1200000000 30 - slot_at 1150000000 30) * 30"
proof (rule verify_proximity_complete)
  show "beacon_config (replicate 32 1) 30 60 1200000000" by code_simp
  show "length (sample_hash x) = 32" for x by (rule length_sample_hash)
qed simp_all

end
