(* ===== verification/Unlock.thy ===== *)
theory Unlock
  imports Rate_Limit Sample Proximity
begin

text \<open>
  \<^verbatim>\<open>backend/app/services/unlock_service.py\<close> and the whole of \<^verbatim>\<open>ControllerHub.send_command\<close>. The checks 1
  to 6 of \<^verbatim>\<open>unlock\<close> are \<open>unlock_door\<close>, \<open>unlock_permission\<close>, \<open>unlock_proximity\<close>, \<open>unlock_budget\<close> and
  \<open>unlock_online\<close>, in that order; \<open>unlock_sign\<close> is step 7 and \<open>unlock_deliver\<close> step 8. While the
  command waits for its acknowledgement the line does what the parameter \<open>controller_io\<close> says.
\<close>

section \<open>Sending a command\<close>

definition line_step :: "nat \<Rightarrow> line_event \<Rightarrow> hub \<Rightarrow> hub" where
  "line_step sid ev h =
     (case ev of
        Message m \<Rightarrow> resolve sid m h
      | Dropped \<Rightarrow> (case h_objects h sid of None \<Rightarrow> h | Some s \<Rightarrow> unregister (cs_code s) sid h)
      | Reconnected s \<Rightarrow> (case new_session s h of (n, h1) \<Rightarrow> register n (s\<lparr>cs_pending := []\<rparr>) h1))"

definition set_hub :: "(hub \<Rightarrow> hub) \<Rightarrow> unit io" where
  "set_hub f = puts (\<lambda>w. w\<lparr>w_hub := f (w_hub w)\<rparr>)"

text \<open>
  The wait lasts until the events are over or the time is up. Writing to a closed socket
  raises \<^verbatim>\<open>RuntimeError\<close>, which leaves through the \<^verbatim>\<open>finally\<close>.
\<close>

definition await_ack :: "nat \<Rightarrow> string \<Rightarrow> nat \<Rightarrow> int \<Rightarrow> string + (int \<times> line_event list) \<Rightarrow> (string \<times> json) list io" where
  "await_ack sid cid fut timeout line =
     (case line of
        Inl msg \<Rightarrow> bindE (set_hub (send_abort sid cid)) (\<lambda>_. throw (RuntimeError msg))
      | Inr (elapsed, events) \<Rightarrow>
          bindE (sleep (min elapsed (seconds timeout))) (\<lambda>_.
          bindE (set_hub (if elapsed \<le> seconds timeout then fold (line_step sid) events else id)) (\<lambda>_.
          bindE (gets (\<lambda>w. fst (send_finish sid cid fut (w_hub w)))) (\<lambda>res.
          bindE (set_hub (\<lambda>h. snd (send_finish sid cid fut h))) (\<lambda>_.
            liftE res)))))"

definition send_command :: "ext \<Rightarrow> string \<Rightarrow> (string \<times> json) list \<Rightarrow> int \<Rightarrow> (string \<times> json) list io" where
  "send_command x code envelope timeout =
     bindE (gets (\<lambda>w. send_begin code envelope (w_hub w))) (\<lambda>started.
     case started of
       Inl e \<Rightarrow> throw e
     | Inr (sid, cid, fut, line, h) \<Rightarrow>
         bindE (set_hub (\<lambda>_. h)) (\<lambda>_. await_ack sid cid fut timeout (controller_io x code line)))"

section \<open>The unlock decision\<close>

record unlock_outcome =
  uo_command_id :: uuid
  uo_opened_for_ms :: int
  uo_proximity_age_seconds :: int

definition unlock_base :: "uuid \<Rightarrow> uuid \<Rightarrow> uuid \<Rightarrow> string option \<Rightarrow> audit_entry" where
  "unlock_base user_id device_id door_id client_ip =
     (entry ''user'')\<lparr>en_actor_id := Some user_id, en_device_id := Some device_id,
       en_door_id := Some door_id, en_client_ip := client_ip\<rparr>"

definition deny ::
  "ext \<Rightarrow> audit_entry \<Rightarrow> string \<Rightarrow> DenyReason \<Rightarrow> (string \<times> json) list \<Rightarrow> uuid option \<Rightarrow> 'a io"
where
  "deny x base internal reason extra controller_id =
     bindE (audit_denied x DOOR_UNLOCK_DENIED (base\<lparr>en_controller_id := controller_id,
              en_detail := (''reason'', JStr internal) # extra\<rparr>)) (\<lambda>_.
       throw (ApiError (UnlockDenied reason internal)))"

definition fail_unlock :: "ext \<Rightarrow> audit_entry \<Rightarrow> door_row \<Rightarrow> uuid \<Rightarrow> string \<Rightarrow> 'a io" where
  "fail_unlock x base door command_id internal =
     bindE (audit_failure x DOOR_UNLOCK_FAILED (base\<lparr>en_controller_id := dr_controller_id door,
              en_detail := [(''reason'', JStr internal), (''command_id'', JStr command_id)]\<rparr>)) (\<lambda>_.
       throw (ApiError (UnlockDenied FAILED internal)))"

definition unlock_door :: "ext \<Rightarrow> audit_entry \<Rightarrow> uuid \<Rightarrow> (door_row \<times> controller_row option) io" where
  "unlock_door x base door_id =
     bindE (gets (\<lambda>w. doors_by_id w door_id)) (\<lambda>found.
     case found of
       None \<Rightarrow> deny x base ''door_unavailable'' DENIED [] None
     | Some (door, c) \<Rightarrow>
         if \<not> dr_is_active door \<or> dr_controller_id door = None
         then deny x base ''door_unavailable'' DENIED [] None
         else ret (door, c))"

definition unlock_permission :: "ext \<Rightarrow> audit_entry \<Rightarrow> uuid \<Rightarrow> uuid \<Rightarrow> permission_view io" where
  "unlock_permission x base user_id door_id =
     bindE (permissions_effective x user_id door_id) (\<lambda>found.
     case found of
       None \<Rightarrow> deny x base ''no_permission'' DENIED [] None
     | Some v \<Rightarrow>
         if \<not> pv_within_window v
         then deny x base ''outside_time_window'' DENIED
                [(''local_time'', JStr (time_text (pv_local_time v))), (''local_dow'', JInt (pv_local_dow v)),
                 (''window'', JStr (time_text (p_start_time (pv_row v)) @ ''-'' @ time_text (p_end_time (pv_row v)))),
                 (''time_zone'', JStr (p_time_zone (pv_row v)))] None
         else ret v)"

text \<open>
  Steps 3 and 4. A door whose controller row is missing has a NULL key, and \<^verbatim>\<open>bytes(None)\<close> raises
  \<^verbatim>\<open>TypeError\<close>.
\<close>

definition unlock_proximity ::
  "ext \<Rightarrow> settings \<Rightarrow> audit_entry \<Rightarrow> controller_row option \<Rightarrow> string \<Rightarrow> (controller_row \<times> int option) io"
where
  "unlock_proximity x st base found presented =
     (case found of
        None \<Rightarrow> throw TypeError
      | Some c \<Rightarrow>
          bindE (guardE (c_is_blocked c) (deny x base ''controller_blocked'' DENIED [] None)) (\<lambda>_.
          bindE current_time (\<lambda>now.
          bindE (liftE (verify_proximity (sha256 x) (c_beacon_key c) presented
                   (beacon_rotation_seconds st) (proximity_max_age_seconds st) now)) (\<lambda>(accepted, age).
            if \<not> accepted
            then deny x base ''proximity_not_proven'' NOT_PRESENT
                   [(''presented_length'', JInt (int (length presented)))] None
            else ret (c, age)))))"

definition unlock_budget :: "ext \<Rightarrow> settings \<Rightarrow> audit_entry \<Rightarrow> uuid \<Rightarrow> uuid \<Rightarrow> unit io" where
  "unlock_budget x st base user_id device_id =
     bindE (check_unlock st user_id device_id) (\<lambda>decision.
       if \<not> rd_allowed decision
       then bindE (audit_denied x RATE_LIMIT_TRIPPED (base\<lparr>en_detail :=
                     [(''attempts_in_window'', JInt (rd_failures decision)), (''scope'', JStr ''unlock'')]\<rparr>)) (\<lambda>_.
              throw (ApiError (RateLimited (rd_retry_after_seconds decision))))
       else ret ())"

definition unlock_online :: "ext \<Rightarrow> audit_entry \<Rightarrow> string \<Rightarrow> unit io" where
  "unlock_online x base controller_code =
     bindE (gets (\<lambda>w. is_online (w_hub w) controller_code)) (\<lambda>online.
       if \<not> online
       then deny x base ''controller_offline'' CONTROLLER_OFFLINE [(''controller_code'', JStr controller_code)] None
       else ret ())"

definition unlock_payload :: "settings \<Rightarrow> door_row \<Rightarrow> string \<Rightarrow> uuid \<Rightarrow> int \<Rightarrow> bytes \<Rightarrow> (string \<times> json) list" where
  "unlock_payload st door controller_code command_id issued_at nonce =
     [(''command_id'', JStr command_id), (''cmd'', JStr ''unlock''), (''controller_code'', JStr controller_code),
      (''door_code'', JStr (dr_code door)), (''relay_channel'', JInt (dr_relay_channel door)),
      (''duration_ms'', JInt (dr_unlock_seconds door * 1000)), (''issued_at'', JInt issued_at),
      (''expires_at'', JInt (issued_at + command_ttl_seconds st)), (''nonce'', JStr (urlsafe_nopad nonce))]"

fun signer_failure :: "exn \<Rightarrow> string option" where
  "signer_failure (SignerUnavailable m) = Some m"
| "signer_failure (SignerRefused m) = Some m"
| "signer_failure _ = None"

definition unlock_sign ::
  "ext \<Rightarrow> settings \<Rightarrow> audit_entry \<Rightarrow> door_row \<Rightarrow> string \<Rightarrow> (uuid \<times> (string \<times> json) list \<times> bytes \<times> json) io"
where
  "unlock_sign x st base door controller_code =
     bindE (draw_uuid x) (\<lambda>command_id.
     bindE current_time (\<lambda>now.
     bindE (draw_bytes x 16) (\<lambda>nonce.
       let payload = unlock_payload st door controller_code command_id (now div 1000000) nonce
       in case sign_command (signer_io x) payload of
            Inr (signature, kid) \<Rightarrow> ret (command_id, payload, signature, kid)
          | Inl e \<Rightarrow>
              (case signer_failure e of
                 None \<Rightarrow> throw e
               | Some m \<Rightarrow> deny x base (''signer_unavailable: '' @ m) FAILED [] (dr_controller_id door)))))"

definition unlock_envelope :: "(string \<times> json) list \<Rightarrow> bytes \<Rightarrow> json \<Rightarrow> (string \<times> json) list" where
  "unlock_envelope payload signature kid =
     [(''type'', JStr ''command''), (''payload'', JObj payload), (''signature'', JStr (b64encode signature)),
      (''key_id'', kid), (''alg'', JStr ''ed25519'')]"

definition get_or :: "json \<Rightarrow> (string \<times> json) list \<Rightarrow> string \<Rightarrow> json" where
  "get_or d ob k = (case obj_get ob k of None \<Rightarrow> d | Some v \<Rightarrow> v)"

fun delivery_failure :: "exn \<Rightarrow> string option" where
  "delivery_failure (ControllerOffline _) = Some ''controller_disconnected''"
| "delivery_failure (CommandTimeout _) = Some ''no_acknowledgement''"
| "delivery_failure _ = None"

definition unlock_deliver ::
  "ext \<Rightarrow> settings \<Rightarrow> audit_entry \<Rightarrow> door_row \<Rightarrow> string \<Rightarrow> uuid \<Rightarrow> (string \<times> json) list \<Rightarrow> (string \<times> json) list io"
where
  "unlock_deliver x st base door controller_code command_id envelope =
     bindE (catchE (send_command x controller_code envelope (command_ttl_seconds st)) (\<lambda>e.
              case delivery_failure e of
                None \<Rightarrow> throw e
              | Some r \<Rightarrow> fail_unlock x base door command_id r)) (\<lambda>ack.
       if get_or JNull ack ''result'' \<noteq> JStr ''opened''
       then fail_unlock x base door command_id
              (''controller_refused:'' @ py_str (get_or (JStr ''unspecified'') ack ''detail''))
       else ret ack)"

definition unlock ::
  "ext \<Rightarrow> settings \<Rightarrow> uuid \<Rightarrow> uuid \<Rightarrow> uuid \<Rightarrow> string \<Rightarrow> string option \<Rightarrow> unlock_outcome io"
where
  "unlock x st user_id device_id door_id presented client_ip =
     (let base = unlock_base user_id device_id door_id client_ip in
      bindE (audit_record x (event_value DOOR_UNLOCK_REQUESTED) ''success'' base) (\<lambda>_.
      bindE (unlock_door x base door_id) (\<lambda>(door, found).
      bindE (unlock_permission x base user_id door_id) (\<lambda>_.
      bindE (unlock_proximity x st base found presented) (\<lambda>(c, age).
      bindE (unlock_budget x st base user_id device_id) (\<lambda>_.
      bindE (unlock_online x base (c_code c)) (\<lambda>_.
      bindE (unlock_sign x st base door (c_code c)) (\<lambda>(command_id, payload, signature, kid).
      bindE (audit_success x DOOR_UNLOCK_GRANTED (base\<lparr>en_controller_id := dr_controller_id door,
               en_detail := [(''command_id'', JStr command_id), (''signer_key_id'', kid),
                 (''proximity_age_seconds'', case age of None \<Rightarrow> JNull | Some a \<Rightarrow> JInt a),
                 (''duration_ms'', JInt (dr_unlock_seconds door * 1000))]\<rparr>)) (\<lambda>_.
      bindE (unlock_deliver x st base door (c_code c) command_id (unlock_envelope payload signature kid)) (\<lambda>ack.
      bindE (audit_success x DOOR_UNLOCK_CONFIRMED (base\<lparr>en_controller_id := dr_controller_id door,
               en_detail := [(''command_id'', JStr command_id),
                 (''controller_uptime_ms'', get_or JNull ack ''uptime_ms''), (''relay_ms'', get_or JNull ack ''relay_ms'')]\<rparr>)) (\<lambda>_.
        ret \<lparr>uo_command_id = command_id, uo_opened_for_ms = dr_unlock_seconds door * 1000,
             uo_proximity_age_seconds = (case age of None \<Rightarrow> 0 | Some a \<Rightarrow> a)\<rparr>)))))))))))"

section \<open>Frames\<close>

lemma hub_inv_line_step:
  assumes "hub_inv h"
  shows "hub_inv (line_step sid ev h)"
proof (cases ev)
  case (Reconnected s)
  then show ?thesis using hub_inv_connect [OF assms] by (simp add: line_step_def split: prod.split)
qed (use assms in \<open>simp_all add: line_step_def hub_inv_resolve hub_inv_disconnect split: option.split\<close>)

lemma hub_inv_line_steps: "hub_inv h \<Longrightarrow> hub_inv (fold (line_step sid) evs h)"
  by (induction evs arbitrary: h) (simp_all add: hub_inv_line_step)

lemma safe_set_hub:
  assumes "\<And>h. hub_inv h \<Longrightarrow> hub_inv (f h)"
  shows "evolves (safe x) (set_hub f)"
  using assms
  by (simp add: evolves_def set_hub_def puts_apply safe_def progress_def grows_refl db_inv_def keys_ok_def refs_ok_def
      checks_ok_def grants_ok_def audit_ok_def)

lemma safe_await_ack [frame_intros]: "evolves (safe x) (await_ack sid cid fut t line)"
  unfolding await_ack_def
  by (intro frame_intros safe_set_hub) (simp_all add: hub_inv_line_steps hub_inv_finish hub_inv_pop send_abort_def)

lemma safe_send_command [frame_intros]: "evolves (safe x) (send_command x' code env' t)"
  unfolding evolves_def
proof
  fix w :: world
  show "safe x w (snd (send_command x' code env' t w))"
  proof (cases "send_begin code env' (w_hub w)")
    case (Inr r)
    then obtain sid cid fut line h where r: "send_begin code env' (w_hub w) = Inr (sid, cid, fut, line, h)"
      by (cases r) auto
    have "safe x w (w\<lparr>w_hub := h\<rparr>)"
      using hub_inv_send [OF _ r] by (simp add: safe_def progress_def grows_refl db_inv_def keys_ok_def refs_ok_def
          checks_ok_def grants_ok_def audit_ok_def)
    moreover have "safe x (w\<lparr>w_hub := h\<rparr>) (snd (await_ack sid cid fut t (controller_io x' code line) (w\<lparr>w_hub := h\<rparr>)))"
      using safe_await_ack by (simp add: evolves_def)
    ultimately show ?thesis
      using r by (simp add: send_command_def comp_simps set_hub_def) (rule safe.frame_trans)
  qed (simp add: send_command_def comp_simps safe_def)
qed

lemma safe_deny [frame_intros]: "evolves (safe x) (deny x a b c d e)"
  unfolding deny_def by (intro frame_intros)

lemma safe_fail_unlock [frame_intros]: "evolves (safe x) (fail_unlock x a b c d)"
  unfolding fail_unlock_def by (intro frame_intros)

lemma safe_unlock_steps [frame_intros]:
  "evolves (safe x) (unlock_door x b d)" "evolves (safe x) (unlock_permission x b u d)"
  "evolves (safe x) (unlock_proximity x st b c p)" "evolves (safe x) (unlock_budget x st b u d')"
  "evolves (safe x) (unlock_online x b code)" "evolves (safe x) (unlock_sign x st b door code)"
  "evolves (safe x) (unlock_deliver x st b door code cid e)"
  unfolding unlock_door_def unlock_permission_def unlock_proximity_def unlock_budget_def unlock_online_def
    unlock_sign_def unlock_deliver_def
  by (intro frame_intros)+

lemma safe_unlock [frame_intros]: "evolves (safe x) (unlock x st a b c d e)"
  unfolding unlock_def by (intro frame_intros)


section \<open>What is written to the log\<close>

text \<open>Event, outcome and \<^verbatim>\<open>detail["reason"]\<close> of an audit row.\<close>

definition row_summary :: "audit_row \<Rightarrow> string \<times> string \<times> json option" where
  "row_summary r = (a_event_type r, a_outcome r, case a_detail r of JObj kvs \<Rightarrow> obj_get kvs ''reason'' | _ \<Rightarrow> None)"

text \<open>\<open>logged w evs w'\<close>: from \<open>w\<close> to \<open>w'\<close> exactly the rows \<open>evs\<close> were appended.\<close>

definition logged :: "world \<Rightarrow> (string \<times> string \<times> json option) list \<Rightarrow> world \<Rightarrow> bool" where
  "logged w evs w' \<longleftrightarrow> (\<exists>rows. w_audit w' = w_audit w @ rows \<and> map row_summary rows = evs)"

lemma logged_refl: "w_audit w' = w_audit w \<Longrightarrow> logged w [] w'"
  by (simp add: logged_def)

lemma logged_trans: "logged u a v \<Longrightarrow> logged v b w \<Longrightarrow> logged u (a @ b) w"
  by (auto simp: logged_def)

lemma logged_push: "logged w [(ev, oc, obj_get (en_detail en) ''reason'')] (audit_push x ev oc en w)"
  by (simp add: logged_def audit_push_def row_summary_def audit_hash_chain_def audit_row_of_def Let_def)

lemma audit_push_simps [simp]:
  "w_now (audit_push x a b c w) = w_now w" "w_hub (audit_push x a b c w) = w_hub w"
  "w_doors (audit_push x a b c w) = w_doors w" "w_permissions (audit_push x a b c w) = w_permissions w"
  "w_controllers (audit_push x a b c w) = w_controllers w" "w_draws (audit_push x a b c w) = w_draws w"
  "w_users (audit_push x a b c w) = w_users w" "w_devices (audit_push x a b c w) = w_devices w"
  "w_tokens (audit_push x a b c w) = w_tokens w" "w_codes (audit_push x a b c w) = w_codes w"
  by (simp_all add: audit_push_def)

lemma audit_accepts_base:
  "audit_accepts x oc (unlock_base u d o' ip\<lparr>en_controller_id := c, en_detail := dt\<rparr>) \<longleftrightarrow> oc \<in> set AUDIT_OUTCOMES \<and> inet_valid x ip"
  "audit_accepts x oc (unlock_base u d o' ip\<lparr>en_detail := dt\<rparr>) \<longleftrightarrow> oc \<in> set AUDIT_OUTCOMES \<and> inet_valid x ip"
  "audit_accepts x oc (unlock_base u d o' ip) \<longleftrightarrow> oc \<in> set AUDIT_OUTCOMES \<and> inet_valid x ip"
  by (auto simp: audit_accepts_def unlock_base_def entry_def ACTOR_TYPES_def)

lemma outcomes [simp]: "''success'' \<in> set AUDIT_OUTCOMES" "''failure'' \<in> set AUDIT_OUTCOMES" "''denied'' \<in> set AUDIT_OUTCOMES"
  by (simp_all add: AUDIT_OUTCOMES_def)

lemma deny_run:
  assumes "inet_valid x ip"
  shows "deny x (unlock_base u d o' ip) i r extra c w = (Inl (ApiError (UnlockDenied r i)),
    audit_push x (event_value DOOR_UNLOCK_DENIED) ''denied'' (unlock_base u d o' ip\<lparr>en_controller_id := c,
      en_detail := (''reason'', JStr i) # extra\<rparr>) w)"
  using assms by (simp add: deny_def audit_denied_def bindE_apply audit_record_run audit_accepts_base throw_apply)

lemma fail_unlock_run:
  assumes "inet_valid x ip"
  shows "fail_unlock x (unlock_base u d o' ip) door cid i w = (Inl (ApiError (UnlockDenied FAILED i)),
    audit_push x (event_value DOOR_UNLOCK_FAILED) ''failure'' (unlock_base u d o' ip\<lparr>en_controller_id := dr_controller_id door,
      en_detail := [(''reason'', JStr i), (''command_id'', JStr cid)]\<rparr>) w)"
  using assms by (simp add: fail_unlock_def audit_failure_def bindE_apply audit_record_run audit_accepts_base throw_apply)

lemma guard_deny: "bindE (guardE b (deny x base i r extra c)) f = (if b then deny x base i r extra c else f ())"
  by (auto simp: fun_eq_iff deny_def comp_simps split: sum.splits prod.splits)

lemma deny_never_returns: "deny x base i r extra c w \<noteq> (Inr y, w')" "fail_unlock x base door cid i w \<noteq> (Inr y, w')"
  by (auto simp: deny_def fail_unlock_def bindE_Inr_iff throw_apply)

text \<open>
  The rows an unlock leaves after its request row, by how it ended: a refusal before the command is
  signed, a failure after, the rate limit, another exception, or success.
\<close>

abbreviation granted_row :: "string \<times> string \<times> json option" where
  "granted_row \<equiv> (''door.unlock_granted'', ''success'', None)"

fun refusal_rows :: "exn \<Rightarrow> (string \<times> string \<times> json option) list option" where
  "refusal_rows (ApiError (UnlockDenied r i)) = Some [(''door.unlock_denied'', ''denied'', Some (JStr i))]"
| "refusal_rows (ApiError (RateLimited n)) = Some [(''rate.limit_tripped'', ''denied'', None)]"
| "refusal_rows (ApiError _) = None"
| "refusal_rows _ = Some []"

fun failure_rows :: "exn \<Rightarrow> (string \<times> string \<times> json option) list option" where
  "failure_rows (ApiError (UnlockDenied FAILED i)) = Some [(''door.unlock_failed'', ''failure'', Some (JStr i))]"
| "failure_rows (ApiError _) = None"
| "failure_rows _ = Some []"

definition step_ends ::
  "(exn \<Rightarrow> (string \<times> string \<times> json option) list option) \<Rightarrow> (exn + 'a) \<times> world \<Rightarrow> world \<Rightarrow> bool"
where
  "step_ends rows res w \<longleftrightarrow>
     (\<exists>tr. (case fst res of Inl e \<Rightarrow> rows e | Inr _ \<Rightarrow> Some []) = Some tr \<and> logged w tr (snd res))"

lemma step_ends_cong: "w_audit v = w_audit w \<Longrightarrow> step_ends rows res v = step_ends rows res w"
  by (simp add: step_ends_def logged_def)

lemma deny_ends:
  assumes "inet_valid x ip" and "w_audit v = w_audit w"
  shows "step_ends refusal_rows (deny x (unlock_base u d o' ip) i r extra c v) w"
  using logged_push [of v "''door.unlock_denied''" "''denied''"
      "unlock_base u d o' ip\<lparr>en_controller_id := c, en_detail := (''reason'', JStr i) # extra\<rparr>" x] assms
  by (simp add: deny_run step_ends_cong [OF assms(2), symmetric]) (simp add: step_ends_def obj_get_def)

lemma fail_ends:
  assumes "inet_valid x ip" and "w_audit v = w_audit w"
  shows "step_ends failure_rows (fail_unlock x (unlock_base u d o' ip) door cid i v) w"
  using logged_push [of v "''door.unlock_failed''" "''failure''" "unlock_base u d o' ip\<lparr>en_controller_id := dr_controller_id door,
      en_detail := [(''reason'', JStr i), (''command_id'', JStr cid)]\<rparr>" x] assms
  by (simp add: fail_unlock_run step_ends_cong [OF assms(2), symmetric]) (simp add: step_ends_def obj_get_def)

lemma not_api_rows: "\<not> is_ApiError e \<Longrightarrow> refusal_rows e = Some []" "\<not> is_ApiError e \<Longrightarrow> failure_rows e = Some []"
  by (cases e; simp)+

lemma step_ends_quiet:
  "\<not> is_ApiError e \<Longrightarrow> w_audit w' = w_audit w \<Longrightarrow> step_ends refusal_rows (Inl e, w') w"
  "\<not> is_ApiError e \<Longrightarrow> w_audit w' = w_audit w \<Longrightarrow> step_ends failure_rows (Inl e, w') w"
  "w_audit w' = w_audit w \<Longrightarrow> step_ends rows (Inr y, w') w"
  by (simp_all add: step_ends_def logged_refl not_api_rows)

lemma no_api_errors:
  "verify_proximity h k b r m t = Inl e \<Longrightarrow> \<not> is_ApiError e"
  "sign_command io cmd = Inl e \<Longrightarrow> \<not> is_ApiError e"
proof -
  have "match_slots h k b0 m0 slots = Inl e \<Longrightarrow> \<not> is_ApiError e" for b0 m0 slots
    by (induction slots arbitrary: m0) (auto simp: derive_beacon_id_def split: sum.splits if_splits option.splits)
  then show "verify_proximity h k b r m t = Inl e \<Longrightarrow> \<not> is_ApiError e"
    by (auto simp: verify_proximity_def acceptable_slots_def slot_for_def Let_def split: sum.splits if_splits option.splits)
  show "sign_command io cmd = Inl e \<Longrightarrow> \<not> is_ApiError e"
    by (auto simp: sign_command_def client_request_def decode_line_def response_pair_def
        split: sum.splits if_splits option.splits transport.splits json.splits)
qed

text \<open>The wait: the log is not touched, the request stays in its table, its future fails only as offline.\<close>

lemma line_step_waiting:
  assumes "hub_inv h"
  shows "waiting h \<subseteq> waiting (line_step sid ev h)"
proof (cases ev)
  case (Reconnected s)
  have "h_objects h (h_next h) = None" using assms by (simp add: hub_inv_def fresh_ok_def)
  then show ?thesis using Reconnected
    by (auto simp: line_step_def new_session_def register_def waiting_def Let_def split: option.splits)
qed (auto simp: line_step_def waiting_def resolve_def unregister_def Let_def split: option.splits)

lemma line_steps_waiting: "hub_inv h \<Longrightarrow> waiting h \<subseteq> waiting (fold (line_step sid) evs h)"
proof (induction evs arbitrary: h)
  case (Cons ev evs)
  then show ?case using line_step_waiting [of h sid ev] hub_inv_line_step [of h sid ev] by fastforce
qed simp

definition fails_offline :: "nat \<Rightarrow> hub \<Rightarrow> bool" where
  "fails_offline f h \<longleftrightarrow> (\<forall>e. h_futures h f = Some (Fut_exception e) \<longrightarrow> (\<exists>r. e = ControllerOffline r))"

lemma fails_offline_step: "fails_offline f h \<Longrightarrow> fails_offline f (line_step sid ev h)"
  by (cases ev) (auto simp: fails_offline_def line_step_def resolve_def unregister_def register_def new_session_def
      fail_pending_futures settle_apply Let_def split: option.splits if_splits)

lemma fails_offline_steps: "fails_offline f h \<Longrightarrow> fails_offline f (fold (line_step sid) evs h)"
  by (induction evs arbitrary: h) (simp_all add: fails_offline_step)

lemma send_begin_Inr:
  assumes "send_begin code envelope h = Inr (sid, cid, fut, line, h')"
  shows "(sid, cid, fut) \<in> waiting h'" and "h_futures h' fut = Some Fut_pending" and "envelope_command_id envelope = Inr cid"
    and "is_online h code"
  using assms by (auto simp: send_begin_def set_pending_def bindS_Inr_iff waiting_def is_online_def Let_def
      dict_set_map_of split: option.splits dest!: map_of_SomeD intro: rev_image_eqI)
    (metis dict_set_map_of fun_upd_same map_of_SomeD)


text \<open>Two more things a computation may keep: the log, and a bound on how far the clock moves.\<close>

definition same_log :: "world \<Rightarrow> world \<Rightarrow> bool" where
  "same_log w w' \<longleftrightarrow> w_audit w' = w_audit w"

interpretation same_log: frame_rel same_log
  by unfold_locales (simp_all add: same_log_def)

lemma same_log_set_hub [frame_intros]: "evolves same_log (set_hub f)"
  by (simp add: evolves_def set_hub_def puts_apply same_log_def)

lemma same_log_sleep [frame_intros]: "evolves same_log (sleep d)"
  by (simp add: evolves_def sleep_def puts_apply same_log_def)

lemma same_log_send_command: "send_command x code en t w = (r, w') \<Longrightarrow> w_audit w' = w_audit w"
proof -
  have "evolves same_log (send_command x code en t)"
    unfolding send_command_def await_ack_def by (intro frame_intros)
  then show "send_command x code en t w = (r, w') \<Longrightarrow> w_audit w' = w_audit w"
    by (auto simp: evolves_def same_log_def dest: spec [of _ w])
qed

lemma send_command_time:
  assumes "send_command x code en t w = (r, w')"
  shows "w_now w' \<le> w_now w + max 0 (seconds t)"
  using assms
  by (auto simp: send_command_def await_ack_def set_hub_def sleep_def comp_simps split: sum.splits prod.splits)

lemma await_ack_Inr:
  assumes "await_ack sid cid fut t line w = (Inr ack, w')"
  obtains elapsed events where "line = Inr (elapsed, events)"
    and "h_futures (if elapsed \<le> seconds t then fold (line_step sid) events (w_hub w) else w_hub w) fut = Some (Fut_result ack)"
proof (cases line)
  case (Inr q)
  then show thesis
    using assms that [of "fst q" "snd q"]
    by (cases q) (auto simp: await_ack_def set_hub_def sleep_def comp_simps send_finish_def
        split: option.splits fut_state.splits if_splits)
qed (use assms in \<open>simp add: await_ack_def comp_simps set_hub_def\<close>)

lemma send_command_Inr:
  assumes "hub_inv (w_hub w)" and "send_command x code en t w = (Inr ack, w')"
  shows "envelope_command_id en = Inr (message_command_id ack)" and "is_online (w_hub w) code"
proof -
  obtain sid cid fut line h where b: "send_begin code en (w_hub w) = Inr (sid, cid, fut, line, h)"
    and a: "await_ack sid cid fut t (controller_io x code line) (w\<lparr>w_hub := h\<rparr>) = (Inr ack, w')"
    using assms(2) by (auto simp: send_command_def set_hub_def comp_simps split: sum.splits prod.splits)
  note sent = send_begin_Inr [OF b] and inv = hub_inv_send [OF assms(1) b]
  from a obtain elapsed events where "h_futures (if elapsed \<le> seconds t then fold (line_step sid) events (w_hub (w\<lparr>w_hub := h\<rparr>))
      else w_hub (w\<lparr>w_hub := h\<rparr>)) fut = Some (Fut_result ack)"
    by (rule await_ack_Inr)
  then have f: "h_futures (fold (line_step sid) events h) fut = Some (Fut_result ack)"
    using sent(2) by (simp split: if_splits)
  have "(sid, cid, fut) \<in> waiting (fold (line_step sid) events h)" using line_steps_waiting [OF inv] sent(1) by blast
  then have "message_command_id ack = cid"
    using f hub_inv_line_steps [OF inv, of sid events] unfolding hub_inv_def keyed_ok_def by blast
  then show "envelope_command_id en = Inr (message_command_id ack)" "is_online (w_hub w) code"
    using sent(3,4) by simp_all
qed

lemma send_command_Inl:
  assumes "send_command x code en t w = (Inl e, w')"
  shows "\<not> is_ApiError e"
proof (cases "send_begin code en (w_hub w)")
  case (Inl e')
  then have "\<not> is_ApiError e'"
    by (auto simp: send_begin_def envelope_command_id_def Let_def split: option.splits json.splits)
  then show ?thesis using Inl assms by (auto simp: send_command_def comp_simps)
next
  case (Inr q)
  then obtain sid cid fut line h where b: "send_begin code en (w_hub w) = Inr (sid, cid, fut, line, h)" by (cases q) auto
  have "fails_offline fut (fold (line_step sid) events h)" "fails_offline fut h" for events
    using send_begin_Inr(2) [OF b] fails_offline_steps [of fut h sid events] by (simp_all add: fails_offline_def)
  then have "h_futures (fold (line_step sid) events h) fut = Some (Fut_exception e') \<Longrightarrow> \<not> is_ApiError e'"
      "h_futures h fut = Some (Fut_exception e') \<Longrightarrow> \<not> is_ApiError e'" for events e'
    unfolding fails_offline_def by (metis is_ApiError.simps(18))+
  then show ?thesis
    using assms b
    by (auto simp: send_command_def await_ack_def set_hub_def sleep_def comp_simps send_finish_def
        split: option.splits fut_state.splits if_splits sum.splits prod.splits)
qed


lemma unlock_steps_end:
  assumes "inet_valid x ip"
  shows "step_ends refusal_rows (unlock_door x (unlock_base u d o' ip) did w) w"
    and "step_ends refusal_rows (unlock_permission x (unlock_base u d o' ip) u did w) w"
    and "step_ends refusal_rows (unlock_proximity x st (unlock_base u d o' ip) c pr w) w"
    and "step_ends refusal_rows (unlock_budget x st (unlock_base u d o' ip) u dv w) w"
    and "step_ends refusal_rows (unlock_online x (unlock_base u d o' ip) code w) w"
    and "step_ends refusal_rows (unlock_sign x st (unlock_base u d o' ip) door code w) w"
    and "step_ends failure_rows (unlock_deliver x st (unlock_base u d o' ip) door code cid en w) w"
proof -
  note quiet = step_ends_quiet deny_ends [OF assms]
  show "step_ends refusal_rows (unlock_door x (unlock_base u d o' ip) did w) w"
    by (auto simp: unlock_door_def comp_simps quiet split: option.split)
  show "step_ends refusal_rows (unlock_permission x (unlock_base u d o' ip) u did w) w"
    by (auto simp: unlock_permission_def permissions_effective_def comp_simps quiet split: option.split prod.split)
  show "step_ends refusal_rows (unlock_proximity x st (unlock_base u d o' ip) c pr w) w"
    using no_api_errors(1) [of "sha256 x"]
    by (auto simp: unlock_proximity_def guard_deny current_time_def comp_simps quiet split: option.split sum.split)
  show "step_ends refusal_rows (unlock_budget x st (unlock_base u d o' ip) u dv w) w"
    using logged_push [of w "''rate.limit_tripped''" "''denied''" "unlock_base u d o' ip\<lparr>en_detail :=
        [(''attempts_in_window'', JInt n), (''scope'', JStr ''unlock'')]\<rparr>" x for n]
    by (auto simp: unlock_budget_def check_unlock_def comp_simps quiet audit_denied_def audit_record_run audit_accepts_base
        assms step_ends_def logged_refl obj_get_def)
  show "step_ends refusal_rows (unlock_online x (unlock_base u d o' ip) code w) w"
    by (auto simp: unlock_online_def comp_simps quiet)
  show "step_ends refusal_rows (unlock_sign x st (unlock_base u d o' ip) door code w) w"
    using no_api_errors(2) [of "signer_io x"]
    by (auto simp: unlock_sign_def current_time_def run_simps quiet split: option.split sum.split)
  show "step_ends failure_rows (unlock_deliver x st (unlock_base u d o' ip) door code cid en w) w"
  proof (cases "send_command x code en (command_ttl_seconds st) w")
    case (Pair res w')
    have log: "w_audit w' = w_audit w" by (rule same_log_send_command [OF Pair])
    note fail = fail_ends [OF assms log]
    show ?thesis
    proof (cases res)
      case (Inl e)
      have "\<not> is_ApiError e" using send_command_Inl Pair Inl by blast
      then show ?thesis using Pair Inl fail log
        by (auto simp: unlock_deliver_def comp_simps quiet fail_unlock_run [OF assms] split: option.split)
    next
      case (Inr ack)
      then show ?thesis using Pair fail log by (auto simp: unlock_deliver_def comp_simps quiet)
    qed
  qed
qed


lemma step_ends_Inr: "step_ends rows (Inr y, w') w \<Longrightarrow> w_audit w' = w_audit w"
  by (auto simp: step_ends_def logged_def)

lemma step_ends_Inl: "step_ends rows (Inl e, w') w \<longleftrightarrow> (\<exists>tr. rows e = Some tr \<and> logged w tr w')"
  by (simp add: step_ends_def)

text \<open>
  Composition: after steps that wrote nothing comes a computation whose trail is in \<open>T\<close>.
\<close>

definition trail_in :: "(exn + 'a \<Rightarrow> (string \<times> string \<times> json option) list \<Rightarrow> bool) \<Rightarrow> (exn + 'a) \<times> world \<Rightarrow> world \<Rightarrow> bool" where
  "trail_in T res w \<longleftrightarrow> (\<exists>tr. T (fst res) tr \<and> logged w tr (snd res))"

lemma trail_after_step:
  assumes "step_ends rows (m w) w" and "\<And>e tr. rows e = Some tr \<Longrightarrow> T (Inl e) tr"
    and "\<And>y w'. m w = (Inr y, w') \<Longrightarrow> trail_in T (f y w') w'"
  shows "trail_in T (bindE m f w) w"
proof (cases "m w")
  case (Pair r w')
  show ?thesis
  proof (cases r)
    case (Inl e)
    then show ?thesis using assms(1,2) Pair by (auto simp: bindE_apply step_ends_def trail_in_def)
  next
    case (Inr y)
    then have "w_audit w' = w_audit w" using assms(1) Pair step_ends_Inr [of rows y w' w] by simp
    moreover have "trail_in T (f y w') w'" using assms(3) Pair Inr by simp
    ultimately show ?thesis using Pair Inr by (auto simp: bindE_apply trail_in_def logged_def)
  qed
qed

lemma trail_after_push:
  assumes "audit_accepts x oc en" and "trail_in (\<lambda>r tr. T r ((ev, oc, obj_get (en_detail en) ''reason'') # tr))
      (f (w_audit_seq w) (audit_push x ev oc en w)) (audit_push x ev oc en w)"
  shows "trail_in T (bindE (audit_record x ev oc en) f w) w"
proof -
  from assms(2) obtain tr where tr: "T (fst (f (w_audit_seq w) (audit_push x ev oc en w))) ((ev, oc, obj_get (en_detail en) ''reason'') # tr)"
      "logged (audit_push x ev oc en w) tr (snd (f (w_audit_seq w) (audit_push x ev oc en w)))"
    by (auto simp: trail_in_def)
  from logged_trans [OF logged_push this(2)] tr(1) show ?thesis
    using assms(1) by (auto simp: trail_in_def bindE_apply audit_record_run)
qed

lemma trail_case_prod: "(\<And>a b. p = (a, b) \<Longrightarrow> trail_in T (f a b w) v) \<Longrightarrow> trail_in T ((case p of (a, b) \<Rightarrow> f a b) w) v"
  by (cases p) simp

lemma trail_ret: "T (Inr y) [] \<Longrightarrow> trail_in T (ret y w) w"
  by (auto simp: trail_in_def ret_apply logged_def)

definition unlock_trail :: "exn + 'a \<Rightarrow> (string \<times> string \<times> json option) list \<Rightarrow> bool" where
  "unlock_trail res tr \<longleftrightarrow>
     (case res of
        Inr _ \<Rightarrow> tr = [granted_row, (''door.unlock_confirmed'', ''success'', None)]
      | Inl e \<Rightarrow> refusal_rows e = Some tr \<or> (\<exists>fr. failure_rows e = Some fr \<and> tr = granted_row # fr))"

lemma unlock_trail_lemma:
  assumes "inet_valid x ip"
  shows "trail_in (\<lambda>r tr. \<exists>tr'. tr = (''door.unlock_requested'', ''success'', None) # tr' \<and> unlock_trail r tr')
    (unlock x st u d o' pr ip w) w"
proof -
  note ends = unlock_steps_end [OF assms]
  have start: "map_of (en_detail (unlock_base u d o' ip)) ''reason'' = None"
    by (simp add: unlock_base_def entry_def)
  show ?thesis
    unfolding unlock_def Let_def audit_success_def
    by (intro trail_after_push trail_after_step [OF ends(1)] trail_after_step [OF ends(2)] trail_after_step [OF ends(3)]
        trail_after_step [OF ends(4)] trail_after_step [OF ends(5)] trail_after_step [OF ends(6)]
        trail_after_step [OF ends(7)] trail_case_prod trail_ret)
      (simp_all add: start audit_accepts_base assms unlock_trail_def obj_get_def)
qed


section \<open>What a successful unlock has passed\<close>

text \<open>
  The conditions of the checks, read off the state before the request: a grant in force whose
  window is open, and a usable door.
\<close>

definition grant_open :: "ext \<Rightarrow> world \<Rightarrow> uuid \<Rightarrow> uuid \<Rightarrow> bool" where
  "grant_open x w uid did \<longleftrightarrow>
     (case find (\<lambda>p. p_user_id p = uid \<and> p_door_id p = did \<and> in_force (w_now w) p) (w_permissions w) of
        None \<Rightarrow> False
      | Some p \<Rightarrow> (case zone_local x (p_time_zone p) (w_now w) of None \<Rightarrow> False | Some (t, dow) \<Rightarrow> within_window p t dow))"

definition door_usable :: "world \<Rightarrow> uuid \<Rightarrow> (door_row \<times> controller_row) option" where
  "door_usable w did =
     (case doors_by_id w did of
        Some (d, Some c) \<Rightarrow> if dr_is_active d \<and> \<not> c_is_blocked c then Some (d, c) else None
      | _ \<Rightarrow> None)"

lemma unlock_door_Inr:
  "unlock_door x base did w = (Inr (d, c), w') \<longleftrightarrow>
     w' = w \<and> doors_by_id w did = Some (d, c) \<and> dr_is_active d \<and> dr_controller_id d \<noteq> None"
  by (auto simp: unlock_door_def comp_simps deny_never_returns split: option.splits prod.splits if_splits)

lemma unlock_permission_Inr:
  "unlock_permission x base uid did w = (Inr v, w') \<Longrightarrow> w' = w \<and> grant_open x w uid did"
  by (auto simp: unlock_permission_def permissions_effective_def comp_simps deny_never_returns grant_open_def
      split: option.splits prod.splits if_splits)

lemma unlock_proximity_Inr:
  "unlock_proximity x st base found pr w = (Inr (c, age), w') \<longleftrightarrow>
     w' = w \<and> found = Some c \<and> \<not> c_is_blocked c \<and> verify_proximity (sha256 x) (c_beacon_key c) pr
       (beacon_rotation_seconds st) (proximity_max_age_seconds st) (w_now w) = Inr (True, age)"
  by (auto simp: unlock_proximity_def guard_deny current_time_def comp_simps deny_never_returns
      split: option.splits prod.splits if_splits sum.splits)

lemma unlock_budget_Inr:
  "unlock_budget x st base uid did w = (Inr u, w') \<longleftrightarrow> w' = w \<and> rate_unlock_count w uid 60 < rate_max_unlocks_per_minute st"
  by (auto simp: unlock_budget_def check_unlock_def unlock_decision_def comp_simps split: prod.splits sum.splits)

lemma unlock_online_Inr:
  "unlock_online x base code w = (Inr u, w') \<longleftrightarrow> w' = w \<and> is_online (w_hub w) code"
  by (auto simp: unlock_online_def comp_simps deny_never_returns)

lemma unlock_sign_Inr:
  "unlock_sign x st base door code w = (Inr (cid, payload, sg, kid), w') \<longleftrightarrow>
     w' = w\<lparr>w_draws := w_draws w + 2\<rparr> \<and> cid = rand_uuid x (w_draws w) \<and>
     payload = unlock_payload st door code cid (w_now w div 1000000) (rand_bytes x (w_draws w + 1) 16) \<and>
     sign_command (signer_io x) payload = Inr (sg, kid)"
  by (auto simp: unlock_sign_def current_time_def run_simps deny_never_returns split: sum.splits option.splits)

lemma unlock_deliver_Inr:
  "unlock_deliver x st base door code cid en w = (Inr ack, w') \<longleftrightarrow>
     send_command x code en (command_ttl_seconds st) w = (Inr ack, w') \<and> get_or JNull ack ''result'' = JStr ''opened''"
  by (auto simp: unlock_deliver_def comp_simps deny_never_returns split: sum.splits prod.splits option.splits)

lemma rate_unlock_push:
  "rate_unlock_count (audit_push x ev oc en w) uid n = rate_unlock_count w uid n +
     (if en_actor_id en = Some uid \<and> prefix ''door.unlock'' ev \<and> 0 < n then 1 else 0)"
  by (simp add: rate_unlock_count_def) (simp add: audit_push_def audit_hash_chain_def audit_row_of_def Let_def)


lemma unlock_Inr:
  assumes "unlock x st u d o' pr ip w = (Inr res, w')"
  obtains door c age w1 w2 w3 w4 sg kid ack where
    "inet_valid x ip" and "doors_by_id w o' = Some (door, Some c)" and "dr_is_active door" and "\<not> c_is_blocked c"
    and "grant_open x w u o'"
    and "verify_proximity (sha256 x) (c_beacon_key c) pr (beacon_rotation_seconds st) (proximity_max_age_seconds st) (w_now w) =
      Inr (True, age)"
    and "rate_unlock_count w u 60 + 1 < rate_max_unlocks_per_minute st" and "is_online (w_hub w) (c_code c)"
    and "w1 = audit_push x ''door.unlock_requested'' ''success'' (unlock_base u d o' ip) w"
    and "sign_command (signer_io x) (unlock_payload st door (c_code c) (uo_command_id res) (w_now w div 1000000)
      (rand_bytes x (w_draws w + 1) 16)) = Inr (sg, kid)"
    and "w2 = w1\<lparr>w_draws := w_draws w + 2\<rparr>"
    and "w3 = audit_push x ''door.unlock_granted'' ''success'' (unlock_base u d o' ip\<lparr>en_controller_id := dr_controller_id door,
      en_detail := [(''command_id'', JStr (uo_command_id res)), (''signer_key_id'', kid),
        (''proximity_age_seconds'', case age of None \<Rightarrow> JNull | Some a \<Rightarrow> JInt a),
        (''duration_ms'', JInt (dr_unlock_seconds door * 1000))]\<rparr>) w2"
    and "send_command x (c_code c) (unlock_envelope (unlock_payload st door (c_code c) (uo_command_id res) (w_now w div 1000000)
      (rand_bytes x (w_draws w + 1) 16)) sg kid) (command_ttl_seconds st) w3 = (Inr ack, w4)"
    and "get_or JNull ack ''result'' = JStr ''opened''"
    and "w' = audit_push x ''door.unlock_confirmed'' ''success'' (unlock_base u d o' ip\<lparr>en_controller_id := dr_controller_id door,
      en_detail := [(''command_id'', JStr (uo_command_id res)), (''controller_uptime_ms'', get_or JNull ack ''uptime_ms''),
        (''relay_ms'', get_or JNull ack ''relay_ms'')]\<rparr>) w4"
    and "uo_opened_for_ms res = dr_unlock_seconds door * 1000" and "uo_command_id res = rand_uuid x (w_draws w)"
proof -
  have doors: "doors_by_id (audit_push x a b en w) o' = doors_by_id w o'"
    "grant_open x (audit_push x a b en w) u o' = grant_open x w u o'" for a b en
    by (simp_all add: doors_by_id_def controller_of_def controllers_by_id_def grant_open_def cong: option.case_cong)
  have base: "en_actor_id (unlock_base u d o' ip) = Some u" by (simp add: unlock_base_def)
  have pre: "prefix ''door.unlock'' (event_value DOOR_UNLOCK_REQUESTED)" by simp
  show thesis
    using assms
    unfolding unlock_def Let_def audit_success_def
    by (auto simp: bindE_Inr_iff audit_record_run audit_accepts_base unlock_door_Inr unlock_proximity_Inr unlock_budget_Inr
        unlock_online_Inr unlock_sign_Inr unlock_deliver_Inr ret_apply doors rate_unlock_push base pre
        dest!: unlock_permission_Inr split: if_splits prod.splits intro: that)
qed

end
