(* ===== verification/Auth.thy ===== *)
theory Auth
  imports Rate_Limit Sample
begin

text \<open>
  \<^verbatim>\<open>backend/app/services/auth_service.py\<close>: issuing token pairs, login, refresh with rotation and reuse
  detection, the session lookup, logout. \<^verbatim>\<open>refresh\<close> is written as its two parts, the SELECT of the
  row (\<open>refresh_lookup\<close>) and everything after it (\<open>refresh_act\<close>), because another request may run
  between them.
\<close>

record session =
  ss_user_id :: uuid
  ss_device_id :: uuid
  ss_username :: string
  ss_display_name :: string
  ss_is_admin :: bool
  ss_token_id :: uuid
  ss_family_id :: uuid

record issued_tokens =
  it_access_token :: string
  it_refresh_token :: string
  it_expires_in :: int
  it_family_id :: uuid

definition auth_error :: "string \<Rightarrow> 'a io" where
  "auth_error reason = throw (ApiError (AuthenticationError reason))"

definition issue_pair :: "ext \<Rightarrow> settings \<Rightarrow> uuid \<Rightarrow> uuid \<Rightarrow> uuid option \<Rightarrow> uuid option \<Rightarrow> issued_tokens io" where
  "issue_pair x st user_id device_id family parent_id =
     bindE (case family of Some f \<Rightarrow> ret f | None \<Rightarrow> draw_uuid x) (\<lambda>family_id.
     bindE (new_token x) (\<lambda>access.
     bindE (new_token x) (\<lambda>refresh.
     bindE (liftE (hash_token x st access)) (\<lambda>access_hash.
     bindE (tokens_insert x family_id user_id device_id ''access'' access_hash (access_token_ttl st) parent_id) (\<lambda>_.
     bindE (liftE (hash_token x st refresh)) (\<lambda>refresh_hash.
     bindE (tokens_insert x family_id user_id device_id ''refresh'' refresh_hash (refresh_token_ttl st) parent_id) (\<lambda>_.
       ret \<lparr>it_access_token = access, it_refresh_token = refresh,
            it_expires_in = access_token_ttl st, it_family_id = family_id\<rparr>)))))))"

definition login :: "ext \<Rightarrow> settings \<Rightarrow> string \<Rightarrow> string \<Rightarrow> uuid \<Rightarrow> string option \<Rightarrow> issued_tokens io" where
  "login x st username password device_id client_ip =
     bindE (gets (\<lambda>w. users_by_username w username)) (\<lambda>found.
     case found of
       None \<Rightarrow> bindE (burn_password_time x st) (\<lambda>_. auth_error ''unknown_user'')
     | Some user \<Rightarrow>
         bindE (verify_password x (u_password_hash user) password) (\<lambda>ok.
         bindE (guardE (\<not> ok) (auth_error ''bad_password'')) (\<lambda>_.
         bindE (guardE (\<not> u_is_active user)
                  (bindE (burn_password_time x st) (\<lambda>_. auth_error ''user_disabled''))) (\<lambda>_.
         bindE (gets (\<lambda>w. devices_by_id w device_id)) (\<lambda>device.
         case device of
           None \<Rightarrow> auth_error ''device_not_bound''
         | Some d \<Rightarrow>
             bindE (guardE (d_user_id d \<noteq> u_id user) (auth_error ''device_not_bound'')) (\<lambda>_.
             bindE (guardE (d_is_blocked d) (auth_error ''device_blocked'')) (\<lambda>_.
             bindE (guardE (attestation_mode st = Strict \<and> d_attestation_status d \<noteq> ''verified'')
                      (auth_error ''device_not_attested'')) (\<lambda>_.
             bindE (issue_pair x st (u_id user) device_id None None) (\<lambda>pair.
             bindE (users_touch_login (u_id user)) (\<lambda>_.
             bindE (devices_touch_seen device_id) (\<lambda>_.
             bindE (audit_success x AUTH_LOGIN ((entry ''user'')\<lparr>en_actor_id := Some (u_id user),
                      en_device_id := Some device_id, en_client_ip := client_ip,
                      en_detail := [(''family_id'', JStr (it_family_id pair))]\<rparr>)) (\<lambda>_.
               ret pair))))))))))))"

definition refresh_lookup :: "ext \<Rightarrow> settings \<Rightarrow> string \<Rightarrow> token_view option io" where
  "refresh_lookup x st refresh_token =
     bindE (liftE (hash_token x st refresh_token)) (\<lambda>h. gets (\<lambda>w. tokens_lookup w h ''refresh''))"

definition refresh_reuse :: "ext \<Rightarrow> string option \<Rightarrow> token_view \<Rightarrow> instant \<Rightarrow> issued_tokens io" where
  "refresh_reuse x client_ip r used_at =
     bindE (tokens_revoke_family (t_family_id (tv_row r)) ''refresh token reuse detected'') (\<lambda>revoked.
     bindE (audit_failure x AUTH_REFRESH_REUSE ((entry ''device'')\<lparr>en_actor_id := Some (t_user_id (tv_row r)),
              en_device_id := Some (t_device_id (tv_row r)), en_client_ip := client_ip,
              en_detail := [(''family_id'', JStr (t_family_id (tv_row r))), (''tokens_revoked'', JInt revoked),
                            (''first_used_at'', JStr (iso_text used_at))]\<rparr>)) (\<lambda>_.
       auth_error ''refresh_reuse''))"

definition refresh_rotate :: "ext \<Rightarrow> settings \<Rightarrow> string option \<Rightarrow> token_view \<Rightarrow> issued_tokens io" where
  "refresh_rotate x st client_ip r =
     bindE (tokens_mark_used (t_id (tv_row r))) (\<lambda>_.
     bindE (tokens_revoke (t_id (tv_row r)) ''rotated'') (\<lambda>_.
     bindE (issue_pair x st (t_user_id (tv_row r)) (t_device_id (tv_row r))
              (Some (t_family_id (tv_row r))) (Some (t_id (tv_row r)))) (\<lambda>pair.
     bindE (audit_success x AUTH_REFRESH ((entry ''user'')\<lparr>en_actor_id := Some (t_user_id (tv_row r)),
              en_device_id := Some (t_device_id (tv_row r)), en_client_ip := client_ip,
              en_detail := [(''family_id'', JStr (t_family_id (tv_row r)))]\<rparr>)) (\<lambda>_.
       ret pair))))"

definition refresh_act :: "ext \<Rightarrow> settings \<Rightarrow> string option \<Rightarrow> token_view option \<Rightarrow> issued_tokens io" where
  "refresh_act x st client_ip found =
     (case found of
        None \<Rightarrow> auth_error ''unknown_refresh_token''
      | Some r \<Rightarrow>
          (case t_used_at (tv_row r) of
             Some used_at \<Rightarrow> refresh_reuse x client_ip r used_at
           | None \<Rightarrow>
               bindE current_time (\<lambda>now.
               bindE (guardE (\<not> tokens_is_live r now) (auth_error ''refresh_not_live'')) (\<lambda>_.
                 refresh_rotate x st client_ip r))))"

definition refresh :: "ext \<Rightarrow> settings \<Rightarrow> string \<Rightarrow> string option \<Rightarrow> issued_tokens io" where
  "refresh x st refresh_token client_ip =
     bindE (refresh_lookup x st refresh_token) (refresh_act x st client_ip)"

definition resolve_access_token :: "ext \<Rightarrow> settings \<Rightarrow> string \<Rightarrow> session io" where
  "resolve_access_token x st token =
     bindE (liftE (hash_token x st token)) (\<lambda>h.
     bindE (gets (\<lambda>w. tokens_lookup w h ''access'')) (\<lambda>found.
     bindE current_time (\<lambda>now.
     case found of
       None \<Rightarrow> auth_error ''access_token_not_live''
     | Some r \<Rightarrow>
         bindE (guardE (\<not> tokens_is_live r now) (auth_error ''access_token_not_live'')) (\<lambda>_.
         bindE (guardE (attestation_mode st = Strict \<and> tv_attestation_status r \<noteq> ''verified'')
                  (auth_error ''device_not_attested'')) (\<lambda>_.
           ret \<lparr>ss_user_id = t_user_id (tv_row r), ss_device_id = t_device_id (tv_row r),
                ss_username = tv_username r, ss_display_name = tv_display_name r,
                ss_is_admin = tv_user_is_admin r, ss_token_id = t_id (tv_row r),
                ss_family_id = t_family_id (tv_row r)\<rparr>)))))"

definition logout :: "ext \<Rightarrow> session \<Rightarrow> bool \<Rightarrow> string option \<Rightarrow> int io" where
  "logout x ss all_devices client_ip =
     bindE (if all_devices then tokens_revoke_device_sessions (ss_device_id ss) ''logout_all''
            else tokens_revoke_family (ss_family_id ss) ''logout'') (\<lambda>revoked.
     bindE (audit_success x AUTH_LOGOUT ((entry ''user'')\<lparr>en_actor_id := Some (ss_user_id ss),
              en_device_id := Some (ss_device_id ss), en_client_ip := client_ip,
              en_detail := [(''tokens_revoked'', JInt revoked), (''all_devices'', JBool all_devices)]\<rparr>)) (\<lambda>_.
       ret revoked))"

definition create_user :: "ext \<Rightarrow> settings \<Rightarrow> string \<Rightarrow> string \<Rightarrow> string \<Rightarrow> bool \<Rightarrow> uuid io" where
  "create_user x st username display_name password is_admin =
     bindE (hash_password x st password) (\<lambda>h. users_create x username display_name h is_admin)"

section \<open>Frames\<close>

lemma safe_auth_error [frame_intros]: "evolves (safe x) (auth_error r)"
  unfolding auth_error_def by (intro frame_intros)

lemma safe_issue_pair [frame_intros]: "evolves (safe x) (issue_pair x' st a b c d)"
  unfolding issue_pair_def by (intro frame_intros)

lemma safe_login [frame_intros]: "evolves (safe x) (login x st a b c d)"
  unfolding login_def by (intro frame_intros)

lemma safe_refresh_lookup [frame_intros]: "evolves (safe x) (refresh_lookup x' st a)"
  unfolding refresh_lookup_def by (intro frame_intros)

lemma safe_refresh_act [frame_intros]: "evolves (safe x) (refresh_act x st a b)"
  unfolding refresh_act_def refresh_reuse_def refresh_rotate_def by (intro frame_intros)

lemma safe_refresh [frame_intros]: "evolves (safe x) (refresh x st a b)"
  unfolding refresh_def by (intro frame_intros)

lemma safe_resolve [frame_intros]: "evolves (safe x) (resolve_access_token x' st a)"
  unfolding resolve_access_token_def by (intro frame_intros)

lemma safe_logout [frame_intros]: "evolves (safe x) (logout x a b c)"
  unfolding logout_def by (intro frame_intros)

lemma safe_create_user [frame_intros]: "evolves (safe x) (create_user x' st a b c d)"
  unfolding create_user_def by (intro frame_intros)

section \<open>What issuing leaves behind\<close>

lemma auth_error_run: "auth_error r w = (Inl (ApiError (AuthenticationError r)), w)"
  by (simp add: auth_error_def throw_apply)

lemma guard_auth_Inr: "guardE b (auth_error r) w = (Inr u, w') \<longleftrightarrow> \<not> b \<and> w' = w"
  by (auto simp: guardE_apply auth_error_run)

lemma tokens_insert_Inr:
  assumes "tokens_insert x fid uid did kind h ttl par w = (Inr tid, w')"
  shows "w' = w\<lparr>w_draws := w_draws w + 1,
      w_tokens := w_tokens w @ [token_row_of tid fid uid did kind h ttl par (w_now w)]\<rparr>"
    and "tid \<notin> set (map t_id (w_tokens w))" and "h \<notin> set (map t_token_hash (w_tokens w))"
  using assms by (auto simp: tokens_insert_def run_simps list_ex_iff split: if_splits)

lemma new_token_run:
  "new_token x w = (Inr (urlsafe_nopad (rand_bytes x (w_draws w) 32)), w\<lparr>w_draws := w_draws w + 1\<rparr>)"
  by (simp add: new_token_def token_urlsafe_def TOKEN_BYTES_def run_simps)

lemma hash_token_Inr:
  "hash_token x st t = Inr h \<longleftrightarrow> (\<exists>p. pepper_bytes st = Inr p \<and> h = sha256 x (p @ utf8 t))"
  by (auto simp: hash_token_def bindS_Inr_iff)

lemma issue_pair_Inr:
  assumes "issue_pair x st uid did fam par w = (Inr pair, w')"
  obtains ta tr ha hr n where
    "w' = w\<lparr>w_draws := n, w_tokens := w_tokens w @
       [token_row_of ta (it_family_id pair) uid did ''access'' ha (access_token_ttl st) par (w_now w),
        token_row_of tr (it_family_id pair) uid did ''refresh'' hr (refresh_token_ttl st) par (w_now w)]\<rparr>"
    and "hash_token x st (it_access_token pair) = Inr ha" and "hash_token x st (it_refresh_token pair) = Inr hr"
    and "ha \<noteq> hr" and "ta \<noteq> tr"
    and "{ta, tr} \<inter> set (map t_id (w_tokens w)) = {}" and "{ha, hr} \<inter> set (map t_token_hash (w_tokens w)) = {}"
    and "case fam of None \<Rightarrow> True | Some f \<Rightarrow> it_family_id pair = f"
proof -
  obtain fid n where f: "(case fam of Some f \<Rightarrow> ret f | None \<Rightarrow> draw_uuid x) w = (Inr fid, w\<lparr>w_draws := n\<rparr>)"
    and fid: "case fam of None \<Rightarrow> True | Some g \<Rightarrow> fid = g"
  proof (cases fam)
    case None
    then show thesis using that by (simp add: run_simps)
  next
    case (Some f)
    then show thesis using that [of f "w_draws w"] by (simp add: run_simps)
  qed
  obtain ha hr ta tr w2 where
      ha: "hash_token x st (it_access_token pair) = Inr ha" and hr: "hash_token x st (it_refresh_token pair) = Inr hr"
    and ia: "tokens_insert x fid uid did ''access'' ha (access_token_ttl st) par (w\<lparr>w_draws := n + 2\<rparr>) = (Inr ta, w2)"
    and ir: "tokens_insert x fid uid did ''refresh'' hr (refresh_token_ttl st) par w2 = (Inr tr, w')"
    and pair: "it_family_id pair = fid"
    using assms by (auto simp: issue_pair_def bindE_Inr_iff f new_token_run liftE_apply ret_apply)
  note a = tokens_insert_Inr [OF ia] and r = tokens_insert_Inr [OF ir]
  show thesis
  proof (rule that [OF _ ha hr])
    show "w' = w\<lparr>w_draws := n + 4, w_tokens := w_tokens w @
       [token_row_of ta (it_family_id pair) uid did ''access'' ha (access_token_ttl st) par (w_now w),
        token_row_of tr (it_family_id pair) uid did ''refresh'' hr (refresh_token_ttl st) par (w_now w)]\<rparr>"
      using r(1) by (simp add: a(1) pair)
    show "ha \<noteq> hr" "ta \<noteq> tr" using r(2,3) by (auto simp: a(1) token_row_of_def)
    show "{ta, tr} \<inter> set (map t_id (w_tokens w)) = {}" "{ha, hr} \<inter> set (map t_token_hash (w_tokens w)) = {}"
      using a(2,3) r(2,3) by (auto simp: a(1))
    show "case fam of None \<Rightarrow> True | Some f \<Rightarrow> it_family_id pair = f" using fid pair by (simp split: option.splits)
  qed
qed

lemma issue_pair_keeps:
  assumes "issue_pair x st uid did fam par w = (Inr pair, w')"
  shows "\<exists>n ts. w' = w\<lparr>w_draws := n, w_tokens := ts\<rparr>" "w_audit w' = w_audit w"
  by (rule issue_pair_Inr [OF assms], simp, blast)+ (rule issue_pair_Inr [OF assms], simp)

lemma find_issued:
  assumes "issue_pair x st uid did fam par w = (Inr pair, w')"
  obtains ta tr ha hr where
    "hash_token x st (it_access_token pair) = Inr ha" and "hash_token x st (it_refresh_token pair) = Inr hr"
    and "find (\<lambda>t. t_token_hash t = ha \<and> t_kind t = ''access'') (w_tokens w') =
      Some (token_row_of ta (it_family_id pair) uid did ''access'' ha (access_token_ttl st) par (w_now w))"
    and "find (\<lambda>t. t_token_hash t = hr \<and> t_kind t = ''access'') (w_tokens w') = None"
    and "find (\<lambda>t. t_token_hash t = hr \<and> t_kind t = ''refresh'') (w_tokens w') =
      Some (token_row_of tr (it_family_id pair) uid did ''refresh'' hr (refresh_token_ttl st) par (w_now w))"
proof -
  from assms obtain ta tr ha hr n where w': "w' = w\<lparr>w_draws := n, w_tokens := w_tokens w @
       [token_row_of ta (it_family_id pair) uid did ''access'' ha (access_token_ttl st) par (w_now w),
        token_row_of tr (it_family_id pair) uid did ''refresh'' hr (refresh_token_ttl st) par (w_now w)]\<rparr>"
    and h: "hash_token x st (it_access_token pair) = Inr ha" "hash_token x st (it_refresh_token pair) = Inr hr"
    and ne: "ha \<noteq> hr" and new: "{ha, hr} \<inter> set (map t_token_hash (w_tokens w)) = {}"
    by (rule issue_pair_Inr)
  have none: "find (\<lambda>t. t_token_hash t = g \<and> t_kind t = k) (w_tokens w) = None" if "g \<in> {ha, hr}" for g k
    using new that by (auto simp: find_None_iff)
  show thesis
    by (rule that [OF h]) (use ne in \<open>simp_all add: w' find_append none token_row_of_def\<close>)
qed

lemma verify_password_Inr:
  assumes "verify_password x h p w = (Inr b, w')"
  shows "w' = w\<lparr>w_now := w_now w + max 0 (argon2_cost x h)\<rparr>" and "b \<longleftrightarrow> argon2_verify x h p = Inr ()"
  using assms by (auto simp: verify_password_def sleep_def comp_simps split: sum.splits if_splits)

section \<open>Issuing succeeds\<close>

text \<open>
  What issuing needs: a pepper, a 32-byte hash, positive lifetimes, an existing user and device,
  and random draws (numbered from \<open>n\<close>) that are not in the table yet.
\<close>

definition token_hash_of :: "ext \<Rightarrow> bytes \<Rightarrow> nat \<Rightarrow> bytes" where
  "token_hash_of x pepper n = sha256 x (pepper @ utf8 (urlsafe_nopad (rand_bytes x n 32)))"

definition fresh_draws :: "ext \<Rightarrow> bytes \<Rightarrow> nat \<Rightarrow> world \<Rightarrow> bool" where
  "fresh_draws x pepper n w \<longleftrightarrow>
     rand_uuid x (n + 2) \<noteq> rand_uuid x (n + 3) \<and> token_hash_of x pepper n \<noteq> token_hash_of x pepper (n + 1) \<and>
     {rand_uuid x (n + 2), rand_uuid x (n + 3)} \<inter> set (map t_id (w_tokens w)) = {} \<and>
     {token_hash_of x pepper n, token_hash_of x pepper (n + 1)} \<inter> set (map t_token_hash (w_tokens w)) = {}"

definition can_issue :: "ext \<Rightarrow> settings \<Rightarrow> bytes \<Rightarrow> bool" where
  "can_issue x st pepper \<longleftrightarrow> pepper_bytes st = Inr pepper \<and> (\<forall>b. length (sha256 x b) = 32) \<and>
     0 < access_token_ttl st \<and> 0 < refresh_token_ttl st"

definition issued_as :: "ext \<Rightarrow> settings \<Rightarrow> uuid \<Rightarrow> nat \<Rightarrow> issued_tokens" where
  "issued_as x st fid n = \<lparr>it_access_token = urlsafe_nopad (rand_bytes x n 32),
     it_refresh_token = urlsafe_nopad (rand_bytes x (n + 1) 32), it_expires_in = access_token_ttl st, it_family_id = fid\<rparr>"

definition issued_rows :: "ext \<Rightarrow> settings \<Rightarrow> bytes \<Rightarrow> uuid \<Rightarrow> uuid \<Rightarrow> uuid \<Rightarrow> uuid option \<Rightarrow> nat \<Rightarrow> instant \<Rightarrow> token_row list" where
  "issued_rows x st pepper fid uid did par n now =
     [token_row_of (rand_uuid x (n + 2)) fid uid did ''access'' (token_hash_of x pepper n) (access_token_ttl st) par now,
      token_row_of (rand_uuid x (n + 3)) fid uid did ''refresh'' (token_hash_of x pepper (n + 1)) (refresh_token_ttl st) par now]"

lemma tokens_insert_run:
  assumes "kind = ''access'' \<or> kind = ''refresh''" and "length h = 32" and "0 < ttl" and "user_exists w uid"
    and "devices_by_id w did \<noteq> None" and "case par of None \<Rightarrow> True | Some q \<Rightarrow> q \<in> set (map t_id (w_tokens w))"
    and "rand_uuid x (w_draws w) \<notin> set (map t_id (w_tokens w))" and "h \<notin> set (map t_token_hash (w_tokens w))"
  shows "tokens_insert x fid uid did kind h ttl par w = (Inr (rand_uuid x (w_draws w)), w\<lparr>w_draws := w_draws w + 1,
      w_tokens := w_tokens w @ [token_row_of (rand_uuid x (w_draws w)) fid uid did kind h ttl par (w_now w)]\<rparr>)"
proof -
  have "\<not> list_ex (\<lambda>t. t_id t = rand_uuid x (w_draws w) \<or> t_token_hash t = h) (w_tokens w)"
    using assms(7,8) by (force simp: list_ex_iff)
  moreover have "case par of None \<Rightarrow> True | Some q \<Rightarrow> list_ex (\<lambda>t. t_id t = q) (w_tokens w)"
    using assms(6) by (simp add: list_ex_key split: option.splits)
  moreover have "kind \<in> set TOKEN_KINDS" using assms(1) by (auto simp: TOKEN_KINDS_def)
  ultimately show ?thesis
    using assms(2-5)
    by (simp add: tokens_insert_def run_simps token_row_of_def user_exists_def devices_by_id_def split: option.splits)
qed

lemma issue_pair_run:
  assumes "can_issue x st pepper" and "fresh_draws x pepper (w_draws w + (if fam = None then 1 else 0)) w"
    and "user_exists w uid" and "devices_by_id w did \<noteq> None"
    and "case par of None \<Rightarrow> True | Some q \<Rightarrow> q \<in> set (map t_id (w_tokens w))"
  shows "issue_pair x st uid did fam par w =
    (let fid = (case fam of None \<Rightarrow> rand_uuid x (w_draws w) | Some f \<Rightarrow> f); n = w_draws w + (if fam = None then 1 else 0)
     in (Inr (issued_as x st fid n),
         w\<lparr>w_draws := n + 4, w_tokens := w_tokens w @ issued_rows x st pepper fid uid did par n (w_now w)\<rparr>))"
proof -
  define n where "n = w_draws w + (if fam = None then 1 else 0)"
  define fid where "fid = (case fam of None \<Rightarrow> rand_uuid x (w_draws w) | Some f \<Rightarrow> f)"
  note fresh = assms(2) [folded n_def, unfolded fresh_draws_def]
  have f: "(case fam of Some f \<Rightarrow> ret f | None \<Rightarrow> draw_uuid x) w = (Inr fid, w\<lparr>w_draws := n\<rparr>)"
    by (cases fam) (simp_all add: run_simps n_def fid_def)
  have h: "hash_token x st (urlsafe_nopad (rand_bytes x k 32)) = Inr (token_hash_of x pepper k)" for k
    using assms(1) by (simp add: hash_token_def can_issue_def token_hash_of_def)
  have len: "length (token_hash_of x pepper k) = 32" for k using assms(1) by (simp add: can_issue_def token_hash_of_def)
  have a: "tokens_insert x fid uid did ''access'' (token_hash_of x pepper n) (access_token_ttl st) par (w\<lparr>w_draws := n + 2\<rparr>) =
      (Inr (rand_uuid x (n + 2)), w\<lparr>w_draws := n + 3, w_tokens := w_tokens w @ [token_row_of (rand_uuid x (n + 2)) fid uid did
        ''access'' (token_hash_of x pepper n) (access_token_ttl st) par (w_now w)]\<rparr>)" (is "_ = (_, ?w1)")
    using assms(1,3-5) fresh len
    by (subst tokens_insert_run)
      (auto simp: can_issue_def user_exists_def devices_by_id_def split: option.splits)
  have r: "tokens_insert x fid uid did ''refresh'' (token_hash_of x pepper (n + 1)) (refresh_token_ttl st) par ?w1 =
      (Inr (rand_uuid x (n + 3)), w\<lparr>w_draws := n + 4, w_tokens := w_tokens w @ issued_rows x st pepper fid uid did par n (w_now w)\<rparr>)"
    using assms(1,3-5) fresh len
    by (subst tokens_insert_run)
      (auto simp: can_issue_def user_exists_def devices_by_id_def token_row_of_def issued_rows_def split: option.splits)
  show ?thesis
    using r unfolding n_def [symmetric] fid_def [symmetric]
    by (simp add: issue_pair_def bindE_apply f new_token_run liftE_apply h a [simplified] ret_apply issued_as_def Let_def)
qed

section \<open>Lookups in a well-formed state\<close>

lemma find_by_hash:
  assumes "db_inv x w" and "t \<in> set (w_tokens w)"
  shows "find (\<lambda>s. t_token_hash s = t_token_hash t \<and> t_kind s = k) (w_tokens w) = (if t_kind t = k then Some t else None)"
proof -
  have inj: "inj_on t_token_hash (set (w_tokens w))" using assms(1) by (simp add: db_inv_defs distinct_map)
  have "s = t" if "s \<in> set (w_tokens w)" "t_token_hash s = t_token_hash t" for s
    using inj_onD [OF inj that(2) that(1) assms(2)] .
  then have "find (\<lambda>s. t_token_hash s = t_token_hash t \<and> t_kind s = k) (w_tokens w) =
      find (\<lambda>s. s = t \<and> t_kind t = k) (w_tokens w)"
    by (intro find_cong_set) auto
  moreover have "find (\<lambda>s. s = t) xs = (if t \<in> set xs then Some t else None)" for xs by (induction xs) auto
  ultimately show ?thesis using assms(2) by (simp add: find_None_iff)
qed

lemma lookup_row:
  assumes "db_inv x w" and "t \<in> set (w_tokens w)"
  shows "\<exists>r. tokens_lookup w (t_token_hash t) (t_kind t) = Some r \<and> tv_row r = t"
proof -
  have "users_by_id w (t_user_id t) \<noteq> None" "devices_by_id w (t_device_id t) \<noteq> None"
    using assms by (auto simp: by_id_None db_inv_defs)
  then show ?thesis by (auto simp: tokens_lookup_def find_by_hash [OF assms])
qed

lemma lookup_Some:
  assumes "tokens_lookup w h k = Some r"
  shows "tv_row r \<in> set (w_tokens w) \<and> t_token_hash (tv_row r) = h \<and> t_kind (tv_row r) = k"
  using assms by (auto simp: tokens_lookup_def split: option.splits dest: find_SomeD)

lemma token_stepD:
  assumes "token_step t t'"
  shows "t_id t' = t_id t" "t_token_hash t' = t_token_hash t" "t_kind t' = t_kind t" "t_family_id t' = t_family_id t"
    "t_device_id t' = t_device_id t" "t_used_at t \<noteq> None \<Longrightarrow> t_used_at t' = t_used_at t"
    "t_revoked_at t \<noteq> None \<Longrightarrow> t_revoked_at t' = t_revoked_at t"
  using assms by (cases t; cases t'; auto simp: token_step_def)+

lemma progress_row:
  assumes "progress w w'" and "t \<in> set (w_tokens w)"
  obtains t' where "t' \<in> set (w_tokens w')" and "token_step t t'"
  using grows_member [of token_step "w_tokens w" "w_tokens w'" t] assms by (auto simp: progress_def)

lemma revoked_not_live:
  assumes "db_inv x w" and "t \<in> set (w_tokens w)" and "t_revoked_at t \<noteq> None"
    and "hash_token x st tok = Inr (t_token_hash t)"
  shows "fst (resolve_access_token x st tok w) = Inl (ApiError (AuthenticationError ''access_token_not_live''))"
proof (cases "t_kind t = ''access''")
  case True
  then obtain r where "tokens_lookup w (t_token_hash t) ''access'' = Some r" "tv_row r = t"
    using lookup_row [OF assms(1,2)] by auto
  then show ?thesis using assms(3,4)
    by (simp add: resolve_access_token_def comp_simps current_time_def tokens_is_live_def auth_error_run)
next
  case False
  then have "tokens_lookup w (t_token_hash t) ''access'' = None" by (simp add: tokens_lookup_def find_by_hash [OF assms(1,2)])
  then show ?thesis using assms(4)
    by (simp add: resolve_access_token_def comp_simps current_time_def auth_error_run)
qed

lemma revoke_where_run:
  "revoke_where q reason w = (Inr (int (length (filter (\<lambda>t. q t \<and> t_revoked_at t = None) (w_tokens w)))),
     w\<lparr>w_tokens := update_rows (\<lambda>t. q t \<and> t_revoked_at t = None) (revoke_row (w_now w) reason) (w_tokens w)\<rparr>)"
  by (simp add: revoke_where_def comp_simps)

lemma revoke_where_all:
  assumes "t \<in> set (update_rows (\<lambda>t. q t \<and> t_revoked_at t = None) (revoke_row now reason) ts)"
    and "q t" and "\<And>t. q (revoke_row now reason t) = q t"
  shows "t_revoked_at t \<noteq> None"
  using assms by (auto simp: update_rows_set revoke_row_def split: if_splits)

section \<open>Concrete inputs\<close>

lemma sample_can_issue: "can_issue sample_ext sample_settings sample_key"
  by (simp add: can_issue_def sample_pepper)
    (simp add: sample_ext_def length_sample_hash sample_settings_def default_settings_def)

text \<open>A refresh token in the sample installation.\<close>

definition sample_token :: token_row where
  "sample_token = \<lparr>t_id = ''t1'', t_family_id = ''f1'', t_user_id = ''u1'', t_device_id = ''d1'', t_kind = ''refresh'',
     t_token_hash = sample_hash (sample_key @ utf8 ''tok''), t_parent_id = None, t_issued_at = 0,
     t_expires_at = 900000000, t_used_at = None, t_revoked_at = None, t_revoked_reason = None\<rparr>"

lemma race_draws:
  "distinct [t_token_hash sample_token, token_hash_of sample_ext sample_key 1, token_hash_of sample_ext sample_key 2,
     token_hash_of sample_ext sample_key 5, token_hash_of sample_ext sample_key 6]"
  by code_simp

lemma sample_hashes:
  "token_hash_of sample_ext sample_key 1 \<noteq> token_hash_of sample_ext sample_key 2"
  using race_draws by simp

lemma sample_ids: "rand_uuid sample_ext 3 \<noteq> rand_uuid sample_ext 4"
  by (simp add: sample_ext_def nat_digits.simps)

lemma sample_fresh: "fresh_draws sample_ext sample_key 1 sample_world"
  using sample_hashes sample_ids by (simp add: fresh_draws_def sample_world_def eval_nat_numeral)

lemma sample_lookups:
  "users_by_id sample_world ''u1'' = Some sample_user" "devices_by_id sample_world ''d1'' = Some sample_device"
  "users_by_username sample_world ''ann'' = Some sample_user" "user_exists sample_world ''u1''"
  by (simp_all add: users_by_id_def devices_by_id_def users_by_username_def user_exists_def sample_world_def sample_rows)

lemma sample_issue:
  "\<exists>w'. issue_pair sample_ext sample_settings ''u1'' ''d1'' None None sample_world =
     (Inr (issued_as sample_ext sample_settings (rand_uuid sample_ext 0) 1), w')"
proof -
  have n: "w_draws sample_world = 0" by (simp add: sample_world_def)
  show ?thesis
    using issue_pair_run [OF sample_can_issue, of sample_world None "''u1''" "''d1''" None] sample_fresh sample_lookups
    by (simp add: n Let_def)
qed

section \<open>Properties\<close>




lemma login_run:
  assumes "users_by_username w username = Some u" and "u \<in> set (w_users w)"
    and "argon2_verify x (u_password_hash u) password = Inr ()" and "u_is_active u"
    and "devices_by_id w did = Some d" and "d_user_id d = u_id u" and "\<not> d_is_blocked d"
    and "attestation_mode st = Strict \<longrightarrow> d_attestation_status d = ''verified''"
    and "can_issue x st pepper" and "fresh_draws x pepper (w_draws w + 1) w" and "inet_valid x ip"
  shows "fst (login x st username password did ip w) = Inr (issued_as x st (rand_uuid x (w_draws w)) (w_draws w + 1))"
proof -
  let ?w1 = "w\<lparr>w_now := w_now w + max 0 (argon2_cost x (u_password_hash u))\<rparr>"
  have v: "verify_password x (u_password_hash u) password w = (Inr True, ?w1)"
    using assms(3) by (simp add: verify_password_def sleep_def comp_simps)
  have ex: "user_exists ?w1 (u_id u)" using assms(2) by (auto simp: user_exists_def list_ex_iff)
  have dev: "devices_by_id ?w1 did = Some d" using assms(5) by (simp add: devices_by_id_def)
  obtain w2 where "issue_pair x st (u_id u) did None None ?w1 = (Inr (issued_as x st (rand_uuid x (w_draws w)) (w_draws w + 1)), w2)"
    using issue_pair_run [OF assms(9), of ?w1 None "u_id u" did None] assms(10) ex dev by (simp add: fresh_draws_def Let_def)
  then show ?thesis
    using assms(1,4,6-8,11) v dev
    by (cases "attestation_mode st = Strict") (simp_all add: login_def bindE_apply gets_apply guardE_apply users_touch_login_def devices_touch_seen_def puts_apply
        audit_success_def audit_record_run audit_accepts_def AUDIT_OUTCOMES_def ACTOR_TYPES_def entry_def ret_apply)
qed

lemma sample_login:
  "fst (login sample_ext sample_settings ''ann'' ''pw'' ''d1'' None sample_world) =
     Inr (issued_as sample_ext sample_settings (rand_uuid sample_ext (w_draws sample_world)) (w_draws sample_world + 1))"
proof (rule login_run [OF sample_lookups(3) _ _ _ sample_lookups(2) _ _ _ sample_can_issue])
  show "fresh_draws sample_ext sample_key (w_draws sample_world + 1) sample_world"
    using sample_fresh by (simp add: sample_world_def)
  show "argon2_verify sample_ext (u_password_hash sample_user) ''pw'' = Inr ()"
    by (simp add: sample_ext_def sample_rows)
qed (simp_all add: sample_world_def sample_rows inet_valid_def)

text \<open>
  A login that meets every condition succeeds: with an existing active user, a password
  that verifies, a bound, unblocked and (in strict mode) attested device, a pepper in place, fresh
  random draws and a client address the log can store, tokens are returned.
\<close>

theorem login_succeeds:
  assumes "users_by_username w username = Some u" and "u \<in> set (w_users w)"
    and "argon2_verify x (u_password_hash u) password = Inr ()" and "u_is_active u"
    and "devices_by_id w did = Some d" and "d_user_id d = u_id u" and "\<not> d_is_blocked d"
    and "attestation_mode st = Strict \<longrightarrow> d_attestation_status d = ''verified''"
    and "can_issue x st pepper" and "fresh_draws x pepper (w_draws w + 1) w" and "inet_valid x ip"
  shows "fst (login x st username password did ip w) = Inr (issued_as x st (rand_uuid x (w_draws w)) (w_draws w + 1))"
  by (rule login_run [OF assms])

theorem login_succeeds_witness:
  "fst (login sample_ext sample_settings ''ann'' ''pw'' ''d1'' None sample_world) =
     Inr (issued_as sample_ext sample_settings (rand_uuid sample_ext (w_draws sample_world)) (w_draws sample_world + 1))"
proof (rule login_succeeds [OF sample_lookups(3) _ _ _ sample_lookups(2) _ _ _ sample_can_issue])
  show "fresh_draws sample_ext sample_key (w_draws sample_world + 1) sample_world"
    using sample_fresh by (simp add: sample_world_def)
  show "argon2_verify sample_ext (u_password_hash sample_user) ''pw'' = Inr ()"
    by (simp add: sample_ext_def sample_rows)
qed (simp_all add: sample_world_def sample_rows inet_valid_def)


lemma refresh_run:
  assumes "hash_token x st tok = Inr h"
  shows "refresh x st tok ip w = refresh_act x st ip (tokens_lookup w h ''refresh'') w"
  using assms by (simp add: refresh_def refresh_lookup_def comp_simps)

lemma refresh_reuse_run:
  "\<exists>e w'. refresh_reuse x ip r used w = (Inl e, w')
     \<and> (\<forall>t \<in> set (w_tokens w'). t_family_id t = t_family_id (tv_row r) \<longrightarrow> t_revoked_at t \<noteq> None)"
  using revoke_where_all [where q = "\<lambda>t. t_family_id t = t_family_id (tv_row r)"]
  by (auto simp: refresh_reuse_def tokens_revoke_family_def revoke_where_run comp_simps audit_failure_def
      audit_record_run auth_error_run audit_push_def revoke_row_def)

lemma refresh_rotate_row:
  assumes "refresh_rotate x st ip r w = (Inr pair, w')" and "tv_row r \<in> set (w_tokens w)"
    and "t_used_at (tv_row r) = None" and "t_revoked_at (tv_row r) = None"
  shows "it_family_id pair = t_family_id (tv_row r)"
    and "\<exists>t' \<in> set (w_tokens w'). token_step (tv_row r) t' \<and> t_used_at t' = Some (w_now w) \<and> t_revoked_at t' = Some (w_now w)"
proof -
  let ?t = "tv_row r"
  define ts where "ts = update_rows (\<lambda>t. t_id t = t_id ?t \<and> t_revoked_at t = None) (revoke_row (w_now w) ''rotated'')
      (update_rows (\<lambda>t. t_id t = t_id ?t \<and> t_used_at t = None) (\<lambda>t. t\<lparr>t_used_at := Some (w_now w)\<rparr>) (w_tokens w))"
  obtain w2 where iss: "issue_pair x st (t_user_id ?t) (t_device_id ?t) (Some (t_family_id ?t)) (Some (t_id ?t))
        (w\<lparr>w_tokens := ts\<rparr>) = (Inr pair, w2)"
    and w': "w_tokens w' = w_tokens w2"
    using assms(1)
    by (auto simp: refresh_rotate_def tokens_mark_used_def tokens_revoke_def revoke_where_run bindE_Inr_iff puts_apply
        ret_apply ts_def audit_success_def audit_record_run audit_push_def split: if_splits)
  from iss show "it_family_id pair = t_family_id ?t" by (rule issue_pair_Inr) simp
  have "set ts \<subseteq> set (w_tokens w2)" using iss by (rule issue_pair_Inr) auto
  moreover have "?t\<lparr>t_used_at := Some (w_now w)\<rparr> \<in> set (update_rows (\<lambda>t. t_id t = t_id ?t \<and> t_used_at t = None)
      (\<lambda>t. t\<lparr>t_used_at := Some (w_now w)\<rparr>) (w_tokens w))"
    using assms(2,3) unfolding update_rows_set by (intro image_eqI [where x = ?t]) simp_all
  then have "?t\<lparr>t_used_at := Some (w_now w), t_revoked_at := Some (w_now w), t_revoked_reason := Some ''rotated''\<rparr> \<in> set ts"
    using assms(4) unfolding ts_def update_rows_set [of "\<lambda>t. t_id t = t_id ?t \<and> t_revoked_at t = None"]
    by (intro image_eqI [where x = "?t\<lparr>t_used_at := Some (w_now w)\<rparr>"]) (simp_all add: revoke_row_def)
  ultimately show "\<exists>t' \<in> set (w_tokens w'). token_step ?t t' \<and> t_used_at t' = Some (w_now w) \<and> t_revoked_at t' = Some (w_now w)"
    using assms(3,4) unfolding w'
    by (intro bexI [of _ "?t\<lparr>t_used_at := Some (w_now w), t_revoked_at := Some (w_now w), t_revoked_reason := Some ''rotated''\<rparr>"])
      (auto simp: token_step_def)
qed

lemma refresh_Inr:
  assumes "refresh x st tok ip w = (Inr pair, w')"
  obtains h r where "hash_token x st tok = Inr h" and "tokens_lookup w h ''refresh'' = Some r"
    and "t_used_at (tv_row r) = None" and "tokens_is_live r (w_now w)" and "refresh_rotate x st ip r w = (Inr pair, w')"
proof -
  obtain h where h: "hash_token x st tok = Inr h"
    using assms by (auto simp: refresh_def refresh_lookup_def bindE_Inr_iff liftE_apply)
  have act: "refresh_act x st ip (tokens_lookup w h ''refresh'') w = (Inr pair, w')" using assms refresh_run [OF h] by simp
  then obtain r where r: "tokens_lookup w h ''refresh'' = Some r"
    by (cases "tokens_lookup w h ''refresh''") (auto simp: refresh_act_def auth_error_run)
  have "t_used_at (tv_row r) = None"
  proof (rule ccontr)
    assume "t_used_at (tv_row r) \<noteq> None"
    then obtain u where "t_used_at (tv_row r) = Some u" by blast
    then show False using act r refresh_reuse_run [of x ip r u w] by (auto simp: refresh_act_def)
  qed
  then show thesis using act r that h
    by (auto simp: refresh_act_def bindE_Inr_iff current_time_def gets_apply guardE_apply auth_error_run split: if_splits)
qed

lemma refresh_rotate_run:
  assumes "db_inv x w" and "t \<in> set (w_tokens w)" and "t_id (tv_row r) = t_id t"
    and "t_user_id (tv_row r) = t_user_id t" and "t_device_id (tv_row r) = t_device_id t"
    and "can_issue x st pepper" and "fresh_draws x pepper (w_draws w) w" and "inet_valid x ip"
  shows "\<exists>w'. refresh_rotate x st ip r w = (Inr (issued_as x st (t_family_id (tv_row r)) (w_draws w)), w')
    \<and> w_now w' = w_now w \<and> w_draws w' = w_draws w + 4
    \<and> map t_id (w_tokens w') = map t_id (w_tokens w) @ [rand_uuid x (w_draws w + 2), rand_uuid x (w_draws w + 3)]
    \<and> map t_token_hash (w_tokens w') = map t_token_hash (w_tokens w) @
        [token_hash_of x pepper (w_draws w), token_hash_of x pepper (w_draws w + 1)]"
proof -
  let ?t = "tv_row r"
  define ts where "ts = update_rows (\<lambda>t. t_id t = t_id ?t \<and> t_revoked_at t = None) (revoke_row (w_now w) ''rotated'')
      (update_rows (\<lambda>t. t_id t = t_id ?t \<and> t_used_at t = None) (\<lambda>t. t\<lparr>t_used_at := Some (w_now w)\<rparr>) (w_tokens w))"
  have ids: "map t_id ts = map t_id (w_tokens w)" "map t_token_hash ts = map t_token_hash (w_tokens w)"
    by (simp_all add: ts_def update_rows_map revoke_row_def)
  have "fresh_draws x pepper (w_draws w) (w\<lparr>w_tokens := ts\<rparr>)"
    using assms(7) by (simp add: fresh_draws_def ids del: set_map)
  moreover have "user_exists (w\<lparr>w_tokens := ts\<rparr>) (t_user_id ?t)" "devices_by_id (w\<lparr>w_tokens := ts\<rparr>) (t_device_id ?t) \<noteq> None"
    using assms(1,2,4,5) unfolding user_exists_iff by_id_None by (auto simp: db_inv_defs)
  moreover have "t_id ?t \<in> set (map t_id ts)" using assms(2,3) unfolding ids by simp
  ultimately have "issue_pair x st (t_user_id ?t) (t_device_id ?t) (Some (t_family_id ?t)) (Some (t_id ?t))
        (w\<lparr>w_tokens := ts\<rparr>) = (Inr (issued_as x st (t_family_id ?t) (w_draws w)), w\<lparr>w_draws := w_draws w + 4,
          w_tokens := ts @ issued_rows x st pepper (t_family_id ?t) (t_user_id ?t) (t_device_id ?t) (Some (t_id ?t)) (w_draws w) (w_now w)\<rparr>)"
    using issue_pair_run [OF assms(6), of "w\<lparr>w_tokens := ts\<rparr>" "Some (t_family_id ?t)" "t_user_id ?t" "t_device_id ?t" "Some (t_id ?t)"]
    by (simp add: Let_def)
  then show ?thesis
    using assms(8) ids
    by (simp add: issued_rows_def token_row_of_def audit_push_def refresh_rotate_def tokens_mark_used_def tokens_revoke_def revoke_where_run bindE_apply puts_apply
        ret_apply ts_def [symmetric] audit_success_def audit_record_run audit_accepts_def AUDIT_OUTCOMES_def
        ACTOR_TYPES_def entry_def)
qed

lemma refresh_act_live:
  assumes "t_used_at (tv_row r) = None" and "tokens_is_live r (w_now w)"
  shows "refresh_act x st ip (Some r) w = refresh_rotate x st ip r w"
  using assms by (simp add: refresh_act_def comp_simps current_time_def)

definition token_world :: world where
  "token_world = sample_world\<lparr>w_tokens := [sample_token], w_draws := 1\<rparr>"

lemma token_world_inv: "db_inv sample_ext token_world"
  using sample_world_inv
  by (simp add: db_inv_defs token_world_def sample_token_def length_sample_hash) (simp add: sample_world_def sample_rows)

lemma token_world_fresh: "fresh_draws sample_ext sample_key 1 token_world"
proof -
  have h: "token_hash_of sample_ext sample_key 1 \<noteq> t_token_hash sample_token"
      "token_hash_of sample_ext sample_key 2 \<noteq> t_token_hash sample_token"
    using race_draws by auto
  have i: "rand_uuid sample_ext n \<noteq> ''t1''" for n by (simp add: sample_ext_def)
  show ?thesis
    using sample_hashes sample_ids h i i [symmetric] by (simp add: fresh_draws_def token_world_def eval_nat_numeral) (simp add: sample_token_def)
qed

lemma token_world_hash: "hash_token sample_ext sample_settings ''tok'' = Inr (t_token_hash sample_token)"
  by (simp add: hash_token_def sample_pepper) (simp add: sample_ext_def sample_token_def)

lemma token_world_lookup:
  "\<exists>r. tokens_lookup token_world (t_token_hash sample_token) ''refresh'' = Some r \<and> tv_row r = sample_token
     \<and> tokens_is_live r (w_now token_world)"
  by (simp add: tokens_lookup_def token_world_def tokens_is_live_def users_by_id_def devices_by_id_def)
    (simp add: sample_world_def sample_rows sample_token_def)

lemma token_world_rotate:
  assumes "tv_row r = sample_token"
  shows "\<exists>w'. refresh_rotate sample_ext sample_settings None r token_world =
      (Inr (issued_as sample_ext sample_settings ''f1'' 1), w') \<and> w_now w' = w_now token_world \<and> w_draws w' = 5
    \<and> map t_id (w_tokens w') = [''t1'', rand_uuid sample_ext 3, rand_uuid sample_ext 4]
    \<and> map t_token_hash (w_tokens w') = [t_token_hash sample_token, token_hash_of sample_ext sample_key 1,
        token_hash_of sample_ext sample_key 2]"
proof -
  have t: "sample_token \<in> set (w_tokens token_world)" "w_draws token_world = 1" "w_tokens token_world = [sample_token]"
      "t_id sample_token = ''t1''" "t_family_id sample_token = ''f1''"
    by (simp_all add: token_world_def) (simp_all add: sample_token_def)
  show ?thesis
    using refresh_rotate_run [OF token_world_inv t(1), of r sample_settings sample_key None]
      sample_can_issue token_world_fresh
    by (simp add: assms inet_valid_def t eval_nat_numeral)
qed

lemma token_world_refresh:
  "\<exists>w'. refresh sample_ext sample_settings ''tok'' None token_world =
     (Inr (issued_as sample_ext sample_settings ''f1'' 1), w')"
proof -
  obtain r where r: "tokens_lookup token_world (t_token_hash sample_token) ''refresh'' = Some r" "tv_row r = sample_token"
      "tokens_is_live r (w_now token_world)" using token_world_lookup by blast
  have "t_used_at (tv_row r) = None" by (simp add: r(2) sample_token_def)
  then show ?thesis
    using refresh_act_live [of r token_world] r token_world_rotate [OF r(2)] refresh_run [OF token_world_hash] by auto
qed

text \<open>
  Claim C6. A refresh token works once. After a refresh succeeded, presenting the same token
  again, at any later time and whatever happened in between, is refused and leaves every token
  of the family revoked.
\<close>

theorem refresh_token_works_once:
  assumes "db_inv x w" and "refresh x st tok ip w = (Inr pair, w')" and "progress w' v" and "db_inv x v"
  shows "\<exists>e v'. refresh x st tok ip' v = (Inl e, v')
    \<and> (\<forall>t \<in> set (w_tokens v'). t_family_id t = it_family_id pair \<longrightarrow> t_revoked_at t \<noteq> None)"
proof -
  from assms(2) obtain h r where h: "hash_token x st tok = Inr h" and r: "tokens_lookup w h ''refresh'' = Some r"
    and unused: "t_used_at (tv_row r) = None" and live: "tokens_is_live r (w_now w)"
    and rot: "refresh_rotate x st ip r w = (Inr pair, w')"
    by (rule refresh_Inr)
  note row = lookup_Some [OF r]
  from refresh_rotate_row [OF rot] row unused live obtain t' where t': "t' \<in> set (w_tokens w')" "token_step (tv_row r) t'"
      "t_used_at t' \<noteq> None" and fam: "it_family_id pair = t_family_id (tv_row r)"
    by (auto simp: tokens_is_live_def)
  obtain t where t: "t \<in> set (w_tokens v)" "token_step t' t" using progress_row [OF assms(3) t'(1)] .
  have same: "t_token_hash t = h" "t_kind t = ''refresh''" "t_family_id t = it_family_id pair" "t_used_at t \<noteq> None"
    using token_stepD [OF t(2)] token_stepD [OF t'(2)] t'(3) row fam by simp_all
  obtain r' where r': "tokens_lookup v h ''refresh'' = Some r'" "tv_row r' = t"
    using lookup_row [OF assms(4) t(1)] same by auto
  obtain u where "t_used_at t = Some u" using same(4) by auto
  then have "refresh x st tok ip' v = refresh_reuse x ip' r' u v"
    by (simp add: refresh_run [OF h] r' refresh_act_def)
  then show ?thesis using refresh_reuse_run [of x ip' r' u v] r'(2) same(3) by simp
qed

theorem refresh_token_works_once_witness:
  "\<exists>w' e v'. refresh sample_ext sample_settings ''tok'' None token_world =
      (Inr (issued_as sample_ext sample_settings ''f1'' 1), w')
    \<and> refresh sample_ext sample_settings ''tok'' None w' = (Inl e, v')
    \<and> (\<forall>t \<in> set (w_tokens v'). t_family_id t = ''f1'' \<longrightarrow> t_revoked_at t \<noteq> None)"
proof -
  obtain w' where w': "refresh sample_ext sample_settings ''tok'' None token_world =
      (Inr (issued_as sample_ext sample_settings ''f1'' 1), w')" using token_world_refresh by blast
  have "db_inv sample_ext w'"
    by (rule evolves_safe(3) [OF safe_refresh w' token_world_inv])
  from refresh_token_works_once [OF token_world_inv w' progress_refl this, of None] show ?thesis
    using w' by (auto simp: issued_as_def)
qed

text \<open>
  Claim C36. The rotation is a check followed by an act. Two requests that read the row of one
  refresh token before either has acted are both served: the second is given a pair although the
  first has already used and revoked the token.
\<close>

theorem refresh_race:
  assumes "db_inv x w" and "tokens_lookup w h ''refresh'' = Some r" and "t_used_at (tv_row r) = None"
    and "tokens_is_live r (w_now w)" and "refresh_act x st ip (Some r) w = (Inr pair, w')"
    and "can_issue x st pepper" and "fresh_draws x pepper (w_draws w') w'" and "inet_valid x ip'" and "w_now w' = w_now w"
  shows "fst (refresh_act x st ip' (Some r) w') = Inr (issued_as x st (t_family_id (tv_row r)) (w_draws w'))
    \<and> (\<exists>t \<in> set (w_tokens w'). t_id t = t_id (tv_row r) \<and> t_used_at t \<noteq> None \<and> t_revoked_at t \<noteq> None)"
proof -
  note row = lookup_Some [OF assms(2)]
  have rot: "refresh_rotate x st ip r w = (Inr pair, w')" using assms(3-5) by (simp add: refresh_act_live)
  have safe: "safe x w w'"
    by (rule evolves_safe(1) [OF safe_refresh_act assms(5)])
  have live: "tokens_is_live r (w_now w')" using assms(4,9) by simp
  obtain t where t: "t \<in> set (w_tokens w')" "token_step (tv_row r) t" "t_used_at t \<noteq> None" "t_revoked_at t \<noteq> None"
    using refresh_rotate_row(2) [OF rot] row assms(3,4) by (auto simp: tokens_is_live_def)
  have same: "t_id t = t_id (tv_row r)" "t_user_id t = t_user_id (tv_row r)" "t_device_id t = t_device_id (tv_row r)"
    using t(2) by (cases t; cases "tv_row r"; auto simp: token_step_def)+
  have "db_inv x w'" using safe assms(1) by (simp add: safe_def)
  from refresh_rotate_run [OF this t(1), of r st pepper ip'] assms(6-8) same
  have "fst (refresh_rotate x st ip' r w') = Inr (issued_as x st (t_family_id (tv_row r)) (w_draws w'))" by auto
  then show ?thesis using refresh_act_live [OF assms(3) live] t same by auto
qed

lemma race_ids: "distinct [''t1'', rand_uuid sample_ext 3, rand_uuid sample_ext 4, rand_uuid sample_ext 7, rand_uuid sample_ext 8]"
  by (simp add: sample_ext_def nat_digits.simps)

theorem refresh_race_witness:
  "\<exists>r w'. tokens_lookup token_world (t_token_hash sample_token) ''refresh'' = Some r
    \<and> refresh_act sample_ext sample_settings None (Some r) token_world = (Inr (issued_as sample_ext sample_settings ''f1'' 1), w')
    \<and> fst (refresh_act sample_ext sample_settings None (Some r) w') = Inr (issued_as sample_ext sample_settings ''f1'' 5)"
proof -
  obtain r where r: "tokens_lookup token_world (t_token_hash sample_token) ''refresh'' = Some r" "tv_row r = sample_token"
      "tokens_is_live r (w_now token_world)" using token_world_lookup by blast
  have u: "t_used_at (tv_row r) = None" and f: "t_family_id (tv_row r) = ''f1''" by (simp_all add: r(2) sample_token_def)
  obtain w' where w': "refresh_act sample_ext sample_settings None (Some r) token_world =
        (Inr (issued_as sample_ext sample_settings ''f1'' 1), w')" and n: "w_now w' = w_now token_world" "w_draws w' = 5"
    and m: "map t_id (w_tokens w') = [''t1'', rand_uuid sample_ext 3, rand_uuid sample_ext 4]"
      "map t_token_hash (w_tokens w') = [t_token_hash sample_token, token_hash_of sample_ext sample_key 1,
        token_hash_of sample_ext sample_key 2]"
    using token_world_rotate [OF r(2)] refresh_act_live [OF u r(3)] by auto
  have "fresh_draws sample_ext sample_key (w_draws w') w'"
    unfolding fresh_draws_def m n using race_draws race_ids by auto
  from refresh_race [OF token_world_inv r(1) u r(3) w' sample_can_issue this, of None]
  show ?thesis using r(1) w' n f by (auto simp: inet_valid_def)
qed



end
