(* ===== verification/Enrollment.thy ===== *)
theory Enrollment
  imports Auth
begin

text \<open>
  \<^verbatim>\<open>backend/app/services/enrollment_service.py\<close>: the challenge store and the enrolment of a phone.
  \<^verbatim>\<open>enroll\<close> is its parts in order: the challenge (\<open>enroll_challenge\<close>), the code (\<open>enroll_claim\<close>), the
  attestation (\<open>enroll_attest\<close>), the device row (\<open>enroll_device\<close>), and the tokens.
\<close>

section \<open>Challenges\<close>

definition CHALLENGE_TTL_SECONDS :: int where
  "CHALLENGE_TTL_SECONDS = 300"

definition byte_hex :: "byte \<Rightarrow> string" where
  "byte_hex b = [hex_digit (unat b div 16), hex_digit (unat b mod 16)]"

text \<open>\<^verbatim>\<open>bytes.hex()\<close>.\<close>

definition bytes_hex :: "bytes \<Rightarrow> string" where
  "bytes_hex bs = concat (map byte_hex bs)"

definition challenges_sweep :: "unit io" where
  "challenges_sweep = puts (\<lambda>w. w\<lparr>w_challenges := filter (\<lambda>kv. \<not> ch_expires_at (snd kv) < w_now w) (w_challenges w)\<rparr>)"

definition challenges_issue :: "ext \<Rightarrow> bytes \<Rightarrow> bytes io" where
  "challenges_issue x code_hash =
     bindE challenges_sweep (\<lambda>_.
     bindE (draw_bytes x 32) (\<lambda>value.
     bindE (puts (\<lambda>w. w\<lparr>w_challenges := dict_set (w_challenges w) (bytes_hex code_hash)
              \<lparr>ch_value = value, ch_user_hint = [], ch_expires_at = w_now w + seconds CHALLENGE_TTL_SECONDS\<rparr>\<rparr>)) (\<lambda>_.
       ret value)))"

definition challenges_take :: "bytes \<Rightarrow> bytes option io" where
  "challenges_take code_hash =
     bindE challenges_sweep (\<lambda>_.
     bindE (gets (\<lambda>w. map_of (w_challenges w) (bytes_hex code_hash))) (\<lambda>item.
     bindE (puts (\<lambda>w. w\<lparr>w_challenges := filter (\<lambda>kv. fst kv \<noteq> bytes_hex code_hash) (w_challenges w)\<rparr>)) (\<lambda>_.
       ret (map_option ch_value item))))"

definition hash_code :: "ext \<Rightarrow> string \<Rightarrow> bytes" where
  "hash_code x code = sha256 x (utf8 (py_strip code))"

definition issue_challenge :: "ext \<Rightarrow> string \<Rightarrow> (string \<times> int) io" where
  "issue_challenge x enrollment_code =
     bindE (challenges_issue x (hash_code x enrollment_code)) (\<lambda>challenge.
       ret (b64encode challenge, CHALLENGE_TTL_SECONDS))"

section \<open>Enrolment\<close>

text \<open>\<^verbatim>\<open>base64.b64decode(s, validate=True)\<close>.\<close>

definition b64_strict :: "string \<Rightarrow> exn + bytes" where
  "b64_strict s =
     (if list_ex (\<lambda>c. (of_char c :: nat) \<ge> 128) s
      then Inl (ValueError ''string argument should contain only ASCII characters'')
      else (case b64decode True s of None \<Rightarrow> Inl BinasciiError | Some raw \<Rightarrow> Inr raw))"

text \<open>\<^verbatim>\<open>type(exc).__name__\<close> for what creating a device can raise.\<close>

definition exn_name :: "ext \<Rightarrow> exn \<Rightarrow> string" where
  "exn_name x e =
     (case e of
        DatabaseError table \<Rightarrow> db_error_name x table
      | BinasciiError \<Rightarrow> ''Error''
      | ValueError _ \<Rightarrow> ''ValueError''
      | _ \<Rightarrow> ''Exception'')"

definition enroll_denied :: "ext \<Rightarrow> uuid option \<Rightarrow> string option \<Rightarrow> (string \<times> json) list \<Rightarrow> int io" where
  "enroll_denied x actor_id client_ip detail =
     audit_failure x DEVICE_ENROLL_DENIED
       ((entry ''anonymous'')\<lparr>en_actor_id := actor_id, en_client_ip := client_ip, en_detail := detail\<rparr>)"

definition enroll_challenge :: "ext \<Rightarrow> bytes \<Rightarrow> string \<Rightarrow> string option \<Rightarrow> bytes io" where
  "enroll_challenge x code_hash presented_b64 client_ip =
     bindE (challenges_take code_hash) (\<lambda>expected.
     bindE (liftE (b64_strict presented_b64)) (\<lambda>presented.
       if expected \<noteq> Some presented
       then bindE (enroll_denied x None client_ip [(''reason'', JStr ''challenge_missing_or_stale'')]) (\<lambda>_.
              auth_error ''challenge_mismatch'')
       else ret presented))"

definition enroll_claim :: "ext \<Rightarrow> bytes \<Rightarrow> string option \<Rightarrow> (uuid \<times> uuid) io" where
  "enroll_claim x code_hash client_ip =
     bindE (enrollments_claim code_hash) (\<lambda>claimed.
     case claimed of
       None \<Rightarrow> bindE (enroll_denied x None client_ip [(''reason'', JStr ''enrollment_code_invalid_or_used'')]) (\<lambda>_.
                 auth_error ''enrollment_code_invalid'')
     | Some r \<Rightarrow> ret r)"

definition enroll_attest ::
  "ext \<Rightarrow> settings \<Rightarrow> string list \<Rightarrow> string \<Rightarrow> bytes \<Rightarrow> uuid \<Rightarrow> string option \<Rightarrow> (verdict \<times> json \<times> string) io"
where
  "enroll_attest x st chain integrity_token presented user_id client_ip =
     bindE (liftE (verify_key_attestation (certs x) chain presented None False)) (\<lambda>key_verdict.
     bindE (liftE (evaluate_play_integrity (decode_integrity_payload integrity_token)
              (play_integrity_package_name st) (android_cert_digest st))) (\<lambda>(integrity_ok, integrity_detail).
     bindE current_time (\<lambda>now.
       let accepted = av_ok key_verdict \<and> integrity_ok
       in if \<not> accepted \<and> attestation_mode st = Strict
          then bindE (enroll_denied x (Some user_id) client_ip
                 [(''reason'', JStr ''attestation_rejected''),
                  (''key_attestation'', as_detail (iso_text now) key_verdict), (''play_integrity'', integrity_detail)]) (\<lambda>_.
               auth_error ''attestation_rejected'')
          else ret (key_verdict, integrity_detail, if accepted then ''verified'' else ''exempt''))))"

definition enroll_device ::
  "ext \<Rightarrow> uuid \<Rightarrow> string \<Rightarrow> string \<Rightarrow> string option \<Rightarrow> string \<Rightarrow> verdict \<Rightarrow> json \<Rightarrow> string option \<Rightarrow> uuid io"
where
  "enroll_device x user_id label key_b64 app_version status key_verdict integrity_detail client_ip =
     catchE
       (bindE (liftE (b64_strict key_b64)) (\<lambda>public_key.
        bindE current_time (\<lambda>now.
          devices_create x user_id label public_key ''android'' app_version status
            (JObj [(''key_attestation'', as_detail (iso_text now) key_verdict), (''play_integrity'', integrity_detail)]))))
       (\<lambda>exc. bindE (enroll_denied x (Some user_id) client_ip
                [(''reason'', JStr ''device_create_failed''), (''error'', JStr (exn_name x exc))]) (\<lambda>_.
              throw (ApiError (Conflict ''device_already_enrolled''))))"

definition enroll ::
  "ext \<Rightarrow> settings \<Rightarrow> string \<Rightarrow> string \<Rightarrow> string \<Rightarrow> string list \<Rightarrow> string \<Rightarrow> string \<Rightarrow> string option \<Rightarrow> string option
    \<Rightarrow> (uuid \<times> string \<times> issued_tokens) io"
where
  "enroll x st code label key_b64 chain integrity_token presented_b64 app_version client_ip =
     bindE (enroll_challenge x (hash_code x code) presented_b64 client_ip) (\<lambda>presented.
     bindE (enroll_claim x (hash_code x code) client_ip) (\<lambda>(code_id, user_id).
     bindE (enroll_attest x st chain integrity_token presented user_id client_ip) (\<lambda>(key_verdict, integrity_detail, status).
     bindE (enroll_device x user_id label key_b64 app_version status key_verdict integrity_detail client_ip) (\<lambda>device_id.
     bindE (enrollments_attach_device code_id device_id) (\<lambda>_.
     bindE (issue_pair x st user_id device_id None None) (\<lambda>pair.
     bindE (audit_success x DEVICE_ENROLL ((entry ''user'')\<lparr>en_actor_id := Some user_id, en_device_id := Some device_id,
              en_client_ip := client_ip,
              en_detail := [(''label'', JStr label), (''attestation_status'', JStr status),
                (''security_level'', JStr (av_security_level key_verdict)), (''boot_state'', JStr (av_boot_state key_verdict))]\<rparr>)) (\<lambda>_.
       ret (device_id, status, pair))))))))"

section \<open>Frames\<close>

lemma safe_challenges [frame_intros]:
  "evolves (safe x) challenges_sweep" "evolves (safe x) (challenges_issue x' h)" "evolves (safe x) (challenges_take h)"
proof -
  have put: "evolves (safe x) (puts (\<lambda>w. w\<lparr>w_challenges := f w\<rparr>))" for f
    by (simp add: evolves_def puts_apply safe_def progress_def grows_refl db_inv_defs)
  show "evolves (safe x) challenges_sweep" "evolves (safe x) (challenges_issue x' h)" "evolves (safe x) (challenges_take h)"
    unfolding challenges_issue_def challenges_take_def challenges_sweep_def by (intro put frame_intros)+
qed

lemma safe_issue_challenge [frame_intros]: "evolves (safe x) (issue_challenge x' code)"
  unfolding issue_challenge_def by (intro frame_intros)

lemma safe_enroll [frame_intros]: "evolves (safe x) (enroll x st a b c d e f g h)"
  unfolding enroll_def enroll_challenge_def enroll_claim_def enroll_attest_def enroll_device_def enroll_denied_def
  by (intro frame_intros)

section \<open>What a successful enrolment has passed\<close>

definition challenge_live :: "world \<Rightarrow> bytes \<Rightarrow> bytes \<Rightarrow> bool" where
  "challenge_live w code_hash value \<longleftrightarrow>
     (\<exists>c. (bytes_hex code_hash, c) \<in> set (w_challenges w) \<and> ch_value c = value \<and> w_now w \<le> ch_expires_at c)"

lemma challenges_take_run:
  "challenges_take h w = (Inr (map_option ch_value (map_of (filter (\<lambda>kv. \<not> ch_expires_at (snd kv) < w_now w) (w_challenges w)) (bytes_hex h))),
     w\<lparr>w_challenges := filter (\<lambda>kv. fst kv \<noteq> bytes_hex h) (filter (\<lambda>kv. \<not> ch_expires_at (snd kv) < w_now w) (w_challenges w))\<rparr>)"
  by (simp add: challenges_take_def challenges_sweep_def comp_simps)

lemma enroll_denied_audit: "enroll_denied x a ip dt = audit_record x ''device.enroll_denied'' ''failure''
    ((entry ''anonymous'')\<lparr>en_actor_id := a, en_client_ip := ip, en_detail := dt\<rparr>)"
  by (simp add: enroll_denied_def audit_failure_def)

lemma refuse_never_returns:
  "bindE (enroll_denied x a ip dt) (\<lambda>_. auth_error r) w \<noteq> (Inr y, w')"
  "bindE (enroll_denied x a ip dt) (\<lambda>_. throw e) w \<noteq> (Inr y, w')"
  by (auto simp: bindE_Inr_iff auth_error_run throw_apply)

lemma enroll_challenge_Inr:
  assumes "enroll_challenge x h pb ip w = (Inr presented, w')"
  shows "b64_strict pb = Inr presented" and "challenge_live w h presented"
    and "\<exists>cs. w' = w\<lparr>w_challenges := cs\<rparr> \<and> map_of cs (bytes_hex h) = None"
proof -
  let ?live = "filter (\<lambda>kv. \<not> ch_expires_at (snd kv) < w_now w) (w_challenges w)"
  have run: "b64_strict pb = Inr presented" "map_option ch_value (map_of ?live (bytes_hex h)) = Some presented"
      "w' = w\<lparr>w_challenges := filter (\<lambda>kv. fst kv \<noteq> bytes_hex h) ?live\<rparr>"
    using assms by (auto simp: enroll_challenge_def bindE_Inr_iff challenges_take_run liftE_apply auth_error_run ret_apply
        split: if_splits)
  then show "b64_strict pb = Inr presented" "challenge_live w h presented"
    by (auto simp: challenge_live_def not_less dest!: map_of_SomeD)
  show "\<exists>cs. w' = w\<lparr>w_challenges := cs\<rparr> \<and> map_of cs (bytes_hex h) = None"
    using run(3) by (auto simp: map_of_eq_None_iff)
qed

lemma enroll_claim_Inr:
  assumes "enroll_claim x h ip w = (Inr (eid, uid), w')"
  obtains e where "e \<in> set (w_codes w)" and "open_code h (w_now w) e" and "eid = e_id e" and "uid = e_user_id e"
    and "w' = w\<lparr>w_codes := update_rows (open_code h (w_now w)) (\<lambda>e. e\<lparr>e_used_at := Some (w_now w)\<rparr>) (w_codes w)\<rparr>"
  using assms
  by (auto simp: enroll_claim_def enrollments_claim_def bindE_Inr_iff gets_apply puts_apply ret_apply auth_error_run dest!: find_SomeD
      split: option.splits)

lemma enroll_attest_Inr:
  assumes "enroll_attest x st chain tok presented uid ip w = (Inr (v, dt, status), w')"
  obtains ok where "verify_key_attestation (certs x) chain presented None False = Inr v"
    and "evaluate_play_integrity (decode_integrity_payload tok) (play_integrity_package_name st) (android_cert_digest st) = Inr (ok, dt)"
    and "status = (if av_ok v \<and> ok then ''verified'' else ''exempt'')" and "attestation_mode st = Strict \<longrightarrow> av_ok v \<and> ok"
    and "w' = w"
  using assms
  by (auto simp: enroll_attest_def bindE_Inr_iff liftE_apply current_time_def gets_apply Let_def ret_apply
      auth_error_run throw_apply split: if_splits prod.splits)

lemma devices_create_Inr:
  assumes "devices_create x uid label pk plat ver status dt w = (Inr did, w')"
  obtains d where "w' = w\<lparr>w_draws := w_draws w + 1, w_devices := w_devices w @ [d]\<rparr>" and "d_id d = did" and "d_user_id d = uid"
    and "d_public_key d = pk" and "d_attestation_status d = status" and "\<not> d_is_blocked d"
  using assms by (auto simp: devices_create_def run_simps split: if_splits)

lemma enroll_device_Inr:
  assumes "enroll_device x uid label kb ver status v dt ip w = (Inr did, w')"
  obtains d where "w' = w\<lparr>w_draws := w_draws w + 1, w_devices := w_devices w @ [d]\<rparr>" and "d_id d = did" and "d_user_id d = uid"
    and "b64_strict kb = Inr (d_public_key d)" and "d_attestation_status d = status" and "\<not> d_is_blocked d"
proof -
  from assms obtain pk dt' where pk: "b64_strict kb = Inr pk"
    and create: "devices_create x uid label pk ''android'' ver status dt' w = (Inr did, w')"
    by (auto simp: enroll_device_def catchE_apply bindE_apply liftE_apply current_time_def gets_apply refuse_never_returns
        split: sum.splits prod.splits)
      (auto simp: enroll_denied_audit audit_record_run bindE_apply throw_apply split: if_splits)
  from devices_create_Inr [OF create] pk that show thesis by metis
qed

lemma used_code_row:
  assumes "(e :: code_row) \<in> set rows" and "p e"
  shows "e\<lparr>e_used_at := Some t, e_used_by_device := Some did\<rparr> \<in> set (update_rows (\<lambda>c. e_id c = e_id e)
    (\<lambda>c. c\<lparr>e_used_by_device := Some did\<rparr>) (update_rows p (\<lambda>c. c\<lparr>e_used_at := Some t\<rparr>) rows))"
proof -
  have mem: "r \<in> set rs \<Longrightarrow> (if q r then f r else r) \<in> set (update_rows q f rs)" for r :: code_row and q f rs
    by (auto simp: update_rows_set)
  have "e\<lparr>e_used_at := Some t\<rparr> \<in> set (update_rows p (\<lambda>c. c\<lparr>e_used_at := Some t\<rparr>) rows)"
    using mem [OF assms(1), of p "\<lambda>c. c\<lparr>e_used_at := Some t\<rparr>"] assms(2) by simp
  from mem [OF this, of "\<lambda>c. e_id c = e_id e" "\<lambda>c. c\<lparr>e_used_by_device := Some did\<rparr>"] show ?thesis by simp
qed

lemma enroll_Inr:
  assumes "enroll x st code label kb chain tok pb ver ip w = (Inr (did, status, pair), w')"
  obtains presented cs e v dt ok d r where
    "b64_strict pb = Inr presented" and "challenge_live w (hash_code x code) presented"
    and "map_of cs (bytes_hex (hash_code x code)) = None"
    and "e \<in> set (w_codes w)" and "open_code (hash_code x code) (w_now w) e"
    and "verify_key_attestation (certs x) chain presented None False = Inr v"
    and "evaluate_play_integrity (decode_integrity_payload tok) (play_integrity_package_name st) (android_cert_digest st) = Inr (ok, dt)"
    and "status = (if av_ok v \<and> ok then ''verified'' else ''exempt'')" and "attestation_mode st = Strict \<longrightarrow> av_ok v \<and> ok"
    and "d_id d = did" and "d_user_id d = e_user_id e" and "b64_strict kb = Inr (d_public_key d)"
    and "d_attestation_status d = status" and "\<not> d_is_blocked d" and "w_devices w' = w_devices w @ [d]"
    and "w_codes w' = update_rows (\<lambda>c. e_id c = e_id e) (\<lambda>c. c\<lparr>e_used_by_device := Some did\<rparr>)
      (update_rows (open_code (hash_code x code) (w_now w)) (\<lambda>c. c\<lparr>e_used_at := Some (w_now w)\<rparr>) (w_codes w))"
    and "w_challenges w' = cs"
    and "w_audit w' = w_audit w @ [r]" and "a_event_type r = ''device.enroll''" and "a_outcome r = ''success''"
    and "a_actor_id r = Some (e_user_id e)" and "a_device_id r = Some did"
proof -
  from assms obtain presented w1 eid uid w2 v dt w3 w4 w5 w6 n where
      ch: "enroll_challenge x (hash_code x code) pb ip w = (Inr presented, w1)"
    and cl: "enroll_claim x (hash_code x code) ip w1 = (Inr (eid, uid), w2)"
    and at: "enroll_attest x st chain tok presented uid ip w2 = (Inr (v, dt, status), w3)"
    and dv: "enroll_device x uid label kb ver status v dt ip w3 = (Inr did, w4)"
    and tie: "enrollments_attach_device eid did w4 = (Inr (), w5)"
    and iss: "issue_pair x st uid did None None w5 = (Inr pair, w6)"
    and au: "audit_success x DEVICE_ENROLL ((entry ''user'')\<lparr>en_actor_id := Some uid, en_device_id := Some did,
        en_client_ip := ip, en_detail := [(''label'', JStr label), (''attestation_status'', JStr status),
          (''security_level'', JStr (av_security_level v)), (''boot_state'', JStr (av_boot_state v))]\<rparr>) w6 = (Inr n, w')"
    by (auto simp: enroll_def bindE_Inr_iff ret_apply split: prod.splits)
  obtain cs where w1: "w1 = w\<lparr>w_challenges := cs\<rparr>" "map_of cs (bytes_hex (hash_code x code)) = None"
    using enroll_challenge_Inr(3) [OF ch] by blast
  obtain e where e: "e \<in> set (w_codes w1)" "open_code (hash_code x code) (w_now w1) e" "eid = e_id e" "uid = e_user_id e"
    and w2: "w2 = w1\<lparr>w_codes := update_rows (open_code (hash_code x code) (w_now w1)) (\<lambda>e. e\<lparr>e_used_at := Some (w_now w1)\<rparr>) (w_codes w1)\<rparr>"
    by (rule enroll_claim_Inr [OF cl])
  obtain ok where att: "verify_key_attestation (certs x) chain presented None False = Inr v"
      "evaluate_play_integrity (decode_integrity_payload tok) (play_integrity_package_name st) (android_cert_digest st) = Inr (ok, dt)"
      "status = (if av_ok v \<and> ok then ''verified'' else ''exempt'')" "attestation_mode st = Strict \<longrightarrow> av_ok v \<and> ok" and w3: "w3 = w2"
    by (rule enroll_attest_Inr [OF at])
  obtain d where w4: "w4 = w3\<lparr>w_draws := w_draws w3 + 1, w_devices := w_devices w3 @ [d]\<rparr>" and d: "d_id d = did" "d_user_id d = uid"
      "b64_strict kb = Inr (d_public_key d)" "d_attestation_status d = status" "\<not> d_is_blocked d"
    by (rule enroll_device_Inr [OF dv])
  have w5: "w5 = w4\<lparr>w_codes := update_rows (\<lambda>c. e_id c = eid) (\<lambda>c. c\<lparr>e_used_by_device := Some did\<rparr>) (w_codes w4)\<rparr>"
    using tie by (simp add: enrollments_attach_device_def puts_apply)
  obtain m ts where w6: "w6 = w5\<lparr>w_draws := m, w_tokens := ts\<rparr>" using issue_pair_keeps(1) [OF iss] by blast
  have w': "w' = audit_push x ''device.enroll'' ''success'' ((entry ''user'')\<lparr>en_actor_id := Some uid, en_device_id := Some did,
        en_client_ip := ip, en_detail := [(''label'', JStr label), (''attestation_status'', JStr status),
          (''security_level'', JStr (av_security_level v)), (''boot_state'', JStr (av_boot_state v))]\<rparr>) w6"
    using au by (simp add: audit_success_def audit_record_run split: if_splits)
  show thesis
    by (rule that [OF enroll_challenge_Inr(1,2) [OF ch] w1(2) _ _ att d(1) _ d(3-5)])
      (use e d(2) in \<open>simp_all add: w' w6 w5 w4 w3 w2 w1(1) audit_push_def, simp_all add: audit_hash_chain_def audit_row_of_def Let_def\<close>)
qed

section \<open>Enrolment succeeds\<close>

lemma b64_strict_encode: "b64_strict (b64encode bs) = Inr bs"
proof -
  have d: "b64decode True (b64encode bs) = Some bs" by (rule b64decode_b64encode)
  then have "\<not> list_ex (\<lambda>c. (of_char c :: nat) \<ge> 128) (b64encode bs)" by (auto simp: b64decode_def split: if_splits)
  then show ?thesis using d by (simp add: b64_strict_def)
qed

lemma enroll_run:
  assumes inv: "db_inv x w" and ip: "inet_valid x ip"
    and ch: "map_of (filter (\<lambda>kv. \<not> ch_expires_at (snd kv) < w_now w) (w_challenges w)) (bytes_hex (hash_code x code)) = Some c"
      "b64_strict pb = Inr (ch_value c)"
    and e: "find (open_code (hash_code x code) (w_now w)) (w_codes w) = Some e"
    and att: "verify_key_attestation (certs x) chain (ch_value c) None False = Inr v"
      "evaluate_play_integrity (decode_integrity_payload tok) (play_integrity_package_name st) (android_cert_digest st) = Inr (ok, dt)"
      "attestation_mode st = Strict \<longrightarrow> av_ok v \<and> ok"
    and key: "b64_strict kb = Inr pk" "length pk = 32" "pk \<notin> set (map d_public_key (w_devices w))"
    and fresh: "rand_uuid x (w_draws w) \<notin> set (map d_id (w_devices w))" "can_issue x st pepper" "fresh_draws x pepper (w_draws w + 2) w"
  shows "\<exists>w'. enroll x st code label kb chain tok pb ver ip w =
    (Inr (rand_uuid x (w_draws w), if av_ok v \<and> ok then ''verified'' else ''exempt'',
      issued_as x st (rand_uuid x (w_draws w + 1)) (w_draws w + 2)), w')"
proof -
  let ?h = "hash_code x code" and ?did = "rand_uuid x (w_draws w)"
  let ?status = "if av_ok v \<and> ok then ''verified'' else ''exempt''"
  define w1 where "w1 = w\<lparr>w_challenges := filter (\<lambda>kv. fst kv \<noteq> bytes_hex ?h)
    (filter (\<lambda>kv. \<not> ch_expires_at (snd kv) < w_now w) (w_challenges w))\<rparr>"
  define w2 where "w2 = w1\<lparr>w_codes := update_rows (open_code ?h (w_now w)) (\<lambda>e. e\<lparr>e_used_at := Some (w_now w)\<rparr>) (w_codes w)\<rparr>"
  have uid: "user_exists w (e_user_id e)"
    using find_SomeD [OF e] inv by (auto simp: user_exists_iff db_inv_def refs_ok_def)
  have 1: "enroll_challenge x ?h pb ip w = (Inr (ch_value c), w1)"
    using ch by (simp add: enroll_challenge_def bindE_apply challenges_take_run liftE_apply ret_apply w1_def)
  have 2: "enroll_claim x ?h ip w1 = (Inr (e_id e, e_user_id e), w2)"
    using e by (simp add: enroll_claim_def enrollments_claim_def comp_simps w2_def w1_def)
  have 3: "enroll_attest x st chain tok (ch_value c) (e_user_id e) ip w2 = (Inr (v, dt, ?status), w2)"
    using att by (auto simp: enroll_attest_def comp_simps current_time_def Let_def)
  have make: "\<exists>d. devices_create x (e_user_id e) label pk ''android'' ver ?status dt' w2 =
      (Inr ?did, w2\<lparr>w_draws := w_draws w + 1, w_devices := w_devices w @ [d]\<rparr>) \<and> d_id d = ?did" for dt'
  proof -
    have "\<forall>d \<in> set (w_devices w). d_id d \<noteq> ?did \<and> d_public_key d \<noteq> pk"
      using key(3) fresh(1) by (force simp: image_iff)
    then show ?thesis
      using uid key by (auto simp: devices_create_def run_simps w2_def w1_def ATTESTATION_STATUSES_def list_ex_iff user_exists_def
        devices_by_id_def find_None_iff)
  qed
  obtain d where create: "devices_create x (e_user_id e) label pk ''android'' ver ?status
      (JObj [(''key_attestation'', as_detail (iso_text (w_now w2)) v), (''play_integrity'', dt)]) w2 =
        (Inr ?did, w2\<lparr>w_draws := w_draws w + 1, w_devices := w_devices w @ [d]\<rparr>)" and d: "d_id d = ?did"
    using make [of "JObj [(''key_attestation'', as_detail (iso_text (w_now w2)) v), (''play_integrity'', dt)]"] by blast
  have 4: "enroll_device x (e_user_id e) label kb ver ?status v dt ip w2 =
      (Inr ?did, w2\<lparr>w_draws := w_draws w + 1, w_devices := w_devices w @ [d]\<rparr>)"
    using key(1) create
    by (simp add: enroll_device_def catchE_apply bindE_apply liftE_apply current_time_def gets_apply split del: if_split)
  define w5 where "w5 = w2\<lparr>w_draws := w_draws w + 1, w_devices := w_devices w @ [d],
    w_codes := update_rows (\<lambda>c. e_id c = e_id e) (\<lambda>c. c\<lparr>e_used_by_device := Some ?did\<rparr>) (w_codes w2)\<rparr>"
  have 5: "enrollments_attach_device (e_id e) ?did (w2\<lparr>w_draws := w_draws w + 1, w_devices := w_devices w @ [d]\<rparr>) = (Inr (), w5)"
    by (simp add: enrollments_attach_device_def puts_apply w5_def)
  have "w_tokens w5 = w_tokens w" "w_draws w5 = w_draws w + 1" by (simp_all add: w5_def w2_def w1_def)
  moreover have "user_exists w5 (e_user_id e)" using uid by (simp add: w5_def w2_def w1_def user_exists_def)
  moreover have "devices_by_id w5 ?did \<noteq> None" using d by (simp add: by_id_None w5_def)
  ultimately have "\<exists>w6. issue_pair x st (e_user_id e) ?did None None w5 =
      (Inr (issued_as x st (rand_uuid x (w_draws w + 1)) (w_draws w + 2)), w6)"
    using issue_pair_run [OF fresh(2), of w5 None "e_user_id e" ?did None] fresh(3)
    by (auto simp: fresh_draws_def Let_def)
  then obtain w6 where 6: "issue_pair x st (e_user_id e) ?did None None w5 =
      (Inr (issued_as x st (rand_uuid x (w_draws w + 1)) (w_draws w + 2)), w6)" by blast
  have "audit_accepts x ''success'' ((entry ''user'')\<lparr>en_actor_id := a, en_device_id := b, en_client_ip := ip, en_detail := dd\<rparr>)" for a b dd
    using ip by (simp add: audit_accepts_def entry_def AUDIT_OUTCOMES_def ACTOR_TYPES_def)
  then show ?thesis
    by (simp add: enroll_def bindE_apply 1 2 3 4 5 [simplified] 6 [simplified] audit_success_def audit_record_run ret_apply
        split del: if_split)
qed

section \<open>Challenges are not kept\<close>

definition no_new_challenge :: "world \<Rightarrow> world \<Rightarrow> bool" where
  "no_new_challenge w w' \<longleftrightarrow> set (w_challenges w') \<subseteq> set (w_challenges w)"

interpretation no_new_challenge: frame_rel no_new_challenge
  by unfold_locales (auto simp: no_new_challenge_def)

lemma no_new_challenge_statements [frame_intros]:
  "evolves no_new_challenge (audit_record x a b c)" "evolves no_new_challenge (enrollments_claim h)"
  "evolves no_new_challenge (devices_create x' uid l pk pl v s dt)" "evolves no_new_challenge (enrollments_attach_device e d)"
  "evolves no_new_challenge (tokens_insert x' t1 t2 t3 t4 t5 t6 t7)" "evolves no_new_challenge (draw_uuid x')"
  "evolves no_new_challenge (new_token x')"
  by (simp_all add: evolves_def no_new_challenge_def audit_record_run audit_push_def enrollments_claim_def devices_create_def
      enrollments_attach_device_def tokens_insert_def new_token_run run_simps)

lemma evolves_after:
  assumes "\<And>y. evolves R (f y)" and "\<And>s. R s s" and "m s = (r, s1)" and "bindE m f s = (q, s')"
  shows "R s1 s'"
proof (cases r)
  case (Inr y)
  then have "f y s1 = (q, s')" using assms(3,4) by (simp add: bindE_apply)
  moreover have "R s1 (snd (f y s1))" using assms(1) by (simp add: evolves_def)
  ultimately show ?thesis by simp
qed (use assms in \<open>simp add: bindE_apply\<close>)

lemma enroll_after_challenge:
  assumes "enroll x st code label kb chain tok pb ver ip w = (res, w')"
  shows "map_of (w_challenges w') (bytes_hex (hash_code x code)) = None"
proof -
  let ?h = "hash_code x code"
  obtain r w1 where 1: "enroll_challenge x ?h pb ip w = (r, w1)" by fastforce
  have gone: "\<forall>kv \<in> set (w_challenges w1). fst kv \<noteq> bytes_hex ?h"
    using 1 by (auto simp: enroll_challenge_def bindE_apply challenges_take_run liftE_apply ret_apply enroll_denied_audit
        audit_record_run audit_push_def auth_error_run split: sum.splits if_splits)
  have "evolves no_new_challenge (bindE (enroll_claim x ?h ip) (\<lambda>(code_id, user_id).
     bindE (enroll_attest x st chain tok presented user_id ip) (\<lambda>(key_verdict, integrity_detail, status).
     bindE (enroll_device x user_id label kb ver status key_verdict integrity_detail ip) (\<lambda>device_id.
     bindE (enrollments_attach_device code_id device_id) (\<lambda>_.
     bindE (issue_pair x st user_id device_id None None) (\<lambda>pair.
     bindE (audit_success x DEVICE_ENROLL ((entry ''user'')\<lparr>en_actor_id := Some user_id, en_device_id := Some device_id,
              en_client_ip := ip,
              en_detail := [(''label'', JStr label), (''attestation_status'', JStr status),
                (''security_level'', JStr (av_security_level key_verdict)), (''boot_state'', JStr (av_boot_state key_verdict))]\<rparr>)) (\<lambda>_.
       ret (device_id, status, pair))))))))" for presented
    unfolding enroll_claim_def enroll_attest_def enroll_device_def enroll_denied_audit issue_pair_def auth_error_def
      audit_success_def current_time_def
    by (intro frame_intros)
  from evolves_after [OF this no_new_challenge.frame_refl 1 assms [unfolded enroll_def]]
  have "no_new_challenge w1 w'" .
  then show ?thesis using gone by (fastforce simp: no_new_challenge_def map_of_eq_None_iff)
qed

lemma map_of_live:
  assumes "distinct (map fst d)" and "(k, c) \<in> set d"
  shows "map_of (filter (\<lambda>kv. \<not> ch_expires_at (snd kv) < t) d) k = (if t \<le> ch_expires_at c then Some c else None)"
proof -
  have dist: "distinct (map fst (filter (\<lambda>kv. \<not> ch_expires_at (snd kv) < t) d))"
    by (rule distinct_filter_keys [OF assms(1)])
  have "c' = c" if "(k, c') \<in> set d" for c' using that assms by (meson eq_key_imp_eq_value)
  then have "k \<notin> fst ` set (filter (\<lambda>kv. \<not> ch_expires_at (snd kv) < t) d)" if "ch_expires_at c < t"
    using that by auto
  then show ?thesis
    using assms(2) map_of_eq_Some_iff [OF dist, of k c] map_of_eq_None_iff [of "filter (\<lambda>kv. \<not> ch_expires_at (snd kv) < t) d" k]
    by (cases "t \<le> ch_expires_at c") simp_all
qed

section \<open>Concrete inputs\<close>

definition enroll_settings :: settings where
  "enroll_settings = sample_settings\<lparr>attestation_mode := Log_only\<rparr>"

definition enroll_world :: world where
  "enroll_world = sample_world\<lparr>w_draws := 3, w_challenges := [(bytes_hex (e_code_hash sample_code),
     \<lparr>ch_value = [9, 9], ch_user_hint = [], ch_expires_at = 300000000\<rparr>)]\<rparr>"

lemma enroll_world_inv: "db_inv sample_ext enroll_world"
  using sample_world_inv by (simp add: enroll_world_def db_inv_def keys_ok_def refs_ok_def checks_ok_def grants_ok_def audit_ok_def)

lemma enroll_code_hash: "hash_code sample_ext ''enrol-me'' = e_code_hash sample_code"
proof -
  have "py_strip ''enrol-me'' = ''enrol-me''" by code_simp
  then show ?thesis by (simp add: hash_code_def sample_ext_def sample_code_def)
qed

lemma enroll_pepper: "can_issue sample_ext enroll_settings sample_key"
  using sample_can_issue by (simp add: can_issue_def enroll_settings_def pepper_bytes_def split: if_splits)

definition sample_challenge :: challenge where
  "sample_challenge = \<lparr>ch_value = [9, 9], ch_user_hint = [], ch_expires_at = 300000000\<rparr>"

lemma enroll_world_simps:
  "w_draws enroll_world = 3" "w_now enroll_world = 120000000" "w_devices enroll_world = [sample_device]"
  "w_codes enroll_world = [sample_code]" "w_tokens enroll_world = []"
  "w_challenges enroll_world = [(bytes_hex (e_code_hash sample_code), sample_challenge)]"
  by (simp_all add: enroll_world_def sample_world_def sample_challenge_def)

lemma sample_enroll_facts:
  "map_of (filter (\<lambda>kv. \<not> ch_expires_at (snd kv) < w_now enroll_world) (w_challenges enroll_world))
      (bytes_hex (hash_code sample_ext ''enrol-me'')) = Some sample_challenge"
  "b64_strict (b64encode [9, 9]) = Inr (ch_value sample_challenge)"
  "find (open_code (hash_code sample_ext ''enrol-me'') (w_now enroll_world)) (w_codes enroll_world) = Some sample_code"
  "verify_key_attestation (certs sample_ext) [] (ch_value sample_challenge) None False =
      Inr (bad_verdict ''no certificate chain supplied'' [])"
  "evaluate_play_integrity (decode_integrity_payload []) (play_integrity_package_name enroll_settings)
      (android_cert_digest enroll_settings) = Inr (False, JObj [(''reason'', JStr ''no integrity verdict'')])"
  "b64_strict (b64encode (replicate 32 3)) = Inr (replicate 32 3)"
  "can_issue sample_ext enroll_settings sample_key"
  "fresh_draws sample_ext sample_key (w_draws enroll_world + 2) enroll_world"
proof -
  show "find (open_code (hash_code sample_ext ''enrol-me'') (w_now enroll_world)) (w_codes enroll_world) = Some sample_code"
    unfolding enroll_code_hash enroll_world_simps by (simp add: open_code_def sample_code_def)
  have "rand_uuid sample_ext 7 \<noteq> rand_uuid sample_ext 8" by (simp add: sample_ext_def nat_digits.simps)
  then show "fresh_draws sample_ext sample_key (w_draws enroll_world + 2) enroll_world"
    using race_draws by (simp add: fresh_draws_def enroll_world_simps)
qed (simp_all add: enroll_code_hash enroll_world_simps b64_strict_encode verify_key_attestation_def evaluate_play_integrity_def
      decode_integrity_payload_def enroll_pepper, simp_all add: sample_challenge_def)

lemma sample_enroll:
  "\<exists>w'. enroll sample_ext enroll_settings ''enrol-me'' ''new phone'' (b64encode (replicate 32 3)) [] [] (b64encode [9, 9]) None None
     enroll_world = (Inr (rand_uuid sample_ext 3, ''exempt'', issued_as sample_ext enroll_settings (rand_uuid sample_ext 4) 5), w')"
proof -
  have "rand_uuid sample_ext 3 \<noteq> ''d1''" by (simp add: sample_ext_def nat_digits.simps)
  then show ?thesis
    using enroll_run [OF enroll_world_inv _ sample_enroll_facts(1-5) _ sample_enroll_facts(6) _ _ _ sample_enroll_facts(7,8),
        of None "''new phone''" None]
    by (simp add: inet_valid_def enroll_world_simps bad_verdict_def enroll_settings_def sample_device_def)
qed

section \<open>Properties\<close>



text \<open>
  Claim C32. An enrolment goes through when challenge, code, attestation and key are in order and the
  random draws are fresh. The key that is stored is any 32 bytes the phone sends: nothing relates
  it to the key the certificate chain attests, so one chain enrols whichever key comes with it.
\<close>

theorem enroll_succeeds:
  assumes "db_inv x w" and "inet_valid x ip"
    and "map_of (filter (\<lambda>kv. \<not> ch_expires_at (snd kv) < w_now w) (w_challenges w)) (bytes_hex (hash_code x code)) = Some c"
    and "b64_strict pb = Inr (ch_value c)"
    and "find (open_code (hash_code x code) (w_now w)) (w_codes w) = Some e"
    and "verify_key_attestation (certs x) chain (ch_value c) None False = Inr v"
    and "evaluate_play_integrity (decode_integrity_payload tok) (play_integrity_package_name st) (android_cert_digest st) = Inr (ok, dt)"
    and "attestation_mode st = Strict \<longrightarrow> av_ok v \<and> ok"
    and "b64_strict kb = Inr pk" and "length pk = 32" and "pk \<notin> set (map d_public_key (w_devices w))"
    and "rand_uuid x (w_draws w) \<notin> set (map d_id (w_devices w))" and "can_issue x st pepper"
    and "fresh_draws x pepper (w_draws w + 2) w"
  shows "\<exists>w'. enroll x st code label kb chain tok pb ver ip w =
    (Inr (rand_uuid x (w_draws w), if av_ok v \<and> ok then ''verified'' else ''exempt'',
      issued_as x st (rand_uuid x (w_draws w + 1)) (w_draws w + 2)), w')"
  by (rule enroll_run [OF assms])

theorem enroll_succeeds_witness:
  "\<exists>w'. enroll sample_ext enroll_settings ''enrol-me'' ''new phone'' (b64encode (replicate 32 3)) [] [] (b64encode [9, 9]) None None
     enroll_world = (Inr (rand_uuid sample_ext 3, ''exempt'', issued_as sample_ext enroll_settings (rand_uuid sample_ext 4) 5), w')"
proof -
  have "rand_uuid sample_ext 3 \<noteq> ''d1''" by (simp add: sample_ext_def nat_digits.simps)
  then show ?thesis
    using enroll_succeeds [OF enroll_world_inv _ sample_enroll_facts(1-5) _ sample_enroll_facts(6) _ _ _ sample_enroll_facts(7,8),
        of None "''new phone''" None]
    by (simp add: inet_valid_def enroll_world_simps bad_verdict_def enroll_settings_def sample_device_def)
qed

text \<open>
  Claim C9. A code enrols one phone. Once it was used, no later request with it succeeds, whatever the
  request carries and whatever happened in between; not even with a new challenge.
\<close>

theorem enroll_code_once:
  assumes "db_inv x w" and "enroll x st code label kb chain tok pb ver ip w = (Inr res, w')" and "progress w' v" and "db_inv x v"
  shows "enroll x st' code label' kb' chain' tok' pb' ver' ip' v \<noteq> (Inr res', v')"
proof
  assume again: "enroll x st' code label' kb' chain' tok' pb' ver' ip' v = (Inr res', v')"
  obtain did status pair where res: "res = (did, status, pair)" by (cases res) auto
  obtain did' status' pair' where res': "res' = (did', status', pair')" by (cases res') auto
  from assms(2) [unfolded res] obtain e where e: "e \<in> set (w_codes w)" "open_code (hash_code x code) (w_now w) e"
    and codes: "w_codes w' = update_rows (\<lambda>c. e_id c = e_id e) (\<lambda>c. c\<lparr>e_used_by_device := Some did\<rparr>)
      (update_rows (open_code (hash_code x code) (w_now w)) (\<lambda>c. c\<lparr>e_used_at := Some (w_now w)\<rparr>) (w_codes w))"
    by (rule enroll_Inr)
  obtain e1 where e1: "e1 \<in> set (w_codes w')" "e_code_hash e1 = hash_code x code" "e_used_at e1 \<noteq> None"
    using used_code_row [of _ _ "open_code (hash_code x code) (w_now w)", OF e, where did = did and t = "w_now w"] e(2)
    unfolding codes [symmetric] by (auto simp: open_code_def)
  obtain e2 where e2: "e2 \<in> set (w_codes v)" "code_step e1 e2"
    using assms(3) grows_member [of code_step "w_codes w'" "w_codes v" e1] e1(1) by (auto simp: progress_def)
  have used: "e_code_hash e2 = hash_code x code" "e_used_at e2 \<noteq> None"
    using e2(2) e1(2,3) by (cases e1; cases e2; auto simp: code_step_def)+
  from again [unfolded res'] obtain e3 where e3: "e3 \<in> set (w_codes v)" "open_code (hash_code x code) (w_now v) e3"
    by (rule enroll_Inr)
  have "inj_on e_code_hash (set (w_codes v))" using assms(4) by (simp add: db_inv_def keys_ok_def distinct_map)
  then have "e2 = e3" by (rule inj_onD) (use used e2(1) e3 in \<open>simp_all add: open_code_def\<close>)
  then show False using used e3(2) by (simp add: open_code_def)
qed

theorem enroll_code_once_witness:
  "\<exists>r w'. enroll sample_ext enroll_settings ''enrol-me'' ''new phone'' (b64encode (replicate 32 3)) [] [] (b64encode [9, 9]) None None
     enroll_world = (Inr r, w')
   \<and> (\<forall>r' v'. enroll sample_ext enroll_settings ''enrol-me'' ''other'' (b64encode (replicate 32 4)) [] [] (b64encode [9, 9]) None None w' \<noteq> (Inr r', v'))"
proof -
  obtain r w' where run: "enroll sample_ext enroll_settings ''enrol-me'' ''new phone'' (b64encode (replicate 32 3)) [] [] (b64encode [9, 9]) None None
     enroll_world = (Inr r, w')" using sample_enroll by blast
  have "db_inv sample_ext w'" by (rule evolves_safe(3) [OF safe_enroll run enroll_world_inv])
  from enroll_code_once [OF enroll_world_inv run progress_refl this] run show ?thesis by blast
qed

text \<open>
  A challenge is single use, also when the attempt failed: after any enrolment request, a
  further one with the same code does not succeed until a new challenge has been issued.
\<close>

theorem challenge_single_use:
  assumes "enroll x st code label kb chain tok pb ver ip w = (res, w')" and "no_new_challenge w' v"
  shows "enroll x st' code label' kb' chain' tok' pb' ver' ip' v \<noteq> (Inr res', v')"
proof
  assume again: "enroll x st' code label' kb' chain' tok' pb' ver' ip' v = (Inr res', v')"
  obtain did status pair where res': "res' = (did, status, pair)" by (cases res') auto
  from again [unfolded res'] obtain presented where "challenge_live v (hash_code x code) presented" by (rule enroll_Inr)
  then obtain c where "(bytes_hex (hash_code x code), c) \<in> set (w_challenges w')"
    using assms(2) by (auto simp: challenge_live_def no_new_challenge_def)
  moreover have "map_of (w_challenges w') (bytes_hex (hash_code x code)) = None" by (rule enroll_after_challenge [OF assms(1)])
  ultimately show False by (force simp: map_of_eq_None_iff)
qed

theorem challenge_single_use_witness:
  "\<exists>res w'. enroll sample_ext enroll_settings ''enrol-me'' ''p'' [] [] [] [] None None enroll_world = (res, w')
    \<and> (\<forall>r v. enroll sample_ext enroll_settings ''enrol-me'' ''p'' (b64encode (replicate 32 3)) [] [] (b64encode [9, 9]) None None w' \<noteq> (Inr r, v))"
proof -
  obtain res w' where run: "enroll sample_ext enroll_settings ''enrol-me'' ''p'' [] [] [] [] None None enroll_world = (res, w')"
    by fastforce
  show ?thesis using challenge_single_use [OF run no_new_challenge.frame_refl] run by blast
qed

text \<open>
  A challenge that was handed out can be redeemed for five minutes: the base64 text decodes
  to the stored value as long as it has not expired, and to nothing afterwards.
\<close>

theorem challenge_roundtrip:
  assumes "distinct (map fst (w_challenges w))" and "issue_challenge x code w = (Inr (text', ttl), w1)"
    and "w_challenges v = w_challenges w1"
  shows "\<exists>value. b64_strict text' = Inr value \<and> fst (challenges_take (hash_code x code) v) =
    Inr (if w_now v \<le> w_now w + seconds ttl then Some value else None)"
proof -
  let ?k = "bytes_hex (hash_code x code)" and ?live = "filter (\<lambda>kv. \<not> ch_expires_at (snd kv) < w_now w) (w_challenges w)"
  let ?c = "\<lparr>ch_value = rand_bytes x (w_draws w) 32, ch_user_hint = [], ch_expires_at = w_now w + seconds CHALLENGE_TTL_SECONDS\<rparr>"
  have run: "text' = b64encode (rand_bytes x (w_draws w) 32)" "ttl = CHALLENGE_TTL_SECONDS" "w_challenges w1 = dict_set ?live ?k ?c"
    using assms(2) by (auto simp: issue_challenge_def challenges_issue_def challenges_sweep_def run_simps)
  have "distinct (map fst (dict_set ?live ?k ?c))"
    by (intro dict_set_distinct distinct_filter_keys assms(1))
  moreover have "(?k, ?c) \<in> set (dict_set ?live ?k ?c)"
    using dict_set_map_of [of ?live ?k ?c] by (metis fun_upd_same map_of_SomeD)
  ultimately have "map_of (filter (\<lambda>kv. \<not> ch_expires_at (snd kv) < t) (dict_set ?live ?k ?c)) ?k =
      (if t \<le> w_now w + seconds CHALLENGE_TTL_SECONDS then Some ?c else None)" for t
    by (simp only: map_of_live challenge.simps)
  then show ?thesis
    using run assms(3) by (simp add: challenges_take_run b64_strict_encode)
qed

theorem challenge_roundtrip_witness:
  "\<exists>text' ttl w1 value. issue_challenge sample_ext ''enrol-me'' sample_world = (Inr (text', ttl), w1)
    \<and> b64_strict text' = Inr value \<and> fst (challenges_take (hash_code sample_ext ''enrol-me'') w1) = Inr (Some value)"
proof -
  have d: "distinct (map fst (w_challenges sample_world))" by (simp add: sample_world_def)
  obtain text' ttl w1 where run: "issue_challenge sample_ext ''enrol-me'' sample_world = (Inr (text', ttl), w1)"
    and t: "w_now w1 = w_now sample_world" "ttl = 300"
    by (simp add: issue_challenge_def challenges_issue_def challenges_sweep_def run_simps CHALLENGE_TTL_SECONDS_def)
  show ?thesis using challenge_roundtrip [OF d run refl] run t by auto
qed

end
