(* ===== verification/Controller_Ws.thy ===== *)
theory Controller_Ws
  imports Unlock Enrollment
begin

text \<open>
  \<^verbatim>\<open>backend/app/ws/controller_ws.py\<close>: the connection of a door controller. What the peer sends is a list
  of texts, each with the time that passes before it arrives; the end of the list is the
  disconnection. What the server sends and the close code are the result. Sending to the peer is
  taken to succeed.
\<close>

section \<open>The handshake\<close>

definition AUTH_DOMAIN :: bytes where
  "AUTH_DOMAIN = utf8 ''acs-controller-auth:v1'' @ [0]"

definition MAX_MESSAGE_BYTES :: nat where
  "MAX_MESSAGE_BYTES = 16 * 1024"

definition auth_message :: "string \<Rightarrow> bytes \<Rightarrow> bytes" where
  "auth_message controller_code nonce = AUTH_DOMAIN @ utf8 controller_code @ [0] @ nonce"

definition challenge_text :: "bytes \<Rightarrow> instant \<Rightarrow> string" where
  "challenge_text nonce now = dumps False True (JObj [(''type'', JStr ''challenge''), (''nonce'', JStr (b64encode nonce)),
     (''server_time'', JInt (now div 1000000))])"

definition auth_ok_text :: "settings \<Rightarrow> string" where
  "auth_ok_text st = dumps False True (JObj [(''type'', JStr ''auth_ok''), (''heartbeat'', JInt (ws_heartbeat_seconds st)),
     (''signer_key_id'', JStr (signer_key_id st))])"

text \<open>
  The part of the \<^verbatim>\<open>try\<close> block before the lookup. A JSON text that is not an object has no
  \<^verbatim>\<open>get\<close>, and \<^verbatim>\<open>b64decode\<close> of something that is not a string is a \<^verbatim>\<open>TypeError\<close>.
\<close>

definition parse_auth :: "string \<Rightarrow> exn + ((string \<times> json) list \<times> string \<times> bytes)" where
  "parse_auth raw =
     (if MAX_MESSAGE_BYTES < length raw then Inl (ValueError ''handshake too large'')
      else (case loads raw of
          None \<Rightarrow> Inl JSONDecodeError
        | Some (JObj message) \<Rightarrow>
            if get_or JNull message ''type'' \<noteq> JStr ''auth'' then Inl (ValueError ''expected auth'')
            else (case (obj_get message ''controller_code'', obj_get message ''signature'') of
                (None, _) \<Rightarrow> Inl (KeyError ''controller_code'')
              | (Some code, None) \<Rightarrow> Inl (KeyError ''signature'')
              | (Some code, Some (JStr sig)) \<Rightarrow> bindS (b64_strict sig) (\<lambda>signature. Inr (message, py_str code, signature))
              | (Some code, Some _) \<Rightarrow> Inl TypeError)
        | Some _ \<Rightarrow> Inl AttributeError))"

definition check_auth :: "ext \<Rightarrow> bytes \<Rightarrow> string \<Rightarrow> bytes \<Rightarrow> controller_row option \<Rightarrow> exn + controller_row" where
  "check_auth x nonce code signature found =
     (case found of
        None \<Rightarrow> Inl (ValueError ''unknown or blocked controller'')
      | Some c \<Rightarrow>
          if c_is_blocked c then Inl (ValueError ''unknown or blocked controller'')
          else bindS (ed25519_verify x (c_public_key c) signature (auth_message code nonce)) (\<lambda>_. Inr c))"

text \<open>The exceptions the handshake catches, with \<^verbatim>\<open>type(exc).__name__\<close>.\<close>

fun auth_exception :: "exn \<Rightarrow> string option" where
  "auth_exception (ValueError _) = Some ''ValueError''"
| "auth_exception (DerError _) = Some ''DerError''"
| "auth_exception (InvalidCommand _) = Some ''InvalidCommand''"
| "auth_exception BinasciiError = Some ''Error''"
| "auth_exception JSONDecodeError = Some ''JSONDecodeError''"
| "auth_exception UnicodeDecodeError = Some ''UnicodeDecodeError''"
| "auth_exception (KeyError _) = Some ''KeyError''"
| "auth_exception (InvalidSignature _) = Some ''InvalidSignature''"
| "auth_exception _ = None"

definition auth_failed :: "ext \<Rightarrow> string option \<Rightarrow> uuid option \<Rightarrow> exn \<Rightarrow> 'a option io" where
  "auth_failed x peer controller_id exc =
     (case auth_exception exc of
        None \<Rightarrow> throw exc
      | Some name \<Rightarrow>
          bindE (audit_failure x CONTROLLER_AUTH_FAILED ((entry ''controller'')\<lparr>en_controller_id := controller_id,
                   en_client_ip := peer, en_detail := [(''reason'', JStr name)]\<rparr>)) (\<lambda>_. ret None))"

definition handshake :: "ext \<Rightarrow> string option \<Rightarrow> bytes \<Rightarrow> string \<Rightarrow> (controller_row \<times> (string \<times> json) list) option io" where
  "handshake x peer nonce raw =
     (case parse_auth raw of
        Inl e \<Rightarrow> auth_failed x peer None e
      | Inr (message, code, signature) \<Rightarrow>
          bindE (gets (\<lambda>w. controllers_by_code w code)) (\<lambda>found.
          case check_auth x nonce code signature found of
            Inl e \<Rightarrow> auth_failed x peer (map_option c_id found) e
          | Inr c \<Rightarrow> ret (Some (c, message))))"

section \<open>The session\<close>

text \<open>A text parameter of a statement: the driver takes a string or \<^verbatim>\<open>None\<close>.\<close>

definition text_param :: "json \<Rightarrow> exn + string option" where
  "text_param j = (case j of JNull \<Rightarrow> Inr None | JStr s \<Rightarrow> Inr (Some s) | _ \<Rightarrow> Inl (DatabaseError ''text''))"

definition open_session :: "string \<Rightarrow> controller_row \<Rightarrow> string option \<Rightarrow> json \<Rightarrow> nat io" where
  "open_session code c peer firmware =
     bindE current_time (\<lambda>now.
     bindE (gets (\<lambda>w. h_next (w_hub w))) (\<lambda>sid.
       let s = \<lparr>cs_controller_id = c_id c, cs_code = code, cs_connected_at = now, cs_last_pong_at = now,
                cs_remote_ip = peer, cs_firmware = firmware, cs_pending = []\<rparr>
       in bindE (set_hub (\<lambda>h. register sid s (snd (new_session s h)))) (\<lambda>_. ret sid)))"

definition outcome_param :: "json \<Rightarrow> string" where
  "outcome_param j = (case j of JStr s \<Rightarrow> s | _ \<Rightarrow> [])"

text \<open>One message of the loop; an outcome that is not a string is no label of the enumeration.\<close>

definition ws_message :: "ext \<Rightarrow> controller_row \<Rightarrow> string option \<Rightarrow> nat \<Rightarrow> (string \<times> json) list \<Rightarrow> unit io" where
  "ws_message x c peer sid message =
     (let kind = get_or JNull message ''type'' in
      if kind = JStr ''pong'' then
        bindE current_time (\<lambda>now.
        bindE (set_hub (set_last_pong sid now)) (\<lambda>_. controllers_touch_seen x (c_id c) peer None))
      else if kind = JStr ''ack'' then set_hub (resolve sid message)
      else if kind = JStr ''event'' then
        bindE (audit_record x (''controller.'' @ py_str (get_or (JStr ''unknown'') message ''event''))
                 (outcome_param (get_or (JStr ''success'') message ''outcome''))
                 ((entry ''controller'')\<lparr>en_controller_id := Some (c_id c), en_client_ip := peer,
                    en_detail := [(''payload'', get_or (JObj []) message ''detail'')]\<rparr>)) (\<lambda>_. ret ())
      else ret ())"

fun ws_loop :: "ext \<Rightarrow> controller_row \<Rightarrow> string option \<Rightarrow> nat \<Rightarrow> (int \<times> string) list \<Rightarrow> unit io" where
  "ws_loop x c peer sid [] = ret ()"
| "ws_loop x c peer sid ((wait, raw) # rest) =
     bindE (sleep wait) (\<lambda>_.
       if MAX_MESSAGE_BYTES < length raw then ret ()
       else (case loads raw of
           None \<Rightarrow> ws_loop x c peer sid rest
         | Some (JObj message) \<Rightarrow> bindE (ws_message x c peer sid message) (\<lambda>_. ws_loop x c peer sid rest)
         | Some _ \<Rightarrow> throw AttributeError))"

definition ws_close :: "ext \<Rightarrow> controller_row \<Rightarrow> string option \<Rightarrow> nat \<Rightarrow> instant \<Rightarrow> unit io" where
  "ws_close x c peer sid connected_at =
     bindE (set_hub (unregister (c_code c) sid)) (\<lambda>_.
     bindE current_time (\<lambda>now.
     bindE (audit_record x (event_value CONTROLLER_DISCONNECTED) ''success''
              ((entry ''controller'')\<lparr>en_controller_id := Some (c_id c), en_client_ip := peer,
                 en_detail := [(''connected_seconds'', JInt ((now - connected_at) div 1000000))]\<rparr>)) (\<lambda>_. ret ())))"

definition run_session :: "ext \<Rightarrow> settings \<Rightarrow> string option \<Rightarrow> controller_row \<Rightarrow> (string \<times> json) list \<Rightarrow> (int \<times> string) list \<Rightarrow> unit io" where
  "run_session x st peer c message received =
     (let firmware = get_or JNull message ''firmware_version'' in
      bindE (liftE (text_param firmware)) (\<lambda>version.
      bindE (controllers_touch_seen x (c_id c) peer version) (\<lambda>_.
      bindE (audit_success x CONTROLLER_CONNECTED ((entry ''controller'')\<lparr>en_controller_id := Some (c_id c),
               en_client_ip := peer, en_detail := [(''controller_code'', JStr (c_code c)), (''firmware_version'', firmware)]\<rparr>)) (\<lambda>_.
      bindE current_time (\<lambda>connected_at.
      bindE (open_session (c_code c) c peer firmware) (\<lambda>sid.
        finallyE (ws_loop x c peer sid received) (ws_close x c peer sid connected_at)))))))"

definition controller_socket ::
  "ext \<Rightarrow> settings \<Rightarrow> string option \<Rightarrow> (int \<times> string) list \<Rightarrow> (string list \<times> int option) io"
where
  "controller_socket x st peer received =
     bindE (draw_bytes x 32) (\<lambda>nonce.
     bindE (gets (\<lambda>w. challenge_text nonce (w_now w))) (\<lambda>hello.
     case received of
       [] \<Rightarrow> ret ([hello], Some 4408)
     | (wait, raw) # rest \<Rightarrow>
         if seconds (ws_handshake_timeout_seconds st) < wait
         then bindE (sleep (seconds (ws_handshake_timeout_seconds st))) (\<lambda>_. ret ([hello], Some 4408))
         else
           bindE (sleep wait) (\<lambda>_.
           bindE (handshake x peer nonce raw) (\<lambda>auth.
           case auth of
             None \<Rightarrow> ret ([hello], Some 4401)
           | Some (c, message) \<Rightarrow>
               bindE (run_session x st peer c message rest) (\<lambda>_. ret ([hello, auth_ok_text st], None))))))"

text \<open>
  The heartbeat task. \<open>pong t\<close> is the session's \<^verbatim>\<open>last_pong_at\<close> at time \<open>t\<close>; the result is the time the
  task closes the socket, or \<open>None\<close> where it never does.
\<close>

partial_function (option) heartbeat :: "settings \<Rightarrow> (instant \<Rightarrow> instant) \<Rightarrow> instant \<Rightarrow> instant option" where
  "heartbeat st pong now =
     (let t = now + seconds (ws_heartbeat_seconds st)
      in if seconds (ws_heartbeat_timeout_seconds st) < t - pong t then Some t else heartbeat st pong t)"

section \<open>Frames\<close>

lemma safe_handshake [frame_intros]: "evolves (safe x) (handshake x peer nonce raw)"
  unfolding handshake_def auth_failed_def by (intro frame_intros)

lemma safe_open_session [frame_intros]: "evolves (safe x) (open_session code c peer fw)"
  unfolding evolves_def
proof
  fix w :: world
  let ?s = "\<lparr>cs_controller_id = c_id c, cs_code = code, cs_connected_at = w_now w, cs_last_pong_at = w_now w,
      cs_remote_ip = peer, cs_firmware = fw, cs_pending = []\<rparr>"
  have "hub_inv (register (h_next (w_hub w)) ?s (snd (new_session ?s (w_hub w))))" if "hub_inv (w_hub w)"
    using hub_inv_connect [OF that, of ?s] by (simp add: new_session_def)
  then have "safe x w (w\<lparr>w_hub := register (h_next (w_hub w)) ?s (snd (new_session ?s (w_hub w)))\<rparr>)"
    by (simp add: safe_def progress_def grows_refl db_inv_def keys_ok_def refs_ok_def checks_ok_def grants_ok_def audit_ok_def)
  then show "safe x w (snd (open_session code c peer fw w))"
    by (simp add: open_session_def current_time_def comp_simps set_hub_def Let_def)
qed

lemma safe_ws_message [frame_intros]: "evolves (safe x) (ws_message x c peer sid m)"
  unfolding ws_message_def by (intro frame_intros safe_set_hub hub_inv_pong hub_inv_resolve)

lemma evolves_object [frame_intros]:
  assumes "\<And>m. evolves R (f m)" and "evolves R g"
  shows "evolves R (case j of JObj m \<Rightarrow> f m | _ \<Rightarrow> g)"
  using assms by (simp split: json.split)

lemma evolves_list [frame_intros]:
  "evolves R m \<Longrightarrow> (\<And>a as. evolves R (f a as)) \<Longrightarrow> evolves R (case xs of [] \<Rightarrow> m | a # as \<Rightarrow> f a as)"
  by (simp split: list.split)

lemma safe_ws_loop [frame_intros]: "evolves (safe x) (ws_loop x c peer sid received)"
proof (induction received)
  case (Cons a rest)
  obtain wait raw where a: "a = (wait, raw)" by (cases a) auto
  show ?case unfolding a ws_loop.simps by (intro frame_intros Cons)
qed (simp add: frame_intros)

lemma hub_inv_fail_pending:
  assumes "hub_inv h" and "h_objects h sid = Some s"
  shows "hub_inv (fail_pending r s h)"
  using assms unfolding hub_inv_defs by (auto simp: fail_pending_futures)

lemma hub_inv_unregister:
  assumes inv: "hub_inv h"
  shows "hub_inv (unregister code sid h)"
proof (cases "h_objects h sid")
  case None
  then have "map_of (h_sessions h) code \<noteq> Some sid"
    using inv by (fastforce simp: hub_inv_def registry_ok_def dest: map_of_SomeD)
  with None show ?thesis using inv by (simp add: unregister_def)
next
  case (Some s)
  show ?thesis
  proof (cases "code = cs_code s")
    case True
    then show ?thesis using hub_inv_disconnect [OF inv Some] by simp
  next
    case False
    then have "map_of (h_sessions h) code \<noteq> Some sid"
      using inv Some by (fastforce simp: hub_inv_def registry_ok_def dest: map_of_SomeD)
    with Some show ?thesis using hub_inv_fail_pending [OF inv Some] by (simp add: unregister_def)
  qed
qed

lemma safe_ws_close [frame_intros]: "evolves (safe x) (ws_close x c peer sid t)"
  unfolding ws_close_def by (intro frame_intros safe_set_hub hub_inv_unregister)

lemma safe_run_session [frame_intros]: "evolves (safe x) (run_session x st peer c m received)"
  unfolding run_session_def Let_def by (intro frame_intros)

lemma safe_controller_socket [frame_intros]: "evolves (safe x) (controller_socket x st peer received)"
  unfolding controller_socket_def by (intro frame_intros)

section \<open>What a handshake proves\<close>

lemma parse_auth_Inr:
  assumes "parse_auth raw = Inr (m, code, sig)"
  shows "loads raw = Some (JObj m)" "length raw \<le> MAX_MESSAGE_BYTES" "get_or JNull m ''type'' = JStr ''auth''"
    "\<exists>j. obj_get m ''controller_code'' = Some j \<and> code = py_str j"
    "\<exists>s. obj_get m ''signature'' = Some (JStr s) \<and> b64_strict s = Inr sig"
  using assms by (auto simp: parse_auth_def bindS_Inr_iff split: if_splits option.splits json.splits)

lemma check_auth_Inr:
  assumes "check_auth x nonce code sig found = Inr c"
  shows "found = Some c" "\<not> c_is_blocked c" "ed25519_verify x (c_public_key c) sig (auth_message code nonce) = Inr ()"
  using assms by (auto simp: check_auth_def bindS_Inr_iff split: if_splits option.splits)

lemma auth_failed_not_Some: "auth_failed x peer cid e w \<noteq> (Inr (Some c), w')"
  by (cases "audit_failure x CONTROLLER_AUTH_FAILED ((entry ''controller'')\<lparr>en_controller_id := cid,
        en_client_ip := peer, en_detail := [(''reason'', JStr (the (auth_exception e)))]\<rparr>) w" rule: prod.exhaust [case_names Pair])
    (auto simp: auth_failed_def comp_simps split: option.splits prod.splits sum.splits)

lemma handshake_Some:
  assumes "handshake x peer nonce raw w = (Inr (Some (c, m)), w')"
  shows "w' = w \<and> c \<in> set (w_controllers w) \<and> \<not> c_is_blocked c \<and> loads raw = Some (JObj m) \<and>
    (\<exists>s sig. obj_get m ''signature'' = Some (JStr s) \<and> b64_strict s = Inr sig \<and>
       ed25519_verify x (c_public_key c) sig (auth_message (c_code c) nonce) = Inr ())"
proof -
  obtain m' code sig where p: "parse_auth raw = Inr (m', code, sig)"
    and found: "check_auth x nonce code sig (controllers_by_code w code) = Inr c" and m: "m' = m" and w: "w' = w"
    using assms by (auto simp: handshake_def comp_simps auth_failed_not_Some split: sum.splits)
  note c = check_auth_Inr [OF found]
  have "c \<in> set (w_controllers w)" "c_code c = code"
    using c(1) by (auto simp: controllers_by_code_def dest: find_SomeD)
  with c p m w show ?thesis using parse_auth_Inr [OF p] by auto
qed

text \<open>
  Claim C10. A connection becomes a session only for a controller that is stored, is not blocked, is
  the one the message names, and whose stored key verifies the presented signature over the
  domain, that code and this connection's nonce; the handshake itself changes nothing.
\<close>

theorem handshake_authentic:
  assumes "handshake x peer nonce raw w = (Inr (Some (c, m)), w')"
  shows "w' = w \<and> c \<in> set (w_controllers w) \<and> \<not> c_is_blocked c \<and> loads raw = Some (JObj m) \<and>
    (\<exists>s sig. obj_get m ''signature'' = Some (JStr s) \<and> b64_strict s = Inr sig \<and>
       ed25519_verify x (c_public_key c) sig (auth_message (c_code c) nonce) = Inr ())"
  by (rule handshake_Some [OF assms])

definition sample_auth :: "(string \<times> json) list" where
  "sample_auth = [(''type'', JStr ''auth''), (''controller_code'', JStr ''ctrl-1''), (''signature'', JStr (b64encode (replicate 32 6)))]"

lemma sample_handshake:
  "handshake sample_ext None nonce (dumps False True (JObj sample_auth)) sample_world = (Inr (Some (sample_controller, sample_auth)), sample_world)"
proof -
  have "loads (dumps False True (JObj sample_auth)) = Some (JObj sample_auth)"
    by (rule loads_dumps) (simp add: sample_auth_def json_ok.simps)
  moreover have "length (dumps False True (JObj sample_auth)) \<le> MAX_MESSAGE_BYTES" by code_simp
  moreover have "b64_strict (b64encode (replicate 32 6)) = Inr (replicate 32 6)" by code_simp
  ultimately have "parse_auth (dumps False True (JObj sample_auth)) = Inr (sample_auth, ''ctrl-1'', replicate 32 6)"
    by (simp add: parse_auth_def sample_auth_def obj_get_def get_or_def py_str_def)
  then show ?thesis
    by (simp add: handshake_def comp_simps check_auth_def controllers_by_code_def sample_world_def sample_rows sample_ext_def)
qed

theorem handshake_authentic_witness:
  "\<exists>s sig. obj_get sample_auth ''signature'' = Some (JStr s) \<and> b64_strict s = Inr sig \<and>
     ed25519_verify sample_ext (c_public_key sample_controller) sig (auth_message (c_code sample_controller) [1]) = Inr ()"
  using handshake_authentic [OF sample_handshake [of "[1]"]] by blast

text \<open>
  The signed message determines the code and the nonce: for the 32 byte nonces of two
  connections, equal messages mean the same controller and the same nonce. So a signature
  recorded in one connection is over another message than the one the next connection checks.
\<close>

theorem auth_message_injective:
  assumes "auth_message code nonce = auth_message code' nonce'" and "length nonce = length nonce'"
  shows "code = code' \<and> nonce = nonce'"
  using assms by (auto simp: auth_message_def utf8_inj)

theorem auth_message_injective_witness: "''c1'' = ''c1'' \<and> [7 :: byte] = [7]"
  by (rule auth_message_injective [of "''c1''" "[7]" "''c1''" "[7]"]) simp_all

section \<open>How a connection ends\<close>

definition same_sessions :: "world \<Rightarrow> world \<Rightarrow> bool" where
  "same_sessions w w' \<longleftrightarrow> h_sessions (w_hub w') = h_sessions (w_hub w)"

interpretation same_sessions: frame_rel same_sessions
  by unfold_locales (simp_all add: same_sessions_def)

lemma same_sessions_basics [frame_intros]:
  "evolves same_sessions (audit_record x a b c)" "evolves same_sessions (sleep t)" "evolves same_sessions (draw_bytes x n)"
  "evolves same_sessions (controllers_touch_seen x cid ip fw)"
  by (auto simp: evolves_def same_sessions_def audit_record_run audit_push_def run_simps sleep_def controllers_touch_seen_def
      split: prod.splits sum.splits if_splits)

lemma same_sessions_set_hub:
  "(\<And>h. h_sessions (f h) = h_sessions h) \<Longrightarrow> evolves same_sessions (set_hub f)"
  by (simp add: evolves_def same_sessions_def set_hub_def comp_simps)

lemma hub_sessions_kept [simp]:
  "h_sessions (resolve sid m h) = h_sessions h" "h_sessions (set_last_pong sid t h) = h_sessions h"
  by (simp_all add: resolve_def set_last_pong_def split: option.split)

lemma same_sessions_audit [frame_intros]:
  "evolves same_sessions (audit_failure x e en)" "evolves same_sessions (audit_success x e en)"
  unfolding audit_failure_def audit_success_def by (intro frame_intros)+

lemma same_sessions_current_time [frame_intros]: "evolves same_sessions current_time"
  unfolding current_time_def by (intro frame_intros)

lemma same_sessions_loop [frame_intros]: "evolves same_sessions (ws_loop x c peer sid received)"
proof (induction received)
  case (Cons a rest)
  obtain wait raw where a: "a = (wait, raw)" by (cases a) auto
  show ?case unfolding a ws_loop.simps ws_message_def Let_def
    by (intro frame_intros Cons same_sessions_set_hub hub_sessions_kept)
qed (simp add: frame_intros)

definition fewer_sessions :: "world \<Rightarrow> world \<Rightarrow> bool" where
  "fewer_sessions w w' \<longleftrightarrow> set (h_sessions (w_hub w')) \<subseteq> set (h_sessions (w_hub w))"

interpretation fewer_sessions: frame_rel fewer_sessions
  by unfold_locales (auto simp: fewer_sessions_def)

lemma dict_set_then_drop: "set (filter (\<lambda>kv. fst kv \<noteq> k) (dict_set d k v)) \<subseteq> set d"
  by (induction d k v rule: dict_set.induct) auto

lemma fewer_of_same: "evolves same_sessions m \<Longrightarrow> evolves fewer_sessions m"
  by (simp add: evolves_def same_sessions_def fewer_sessions_def)

lemma open_session_run:
  "\<exists>h. open_session code c peer fw w = (Inr (h_next (w_hub w)), w\<lparr>w_hub := h\<rparr>) \<and>
     h_sessions h = dict_set (h_sessions (w_hub w)) code (h_next (w_hub w))"
proof -
  let ?s = "\<lparr>cs_controller_id = c_id c, cs_code = code, cs_connected_at = w_now w, cs_last_pong_at = w_now w,
      cs_remote_ip = peer, cs_firmware = fw, cs_pending = []\<rparr>"
  show ?thesis
    by (rule exI [of _ "register (h_next (w_hub w)) ?s (snd (new_session ?s (w_hub w)))"])
      (simp add: open_session_def current_time_def comp_simps set_hub_def register_def new_session_def Let_def split: option.split)
qed

lemma ws_close_sessions:
  "h_sessions (w_hub (snd (ws_close x c peer sid t w))) = h_sessions (unregister (c_code c) sid (w_hub w))"
proof -
  let ?m = "bindE current_time (\<lambda>now. bindE (audit_record x (event_value CONTROLLER_DISCONNECTED) ''success''
      ((entry ''controller'')\<lparr>en_controller_id := Some (c_id c), en_client_ip := peer,
        en_detail := [(''connected_seconds'', JInt ((now - t) div 1000000))]\<rparr>)) (\<lambda>_. ret ()))"
  have "evolves same_sessions ?m" by (intro frame_intros)
  then show ?thesis
    by (simp add: ws_close_def set_hub_def bindE_apply [of "puts _"] puts_apply evolves_def same_sessions_def)
qed

lemma connection_sessions:
  "evolves fewer_sessions (bindE (open_session (c_code c) c peer fw)
     (\<lambda>sid. finallyE (ws_loop x c peer sid received) (ws_close x c peer sid t)))"
  unfolding evolves_def
proof
  fix w :: world
  let ?n = "h_next (w_hub w)" and ?S = "h_sessions (w_hub w)"
  obtain h where h: "open_session (c_code c) c peer fw w = (Inr ?n, w\<lparr>w_hub := h\<rparr>)" "h_sessions h = dict_set ?S (c_code c) ?n"
    using open_session_run by blast
  let ?w2 = "snd (ws_loop x c peer ?n received (w\<lparr>w_hub := h\<rparr>))"
  have w2: "h_sessions (w_hub ?w2) = dict_set ?S (c_code c) ?n"
    using same_sessions_loop [of x c peer ?n received] by (simp add: evolves_def same_sessions_def h(2))
  have "h_sessions (unregister (c_code c) ?n (w_hub ?w2)) = filter (\<lambda>kv. fst kv \<noteq> c_code c) (dict_set ?S (c_code c) ?n)"
    by (simp add: unregister_def Let_def w2 dict_set_map_of split: option.split)
  also have "set \<dots> \<subseteq> set ?S" by (rule dict_set_then_drop)
  finally show "fewer_sessions w (snd (bindE (open_session (c_code c) c peer fw)
     (\<lambda>sid. finallyE (ws_loop x c peer sid received) (ws_close x c peer sid t)) w))"
    using ws_close_sessions [of x c peer ?n t ?w2]
    by (auto simp: fewer_sessions_def bindE_apply h(1) finallyE_apply split: prod.splits sum.splits)
qed

lemmas fewer_basics = same_sessions_basics [THEN fewer_of_same] same_sessions_audit [THEN fewer_of_same]
  same_sessions_current_time [THEN fewer_of_same]

lemma fewer_sessions_socket: "evolves fewer_sessions (controller_socket x st peer received)"
  unfolding controller_socket_def handshake_def auth_failed_def run_session_def Let_def
  by (intro connection_sessions fewer_basics frame_intros)



section \<open>The heartbeat\<close>

lemma heartbeat_drops:
  assumes hb: "0 < ws_heartbeat_seconds st" and pong: "\<And>t. pong t \<le> p"
  shows "\<exists>t. heartbeat st pong now = Some t \<and> seconds (ws_heartbeat_timeout_seconds st) < t - pong t \<and>
    t \<le> max now (p + seconds (ws_heartbeat_timeout_seconds st)) + seconds (ws_heartbeat_seconds st)"
proof (induction "nat (p + seconds (ws_heartbeat_timeout_seconds st) + seconds (ws_heartbeat_seconds st) - now)"
    arbitrary: now rule: less_induct)
  case less
  let ?t = "now + seconds (ws_heartbeat_seconds st)" and ?T = "seconds (ws_heartbeat_timeout_seconds st)"
  show ?case
  proof (cases "?T < ?t - pong ?t")
    case True
    then have "heartbeat st pong now = Some ?t" by (simp add: heartbeat.simps [of st pong now] Let_def)
    with True show ?thesis by auto
  next
    case False
    then have le: "?t \<le> p + ?T" using pong [of ?t] by linarith
    have step: "heartbeat st pong now = heartbeat st pong ?t"
      using False by (simp add: heartbeat.simps [of st pong now] Let_def)
    from less [of ?t] hb le obtain t where "heartbeat st pong ?t = Some t" "?T < t - pong t"
      "t \<le> max ?t (p + ?T) + seconds (ws_heartbeat_seconds st)"
      by auto
    with step le show ?thesis by auto
  qed
qed

lemma heartbeat_reason:
  "heartbeat st pong now = Some t \<Longrightarrow> seconds (ws_heartbeat_timeout_seconds st) < t - pong t"
  by (induction st pong now t rule: heartbeat.raw_induct [rotated 1, consumes 1]) (auto simp: Let_def split: if_splits)

text \<open>
  Claim C39. A controller that stops answering is dropped: when no pong is later than \<open>p\<close>, the
  heartbeat task ends, it ends by closing the socket, and it does so at most one heartbeat after
  the time-out has run out.
\<close>

theorem heartbeat_drops_silent:
  assumes "0 < ws_heartbeat_seconds st" and "\<forall>t. pong t \<le> p"
  shows "\<exists>t. heartbeat st pong now = Some t \<and> seconds (ws_heartbeat_timeout_seconds st) < t - pong t \<and>
    t \<le> max now (p + seconds (ws_heartbeat_timeout_seconds st)) + seconds (ws_heartbeat_seconds st)"
  using heartbeat_drops [OF assms(1)] assms(2) by blast

theorem heartbeat_drops_silent_witness:
  "\<exists>t. heartbeat default_settings (\<lambda>_. 0) 0 = Some t \<and> seconds (ws_heartbeat_timeout_seconds default_settings) < t - 0 \<and>
    t \<le> max 0 (0 + seconds (ws_heartbeat_timeout_seconds default_settings)) + seconds (ws_heartbeat_seconds default_settings)"
  by (rule heartbeat_drops_silent [of default_settings "\<lambda>_. 0" 0 0]) (simp_all add: default_settings_def)

text \<open>
  A controller that answers in time is kept: while the last pong is never older than the
  time-out, the heartbeat task never closes the socket.
\<close>

theorem heartbeat_keeps_answering:
  assumes "\<forall>t. t - pong t \<le> seconds (ws_heartbeat_timeout_seconds st)"
  shows "heartbeat st pong now = None"
  using assms heartbeat_reason [of st pong now] by (cases "heartbeat st pong now") (auto simp: not_less [symmetric])

theorem heartbeat_keeps_answering_witness: "heartbeat default_settings (\<lambda>t. t - 1) 0 = None"
  by (rule heartbeat_keeps_answering) (simp add: default_settings_def)

end
