(* ===== verification/Unlock_Correct.thy ===== *)
theory Unlock_Correct
  imports Unlock
begin

text \<open>
  Correctness of the unlock decision: what a success has passed and when it happens, which rows
  every outcome leaves in the audit log, what a refused phone is told, how long a request waits,
  that the signer accepts what the service asks it to sign, and how the rate budget is spent.
\<close>

section \<open>The acknowledgement\<close>

lemma line_step_result:
  assumes "h_futures (line_step sid ev h) f = Some (Fut_result m)"
  shows "h_futures h f = Some (Fut_result m) \<or> ev = Message m"
  using assms by (cases ev) (auto simp: line_step_def resolve_def unregister_def register_def new_session_def
      fail_pending_futures settle_apply Let_def split: option.splits if_splits)

lemma line_steps_result:
  "h_futures (fold (line_step sid) evs h) f = Some (Fut_result m) \<Longrightarrow>
    h_futures h f = Some (Fut_result m) \<or> Message m \<in> set evs"
  by (induction evs arbitrary: h) (auto dest: line_step_result)

lemma send_command_message:
  assumes "send_command x code en t w = (Inr ack, w')"
  obtains line elapsed events where "controller_io x code line = Inr (elapsed, events)" and "elapsed \<le> seconds t"
    and "Message ack \<in> set events"
proof -
  obtain sid cid fut line h where b: "send_begin code en (w_hub w) = Inr (sid, cid, fut, line, h)"
    and a: "await_ack sid cid fut t (controller_io x code line) (w\<lparr>w_hub := h\<rparr>) = (Inr ack, w')"
    using assms by (auto simp: send_command_def set_hub_def comp_simps split: sum.splits prod.splits)
  from a obtain elapsed events where io: "controller_io x code line = Inr (elapsed, events)"
    and f: "h_futures (if elapsed \<le> seconds t then fold (line_step sid) events (w_hub (w\<lparr>w_hub := h\<rparr>))
      else w_hub (w\<lparr>w_hub := h\<rparr>)) fut = Some (Fut_result ack)"
    by (rule await_ack_Inr)
  have "elapsed \<le> seconds t" using f send_begin_Inr(2) [OF b] by (auto split: if_splits)
  moreover from this have "Message ack \<in> set events"
    using f send_begin_Inr(2) [OF b] by (auto dest: line_steps_result)
  ultimately show thesis using that io by blast
qed

lemma doors_by_id_Some:
  assumes "db_inv x w" and "doors_by_id w did = Some (d, c)"
  shows "d \<in> set (w_doors w)" and "dr_id d = did" and "door_checks d" and "c = controller_of w d"
  using assms find_SomeD [of "\<lambda>d. dr_id d = did" "w_doors w"]
  by (auto simp: doors_by_id_def db_inv_def checks_ok_def)

section \<open>When the door opens\<close>

lemma send_begin_online:
  assumes "hub_inv h" and "is_online h code" and "envelope_command_id en = Inr cid"
  obtains sid fut h' s where "send_begin code en h = Inr (sid, cid, fut, dumps False True (JObj en), h')" and "h_objects h' sid = Some s"
    and "map_of (cs_pending s) cid = Some fut" and "h_futures h' fut = Some Fut_pending" and "h_sessions h' = h_sessions h"
proof -
  obtain sid where sid: "map_of (h_sessions h) code = Some sid"
    using assms(2) by (auto simp: is_online_def) (metis map_of_eq_None_iff not_None_eq image_iff fst_conv)
  then obtain s where "h_objects h sid = Some s"
    using assms(1) by (auto simp: hub_inv_def registry_ok_def dest: map_of_SomeD)
  with sid show thesis
    using assms(3) that by (simp add: send_begin_def set_pending_def Let_def dict_set_map_of del: dumps.simps)
qed

lemma send_command_run:
  assumes "hub_inv (w_hub w)" and "is_online (w_hub w) code" and "envelope_command_id en = Inr (message_command_id ack)"
    and "controller_io x code (dumps False True (JObj en)) = Inr (elapsed, [Message ack])" and "elapsed \<le> seconds t"
  shows "\<exists>h. send_command x code en t w = (Inr ack, w\<lparr>w_now := w_now w + max 0 elapsed, w_hub := h\<rparr>)
    \<and> h_sessions h = h_sessions (w_hub w)"
proof -
  from send_begin_online [OF assms(1-3)] obtain sid fut h' s where
    "send_begin code en (w_hub w) = Inr (sid, message_command_id ack, fut, dumps False True (JObj en), h')" "h_objects h' sid = Some s"
    "map_of (cs_pending s) (message_command_id ack) = Some fut" "h_futures h' fut = Some Fut_pending"
    "h_sessions h' = h_sessions (w_hub w)" .
  then show ?thesis
    using assms(5)
    by (simp add: send_command_def await_ack_def assms(4) set_hub_def sleep_def comp_simps line_step_def resolve_def
        send_finish_def settle_apply min_def del: dumps.simps) (rule exI, rule conjI, rule refl, simp)
qed

lemma unlock_run:
  assumes inv: "db_inv x w" and ip: "inet_valid x ip" and usable: "door_usable w did = Some (door, c)"
    and "grant_open x w u did"
    and near: "verify_proximity (sha256 x) (c_beacon_key c) pr (beacon_rotation_seconds st) (proximity_max_age_seconds st)
      (w_now w) = Inr (True, age)"
    and "rate_unlock_count w u 60 + 1 < rate_max_unlocks_per_minute st" and online: "is_online (w_hub w) (c_code c)"
    and sign: "sign_command (signer_io x) (unlock_payload st door (c_code c) (rand_uuid x (w_draws w)) (w_now w div 1000000)
      (rand_bytes x (w_draws w + 1) 16)) = Inr (sg, kid)"
    and ack: "controller_io x (c_code c) (dumps False True (JObj (unlock_envelope (unlock_payload st door (c_code c)
      (rand_uuid x (w_draws w)) (w_now w div 1000000) (rand_bytes x (w_draws w + 1) 16)) sg kid)))
      = Inr (elapsed, [Message ack])" "elapsed \<le> seconds (command_ttl_seconds st)"
      "message_command_id ack = rand_uuid x (w_draws w)" "obj_get ack ''result'' = Some (JStr ''opened'')"
  shows "\<exists>w'. unlock x st u d did pr ip w = (Inr \<lparr>uo_command_id = rand_uuid x (w_draws w),
      uo_opened_for_ms = dr_unlock_seconds door * 1000, uo_proximity_age_seconds = (case age of None \<Rightarrow> 0 | Some a \<Rightarrow> a)\<rparr>, w')
    \<and> w_now w' = w_now w + max 0 elapsed \<and> h_sessions (w_hub w') = h_sessions (w_hub w)"
proof -
  let ?base = "unlock_base u d did ip"
  let ?w1 = "audit_push x (event_value DOOR_UNLOCK_REQUESTED) ''success'' ?base w"
  have doors: "doors_by_id w did = Some (door, Some c)" and act: "dr_is_active door" and nb: "\<not> c_is_blocked c"
    using usable by (auto simp: door_usable_def split: option.splits if_splits)
  have cid: "dr_controller_id door \<noteq> None"
    using doors_by_id_Some(4) [OF inv doors] by (auto simp: controller_of_def split: option.splits)
  have doors1: "doors_by_id ?w1 did = Some (door, Some c)"
    using doors by (simp add: doors_by_id_def controller_of_def controllers_by_id_def cong: option.case_cong)
  obtain v where perm: "unlock_permission x ?base u did ?w1 = (Inr v, ?w1)"
    using assms(4) by (auto simp: grant_open_def unlock_permission_def permissions_effective_def comp_simps
        split: option.splits prod.splits)
  have budget: "rate_unlock_count ?w1 u 60 < rate_max_unlocks_per_minute st"
    using assms(6) by (simp add: rate_unlock_push unlock_base_def)
  let ?payload = "unlock_payload st door (c_code c) (rand_uuid x (w_draws w)) (w_now w div 1000000) (rand_bytes x (w_draws w + 1) 16)"
  have sign1: "unlock_sign x st ?base door (c_code c) ?w1 = (Inr (rand_uuid x (w_draws w), ?payload, sg, kid), ?w1\<lparr>w_draws := w_draws w + 2\<rparr>)"
    using sign by (simp add: unlock_sign_Inr)
  have env: "envelope_command_id (unlock_envelope ?payload sg kid) = Inr (message_command_id ack)"
    by (simp add: envelope_command_id_def unlock_envelope_def unlock_payload_def obj_get_def ack(3))
  have hub: "hub_inv (w_hub w)" using inv by (simp add: db_inv_def)
  have deliver: "\<exists>h. unlock_deliver x st ?base door (c_code c) (rand_uuid x (w_draws w)) (unlock_envelope ?payload sg kid) w3
      = (Inr ack, w3\<lparr>w_now := w_now w3 + max 0 elapsed, w_hub := h\<rparr>) \<and> h_sessions h = h_sessions (w_hub w)" if "w_hub w3 = w_hub w" for w3 :: world
    using send_command_run [OF _ _ env ack(1,2), of w3] that hub online ack(4)
    by (auto simp: unlock_deliver_Inr get_or_def)
  have steps: "unlock_door x ?base did ?w1 = (Inr (door, Some c), ?w1)"
    "unlock_proximity x st ?base (Some c) pr ?w1 = (Inr (c, age), ?w1)"
    "unlock_budget x st ?base u d ?w1 = (Inr (), ?w1)" "unlock_online x ?base (c_code c) ?w1 = (Inr (), ?w1)"
    using doors1 act cid nb near budget online
    by (simp_all add: unlock_door_Inr unlock_proximity_Inr unlock_budget_Inr unlock_online_Inr)
  let ?w3 = "audit_push x (event_value DOOR_UNLOCK_GRANTED) ''success'' (?base\<lparr>en_controller_id := dr_controller_id door,
      en_detail := [(''command_id'', JStr (rand_uuid x (w_draws w))), (''signer_key_id'', kid),
        (''proximity_age_seconds'', case age of None \<Rightarrow> JNull | Some a \<Rightarrow> JInt a),
        (''duration_ms'', JInt (dr_unlock_seconds door * 1000))]\<rparr>) (?w1\<lparr>w_draws := w_draws w + 2\<rparr>)"
  obtain h where "unlock_deliver x st ?base door (c_code c) (rand_uuid x (w_draws w)) (unlock_envelope ?payload sg kid) ?w3
      = (Inr ack, ?w3\<lparr>w_now := w_now ?w3 + max 0 elapsed, w_hub := h\<rparr>)" "h_sessions h = h_sessions (w_hub w)"
    using deliver [of ?w3] by auto
  then show ?thesis
    unfolding unlock_def Let_def audit_success_def
    by (simp add: bindE_apply audit_record_run audit_accepts_base ip steps [simplified] perm [simplified] sign1 [simplified] ret_apply)
qed


section \<open>The command\<close>

lemma payload_fields:
  "obj_get (unlock_payload st door code cid t nonce) k = map_of (unlock_payload st door code cid t nonce) k"
  by (simp add: obj_get_def)

lemma payload_limits:
  assumes "door_checks door" and "length nonce = 16"
  shows "within_limits (unlock_payload st door code cid t nonce) \<longleftrightarrow> 0 < command_ttl_seconds st \<and> command_ttl_seconds st \<le> 30"
proof -
  have "24 \<le> length (urlsafe_nopad nonce) + 2" using length_urlsafe_nopad [of nonce] assms(2) by simp
  then have n: "16 \<le> length (urlsafe_nopad nonce)" by simp
  have d: "0 < dr_unlock_seconds door * 1000" "dr_unlock_seconds door * 1000 \<le> 10000"
    using assms(1) by (simp_all add: door_checks_def)
  show ?thesis
    using n d by (simp add: within_limits_def REQUIRED_COMMAND_FIELDS_def unlock_payload_def obj_get_def field_def)
qed

lemma payload_json_ok: "json_ok (JObj (unlock_payload st door code cid t nonce))"
  by (simp add: unlock_payload_def)

section \<open>Time\<close>

definition idle :: "world \<Rightarrow> world \<Rightarrow> bool" where
  "idle w w' \<longleftrightarrow> w_now w' = w_now w"

interpretation idle: frame_rel idle
  by unfold_locales (simp_all add: idle_def)

lemma idle_now: "evolves idle m \<Longrightarrow> w_now (snd (m w)) = w_now w"
  by (simp add: evolves_def idle_def)

definition takes_at_most :: "int \<Rightarrow> world \<Rightarrow> world \<Rightarrow> bool" where
  "takes_at_most k w w' \<longleftrightarrow> w_now w' \<le> w_now w + k"

lemma idle_basics [frame_intros]:
  "evolves idle (audit_record x a b c)" "evolves idle (draw_uuid x)" "evolves idle (draw_bytes x n)"
  "evolves idle (permissions_effective x u d)"
  by (auto simp: evolves_def idle_def audit_record_run run_simps permissions_effective_def
      split: option.split prod.split sum.split)

lemma idle_refusals [frame_intros]: "evolves idle (deny x b i r e c)" "evolves idle (fail_unlock x b door cid i)"
  unfolding deny_def fail_unlock_def audit_denied_def audit_failure_def by (intro frame_intros)+

lemma idle_steps [frame_intros]:
  "evolves idle (unlock_door x b d)" "evolves idle (unlock_permission x b u d)"
  "evolves idle (unlock_proximity x st b c p)" "evolves idle (unlock_budget x st b u d')"
  "evolves idle (unlock_online x b code)" "evolves idle (unlock_sign x st b door code)"
  unfolding unlock_door_def unlock_permission_def unlock_proximity_def unlock_budget_def unlock_online_def
    unlock_sign_def check_unlock_def audit_denied_def current_time_def
  by (intro frame_intros)+

lemma takes_after_idle:
  assumes "evolves idle m" and "\<And>y. evolves (takes_at_most k) (f y)" and "0 \<le> k"
  shows "evolves (takes_at_most k) (bindE m f)"
  unfolding evolves_def
proof
  fix w
  have "w_now (snd (m w)) = w_now w" using assms(1) by (simp add: evolves_def idle_def)
  moreover have "w_now (snd (f y (snd (m w)))) \<le> w_now (snd (m w)) + k" for y
    using assms(2) by (simp add: evolves_def takes_at_most_def)
  ultimately show "takes_at_most k w (snd (bindE m f w))"
    using assms(3) by (auto simp: bindE_apply takes_at_most_def split: prod.split sum.split)
qed

lemma takes_before_idle:
  assumes "evolves (takes_at_most k) m" and "\<And>y. evolves idle (f y)"
  shows "evolves (takes_at_most k) (bindE m f)"
  unfolding evolves_def
proof
  fix w
  have "w_now (snd (m w)) \<le> w_now w + k" using assms(1) by (simp add: evolves_def takes_at_most_def)
  moreover have "w_now (snd (f y (snd (m w)))) = w_now (snd (m w))" for y
    using assms(2) by (simp add: evolves_def idle_def)
  ultimately show "takes_at_most k w (snd (bindE m f w))"
    by (auto simp: bindE_apply takes_at_most_def split: prod.split sum.split)
qed

lemma takes_deliver: "evolves (takes_at_most (max 0 (seconds (command_ttl_seconds st)))) (unlock_deliver x st b door code cid en)"
  unfolding unlock_deliver_def
proof (intro takes_before_idle frame_intros)
  show "evolves (takes_at_most (max 0 (seconds (command_ttl_seconds st))))
     (catchE (send_command x code en (command_ttl_seconds st))
       (\<lambda>e. case delivery_failure e of None \<Rightarrow> throw e | Some r \<Rightarrow> fail_unlock x b door cid r))"
    unfolding evolves_def
  proof
    fix w
    obtain r w' where send: "send_command x code en (command_ttl_seconds st) w = (r, w')" by fastforce
    have "w_now (snd ((fail_unlock x b door cid i :: (string \<times> json) list io) w')) = w_now w'" for i
      by (rule idle_now [OF idle_refusals(2)])
    then show "takes_at_most (max 0 (seconds (command_ttl_seconds st))) w (snd (catchE (send_command x code en (command_ttl_seconds st))
       (\<lambda>e. case delivery_failure e of None \<Rightarrow> throw e | Some r \<Rightarrow> fail_unlock x b door cid r) w))"
      using send_command_time [OF send]
      by (auto simp: catchE_apply send takes_at_most_def throw_apply split: sum.split option.split)
  qed
qed

lemma takes_case_prod:
  "(\<And>a b. evolves (takes_at_most k) (f a b)) \<Longrightarrow> evolves (takes_at_most k) (case p of (a, b) \<Rightarrow> f a b)"
  by (simp split: prod.split)

lemma takes_unlock: "evolves (takes_at_most (max 0 (seconds (command_ttl_seconds st)))) (unlock x st u d did pr ip)"
  unfolding unlock_def Let_def audit_success_def
  by (intro takes_after_idle [OF idle_basics(1)] takes_after_idle [OF idle_steps(1)] takes_after_idle [OF idle_steps(2)]
      takes_after_idle [OF idle_steps(3)] takes_after_idle [OF idle_steps(4)] takes_after_idle [OF idle_steps(5)]
      takes_after_idle [OF idle_steps(6)] takes_before_idle [OF takes_deliver] takes_case_prod frame_intros) simp_all

section \<open>What an unlock leaves alone\<close>

text \<open>An unlock writes the audit log and nothing else: every other table is as it was.\<close>

definition only_logs :: "world \<Rightarrow> world \<Rightarrow> bool" where
  "only_logs w w' \<longleftrightarrow> w_users w' = w_users w \<and> w_devices w' = w_devices w \<and> w_codes w' = w_codes w \<and>
     w_controllers w' = w_controllers w \<and> w_doors w' = w_doors w \<and> w_permissions w' = w_permissions w \<and>
     w_tokens w' = w_tokens w \<and> w_failed w' = w_failed w \<and> w_challenges w' = w_challenges w"

interpretation only_logs: frame_rel only_logs
  by unfold_locales (simp_all add: only_logs_def)

lemma only_logs_basics [frame_intros]:
  "evolves only_logs (audit_record x a b c)" "evolves only_logs (draw_uuid x)" "evolves only_logs (draw_bytes x n)"
  "evolves only_logs (permissions_effective x u d)" "evolves only_logs (set_hub f)" "evolves only_logs (sleep t)"
  by (auto simp: evolves_def only_logs_def audit_record_run audit_push_def run_simps permissions_effective_def set_hub_def
      sleep_def split: option.split prod.split sum.split)

lemma only_logs_unlock: "evolves only_logs (unlock x st u d did pr ip)"
  unfolding unlock_def unlock_door_def unlock_permission_def unlock_proximity_def unlock_budget_def unlock_online_def
    unlock_sign_def unlock_deliver_def send_command_def await_ack_def deny_def fail_unlock_def check_unlock_def
    audit_denied_def audit_failure_def audit_success_def current_time_def
  by (intro frame_intros)

section \<open>Which refusals can arise\<close>

definition not_denied :: "exn \<Rightarrow> bool" where
  "not_denied e \<longleftrightarrow> (\<forall>i. e \<noteq> ApiError (UnlockDenied DENIED i))"

lemma not_denied_api: "\<not> is_ApiError e \<Longrightarrow> not_denied e"
  by (auto simp: not_denied_def)

lemma throws_audit [throw_intros]: "(\<And>t. P (DatabaseError t)) \<Longrightarrow> throws_only P (audit_record x a b c)"
  by (simp add: throws_only_def audit_record_run)

lemma throws_deny [throw_intros]:
  "(\<And>t. P (DatabaseError t)) \<Longrightarrow> P (ApiError (UnlockDenied r i)) \<Longrightarrow> throws_only P (deny x b i r e c)"
  "(\<And>t. P (DatabaseError t)) \<Longrightarrow> P (ApiError (UnlockDenied FAILED i)) \<Longrightarrow> throws_only P (fail_unlock x b door cid i)"
  unfolding deny_def fail_unlock_def audit_denied_def audit_failure_def by (intro throw_intros; simp)+

lemma throws_draw [throw_intros]: "throws_only P (draw_uuid x)" "throws_only P (draw_bytes x n)"
  unfolding draw_uuid_def draw_bytes_def by (intro throw_intros)+

lemma throws_send: "throws_only (\<lambda>e. \<not> is_ApiError e) (send_command x code en t)"
  unfolding throws_only_def using send_command_Inl by blast

lemma not_denied_steps:
  "throws_only not_denied (unlock_budget x st b u d)" "throws_only not_denied (unlock_online x b code)"
  "throws_only not_denied (unlock_sign x st b door code)" "throws_only not_denied (unlock_deliver x st b door code cid en)"
  "\<not> c_is_blocked c \<Longrightarrow> throws_only not_denied (unlock_proximity x st b (Some c) pr)"
proof -
  have db: "not_denied (DatabaseError t)" for t by (simp add: not_denied_def)
  show "throws_only not_denied (unlock_budget x st b u d)"
    unfolding unlock_budget_def check_unlock_def audit_denied_def
    by (intro throw_intros db) (simp add: not_denied_def)
  show "throws_only not_denied (unlock_online x b code)"
    unfolding unlock_online_def by (intro throw_intros db) (simp add: not_denied_def)
  show "throws_only not_denied (unlock_sign x st b door code)"
    unfolding unlock_sign_def current_time_def
    by (intro throw_intros db) (auto simp: not_denied_def dest!: no_api_errors(2))
  show "throws_only not_denied (unlock_deliver x st b door code cid en)"
    unfolding unlock_deliver_def
    by (intro throws_bindE throws_catchE [OF throws_send] throw_intros db) (auto simp: not_denied_def)
  show "\<not> c_is_blocked c \<Longrightarrow> throws_only not_denied (unlock_proximity x st b (Some c) pr)"
    unfolding unlock_proximity_def guard_deny current_time_def
    by (simp, intro throw_intros db) (auto simp: not_denied_def dest!: no_api_errors(1))
qed

lemma unlock_denied_iff:
  assumes inv: "db_inv x w" and ip: "inet_valid x ip"
    and zones: "\<forall>p \<in> set (w_permissions w). zone_local x (p_time_zone p) (w_now w) \<noteq> None"
  shows "(\<exists>i w'. unlock x st u d did pr ip w = (Inl (ApiError (UnlockDenied DENIED i)), w')) \<longleftrightarrow>
      door_usable w did = None \<or> \<not> grant_open x w u did"
proof -
  let ?base = "unlock_base u d did ip"
  let ?w1 = "audit_push x ''door.unlock_requested'' ''success'' ?base w"
  have doors: "doors_by_id ?w1 did = doors_by_id w did"
    by (simp add: doors_by_id_def controller_of_def controllers_by_id_def cong: option.case_cong)
  have zone: "zone_local x (p_time_zone p) (w_now w) \<noteq> None"
    if "find (\<lambda>p. p_user_id p = u \<and> p_door_id p = did \<and> in_force (w_now w) p) (w_permissions w) = Some p" for p
    using find_SomeD [OF that] zones by blast
  have perm: "(\<exists>v. unlock_permission x ?base u did ?w1 = (Inr v, ?w1)) \<and> grant_open x w u did
      \<or> (\<exists>i w'. unlock_permission x ?base u did ?w1 = (Inl (ApiError (UnlockDenied DENIED i)), w')) \<and> \<not> grant_open x w u did"
    using zone by (auto simp: unlock_permission_def permissions_effective_def grant_open_def comp_simps deny_run [OF ip]
        split: option.split prod.split)
  have blocked: "c_is_blocked c \<Longrightarrow> \<exists>i w'. unlock_proximity x st ?base (Some c) pr ?w1 = (Inl (ApiError (UnlockDenied DENIED i)), w')" for c
    by (simp add: unlock_proximity_def guard_deny deny_run [OF ip])
  note run = unlock_def Let_def audit_success_def bindE_apply audit_record_run audit_accepts_base ip
  show ?thesis
  proof (cases "doors_by_id w did")
    case None
    then show ?thesis
      by (simp add: run unlock_door_def gets_apply doors deny_run [OF ip] door_usable_def)
  next
    case (Some q)
    then obtain door c where q: "doors_by_id w did = Some (door, c)" by (cases q) auto
    have c: "dr_controller_id door = None \<longleftrightarrow> c = None"
    proof -
      have "door \<in> set (w_doors w)" "c = controller_of w door" using doors_by_id_Some [OF inv q] by simp_all
      then show ?thesis using inv by (auto simp: controller_of_def by_id_None db_inv_def refs_ok_def split: option.split)
    qed
    show ?thesis
    proof (cases "dr_is_active door \<and> c \<noteq> None")
      case False
      then show ?thesis using q c
        by (auto simp: run unlock_door_def gets_apply doors deny_run [OF ip] door_usable_def)
    next
      case True
      then obtain c' where c': "c = Some c'" by auto
      have door: "unlock_door x ?base did ?w1 = (Inr (door, Some c'), ?w1)"
        using True q c c' by (simp add: unlock_door_Inr doors)
      show ?thesis
      proof (cases "c_is_blocked c' \<or> \<not> grant_open x w u did")
        case True
        then show ?thesis using perm blocked [of c'] door q c'
          by (auto simp: run door_usable_def)
      next
        case False
        then obtain v where v: "unlock_permission x ?base u did ?w1 = (Inr v, ?w1)" using perm by blast
        have nb: "\<not> c_is_blocked c'" using False by simp
        have "door_usable w did \<noteq> None" using q True c' False by (simp add: door_usable_def)
        moreover have "\<not> (\<exists>i w'. unlock x st u d did pr ip w = (Inl (ApiError (UnlockDenied DENIED i)), w'))"
        proof
          assume "\<exists>i w'. unlock x st u d did pr ip w = (Inl (ApiError (UnlockDenied DENIED i)), w')"
          then obtain i w' where bad: "unlock x st u d did pr ip w = (Inl (ApiError (UnlockDenied DENIED i)), w')" by blast
          from bad have "not_denied (ApiError (UnlockDenied DENIED i))"
            by (simp add: unlock_def Let_def audit_success_def bindE_apply [of "audit_record x a b c" for a b c]
                bindE_apply [of "unlock_door x a b" for a b] bindE_apply [of "unlock_permission x a b c" for a b c]
                audit_record_run audit_accepts_base ip door v)
              (erule throws_onlyD [of not_denied, rotated], intro throw_intros not_denied_steps, simp_all add: not_denied_def nb)
          then show False by (simp add: not_denied_def)
        qed
        ultimately show ?thesis using False by blast
      qed
    qed
  qed
qed

section \<open>The budget\<close>

definition unlock_rows :: "instant \<Rightarrow> uuid \<Rightarrow> world \<Rightarrow> int" where
  "unlock_rows t u w = int (length (filter (\<lambda>r. a_actor_id r = Some u \<and> prefix ''door.unlock'' (a_event_type r) \<and>
     t < a_occurred_at r) (w_audit w)))"

lemma rate_unlock_rows: "rate_unlock_count w u n = unlock_rows (w_now w - seconds n) u w"
  by (simp add: rate_unlock_count_def unlock_rows_def)

lemma unlock_rows_push:
  "unlock_rows t u (audit_push x ev oc en w) = unlock_rows t u w +
     (if en_actor_id en = Some u \<and> prefix ''door.unlock'' ev \<and> t < w_now w then 1 else 0)"
  by (simp add: unlock_rows_def audit_push_def audit_hash_chain_def audit_row_of_def Let_def)

lemma unlock_rows_mono: "progress w w' \<Longrightarrow> unlock_rows t u w \<le> unlock_rows t u w'"
  by (auto simp: progress_def unlock_rows_def prefix_def)

lemma unlock_adds_three:
  assumes "unlock x st u d did pr ip w = (Inr res, w')" and "t < w_now w"
  shows "unlock_rows t u w' = unlock_rows t u w + 3"
proof (rule unlock_Inr [OF assms(1)])
  fix door c age w1 w2 w3 w4 sg kid ack
  assume w1: "w1 = audit_push x ''door.unlock_requested'' ''success'' (unlock_base u d did ip) w"
    and w2: "w2 = w1\<lparr>w_draws := w_draws w + 2\<rparr>"
    and w3: "w3 = audit_push x ''door.unlock_granted'' ''success'' (unlock_base u d did ip\<lparr>en_controller_id := dr_controller_id door,
      en_detail := [(''command_id'', JStr (uo_command_id res)), (''signer_key_id'', kid),
        (''proximity_age_seconds'', case age of None \<Rightarrow> JNull | Some a \<Rightarrow> JInt a),
        (''duration_ms'', JInt (dr_unlock_seconds door * 1000))]\<rparr>) w2"
    and send: "send_command x (c_code c) (unlock_envelope (unlock_payload st door (c_code c) (uo_command_id res)
        (w_now w div 1000000) (rand_bytes x (w_draws w + 1) 16)) sg kid) (command_ttl_seconds st) w3 = (Inr ack, w4)"
    and w': "w' = audit_push x ''door.unlock_confirmed'' ''success'' (unlock_base u d did ip\<lparr>en_controller_id := dr_controller_id door,
      en_detail := [(''command_id'', JStr (uo_command_id res)), (''controller_uptime_ms'', get_or JNull ack ''uptime_ms''),
        (''relay_ms'', get_or JNull ack ''relay_ms'')]\<rparr>) w4"
  have "w_now w3 = w_now w" by (simp add: w1 w2 w3)
  then have "t < w_now w4" using evolves_safe(2) [OF safe_send_command send] assms(2) by (simp add: progress_def)
  moreover have "unlock_rows t u w4 = unlock_rows t u w3"
    using same_log_send_command [OF send] by (simp add: unlock_rows_def)
  moreover have "unlock_rows t u w2 = unlock_rows t u w1" by (simp add: w2 unlock_rows_def)
  ultimately show ?thesis
    using assms(2) by (simp add: w' w3 w1 unlock_rows_push unlock_base_def) (simp add: w2 w1)
qed

section \<open>Concrete inputs\<close>

definition sample_presented :: string where
  "sample_presented = beacon_id sample_hash (replicate 32 9) (slot_at 120000000 30)"

lemma sample_beacon_config: "beacon_config (replicate 32 9) 30 60 120000000" "beacon_config (replicate 32 9) 30 60 120000007"
  by code_simp+

lemma sample_usable: "door_usable sample_world ''o1'' = Some (sample_door, sample_controller)"
  by (simp add: door_usable_def doors_by_id_def controller_of_def controllers_by_id_def sample_world_def sample_rows)

lemma sample_grant_open: "grant_open sample_ext sample_world ''u1'' ''o1''"
  by (simp add: grant_open_def sample_world_def sample_rows in_force_def sample_ext_def within_window_def)

lemma sample_online: "is_online (w_hub sample_world) ''ctrl-1''"
  by (simp add: sample_world_def is_online_def online_hub_eq)


lemma sample_near_at:
  assumes "beacon_config (replicate 32 9) 30 60 t" and "slot_at t 30 = 4"
  shows "\<exists>a. verify_proximity sample_hash (replicate 32 9) sample_presented 30 60 t = Inr (True, Some a)"
proof -
  have ne: "sample_presented \<noteq> []"
    unfolding sample_presented_def beacon_id_def urlsafe_nopad_Nil hmac_digest_def BEACON_ID_BYTES_def Let_def
    by (metis length_sample_hash length_greater_0_conv list.size(3) take_eq_Nil zero_less_numeral less_numeral_extra(3) zero_neq_numeral)
  have "slot_at 120000000 30 \<in> set (window t 30 60)" by (simp add: set_window window_span_def assms(2)) (simp add: slot_at_def)
  then have "find (\<lambda>s. beacon_id sample_hash (replicate 32 9) s = sample_presented) (window t 30 60) \<noteq> None"
    by (auto simp: find_None_iff sample_presented_def)
  then show ?thesis
    using verify_proximity_eq [OF assms(1) ne, of sample_hash]
    by (auto simp: sample_presented_def beacon_id_normal)
qed

lemma sample_near:
  "\<exists>a. verify_proximity (sha256 sample_ext) (c_beacon_key sample_controller) sample_presented
     (beacon_rotation_seconds sample_settings) (proximity_max_age_seconds sample_settings) (w_now sample_world) = Inr (True, Some a)"
  using sample_near_at [OF sample_beacon_config(1)]
  by (simp add: sample_ext_def sample_controller_def sample_settings_def default_settings_def sample_world_def slot_at_def)

lemma sample_uuid: "rand_uuid sample_ext (w_draws sample_world) = ''id-0''"
  by (simp add: sample_ext_def sample_world_def nat_digits.simps) code_simp

lemma sample_budget: "rate_unlock_count sample_world ''u1'' 60 + 1 < rate_max_unlocks_per_minute sample_settings"
  by (simp add: rate_unlock_count_def sample_world_def sample_settings_def default_settings_def)

lemma sample_line: "controller_io sample_ext (c_code sample_controller) line =
    Inr (7, [Message [(''command_id'', JStr ''id-0''), (''result'', JStr ''opened'')]])"
  by (simp add: sample_ext_def)

lemma sample_unlock:
  "\<exists>a w'. unlock sample_ext sample_settings ''u1'' ''d1'' ''o1'' sample_presented None sample_world =
     (Inr \<lparr>uo_command_id = ''id-0'', uo_opened_for_ms = 3000, uo_proximity_age_seconds = a\<rparr>, w') \<and> w_now w' = 120000007"
proof -
  obtain a where near: "verify_proximity (sha256 sample_ext) (c_beacon_key sample_controller) sample_presented
     (beacon_rotation_seconds sample_settings) (proximity_max_age_seconds sample_settings) (w_now sample_world) = Inr (True, Some a)"
    using sample_near by blast
  have "c_code sample_controller = ''ctrl-1''" "dr_unlock_seconds sample_door = 3" by (simp_all add: sample_rows)
  moreover have "w_now sample_world = 120000000" "command_ttl_seconds sample_settings = 10"
    by (simp_all add: sample_world_def sample_settings_def default_settings_def)
  ultimately show ?thesis
    using unlock_run [OF sample_world_inv _ sample_usable sample_grant_open near sample_budget _ sample_sign sample_line,
        of None "''d1''"] sample_online sample_uuid
    by (auto simp: inet_valid_def message_command_id_def py_str_def obj_get_def)
qed

section \<open>Properties\<close>

text \<open>
  Claim C1. A door is reported open only to a user with a grant in force whose weekday and time
  window are open now, for an active door whose controller is registered, not blocked and
  connected, with a fresh proof of presence and within the unlock budget; the command was signed,
  the controller answered that very command with \<^verbatim>\<open>opened\<close> within the lifetime of the command, and the
  relay is driven between one and ten seconds.
\<close>

theorem unlock_requires:
  assumes "db_inv x w" and "unlock x st u d did pr ip w = (Inr res, w')"
  shows "\<exists>door c age sg kid line elapsed events ack. door_usable w did = Some (door, c) \<and> grant_open x w u did
    \<and> verify_proximity (sha256 x) (c_beacon_key c) pr (beacon_rotation_seconds st) (proximity_max_age_seconds st) (w_now w)
        = Inr (True, age)
    \<and> rate_unlock_count w u 60 + 1 < rate_max_unlocks_per_minute st \<and> is_online (w_hub w) (c_code c)
    \<and> sign_command (signer_io x) (unlock_payload st door (c_code c) (uo_command_id res) (w_now w div 1000000)
        (rand_bytes x (w_draws w + 1) 16)) = Inr (sg, kid)
    \<and> controller_io x (c_code c) line = Inr (elapsed, events) \<and> elapsed \<le> seconds (command_ttl_seconds st)
    \<and> Message ack \<in> set events \<and> message_command_id ack = uo_command_id res \<and> obj_get ack ''result'' = Some (JStr ''opened'')
    \<and> uo_opened_for_ms res = dr_unlock_seconds door * 1000 \<and> 1000 \<le> uo_opened_for_ms res \<and> uo_opened_for_ms res \<le> 10000"
proof -
  from assms(2) obtain door c age w3 w4 sg kid ack where doors: "doors_by_id w did = Some (door, Some c)"
    and u: "dr_is_active door" "\<not> c_is_blocked c" "grant_open x w u did"
    and near: "verify_proximity (sha256 x) (c_beacon_key c) pr (beacon_rotation_seconds st) (proximity_max_age_seconds st)
      (w_now w) = Inr (True, age)"
    and budget: "rate_unlock_count w u 60 + 1 < rate_max_unlocks_per_minute st" "is_online (w_hub w) (c_code c)"
    and sign: "sign_command (signer_io x) (unlock_payload st door (c_code c) (uo_command_id res) (w_now w div 1000000)
        (rand_bytes x (w_draws w + 1) 16)) = Inr (sg, kid)"
    and send: "send_command x (c_code c) (unlock_envelope (unlock_payload st door (c_code c) (uo_command_id res)
        (w_now w div 1000000) (rand_bytes x (w_draws w + 1) 16)) sg kid) (command_ttl_seconds st) w3 = (Inr ack, w4)"
    and opened: "get_or JNull ack ''result'' = JStr ''opened''" and ms: "uo_opened_for_ms res = dr_unlock_seconds door * 1000"
    and hub: "w_hub w3 = w_hub w"
    by (rule unlock_Inr) simp
  have "hub_inv (w_hub w3)" using assms(1) hub by (simp add: db_inv_def)
  from send_command_Inr(1) [OF this send] have "message_command_id ack = uo_command_id res"
    by (simp add: envelope_command_id_def unlock_envelope_def unlock_payload_def obj_get_def)
  moreover obtain line elapsed events where "controller_io x (c_code c) line = Inr (elapsed, events)"
      "elapsed \<le> seconds (command_ttl_seconds st)" "Message ack \<in> set events"
    by (rule send_command_message [OF send])
  moreover have "obj_get ack ''result'' = Some (JStr ''opened'')" using opened by (simp add: get_or_def split: option.splits)
  moreover have "door_usable w did = Some (door, c)" using doors u by (simp add: door_usable_def)
  moreover have "1000 \<le> uo_opened_for_ms res" "uo_opened_for_ms res \<le> 10000"
    using doors_by_id_Some(3) [OF assms(1) doors] ms by (simp_all add: door_checks_def)
  ultimately show ?thesis using u(3) near budget sign ms by blast
qed


theorem unlock_requires_witness:
  "\<exists>res w' line elapsed events ack. unlock sample_ext sample_settings ''u1'' ''d1'' ''o1'' sample_presented None sample_world = (Inr res, w')
    \<and> controller_io sample_ext ''ctrl-1'' line = Inr (elapsed, events) \<and> Message ack \<in> set events
    \<and> message_command_id ack = uo_command_id res \<and> uo_opened_for_ms res \<le> 10000"
proof -
  obtain res w' where run: "unlock sample_ext sample_settings ''u1'' ''d1'' ''o1'' sample_presented None sample_world = (Inr res, w')"
    using sample_unlock by blast
  show ?thesis using unlock_requires [OF sample_world_inv run] run sample_usable by (auto simp: sample_controller_def)
qed

text \<open>
  The converse: when the grant is open, the door usable, the proof of presence valid, the
  budget not spent, the controller connected, the signer signs and the controller acknowledges the
  command in time, the request returns the open door, after exactly the time the controller took.
\<close>

theorem unlock_opens:
  assumes "db_inv x w" and "inet_valid x ip" and "door_usable w did = Some (door, c)" and "grant_open x w u did"
    and "verify_proximity (sha256 x) (c_beacon_key c) pr (beacon_rotation_seconds st) (proximity_max_age_seconds st)
      (w_now w) = Inr (True, age)"
    and "rate_unlock_count w u 60 + 1 < rate_max_unlocks_per_minute st" and "is_online (w_hub w) (c_code c)"
    and "sign_command (signer_io x) (unlock_payload st door (c_code c) (rand_uuid x (w_draws w)) (w_now w div 1000000)
      (rand_bytes x (w_draws w + 1) 16)) = Inr (sg, kid)"
    and "controller_io x (c_code c) (dumps False True (JObj (unlock_envelope (unlock_payload st door (c_code c)
      (rand_uuid x (w_draws w)) (w_now w div 1000000) (rand_bytes x (w_draws w + 1) 16)) sg kid)))
      = Inr (elapsed, [Message ack])" and "elapsed \<le> seconds (command_ttl_seconds st)"
    and "message_command_id ack = rand_uuid x (w_draws w)" and "obj_get ack ''result'' = Some (JStr ''opened'')"
  shows "\<exists>w'. unlock x st u d did pr ip w = (Inr \<lparr>uo_command_id = rand_uuid x (w_draws w),
      uo_opened_for_ms = dr_unlock_seconds door * 1000, uo_proximity_age_seconds = (case age of None \<Rightarrow> 0 | Some a \<Rightarrow> a)\<rparr>, w')
    \<and> w_now w' = w_now w + max 0 elapsed"
  using unlock_run [OF assms] by blast

theorem unlock_opens_witness:
  "\<exists>a w'. unlock sample_ext sample_settings ''u1'' ''d1'' ''o1'' sample_presented None sample_world =
     (Inr \<lparr>uo_command_id = rand_uuid sample_ext 0, uo_opened_for_ms = 3000, uo_proximity_age_seconds = a\<rparr>, w')"
proof -
  obtain a where near: "verify_proximity (sha256 sample_ext) (c_beacon_key sample_controller) sample_presented
     (beacon_rotation_seconds sample_settings) (proximity_max_age_seconds sample_settings) (w_now sample_world) = Inr (True, Some a)"
    using sample_near by blast
  show ?thesis
    using unlock_opens [OF sample_world_inv _ sample_usable sample_grant_open near sample_budget _ sample_sign sample_line,
        of None "''d1''"] sample_online sample_uuid
    by (auto simp: inet_valid_def message_command_id_def py_str_def obj_get_def sample_rows sample_world_def sample_settings_def default_settings_def)
qed

text \<open>
  Claim C29. Every unlock request leaves a complete trail, whatever happens: the request row, and then
  exactly the rows of how it ended. A refusal (\<^verbatim>\<open>UnlockDenied\<close>) is followed by one \<^verbatim>\<open>unlock_denied\<close> row, or
  after the grant by one \<^verbatim>\<open>unlock_failed\<close> row, that carries the reason; the rate limit by its own row;
  success by the grant and the confirmation; no other API error can arise.
\<close>

theorem unlock_audited:
  assumes "inet_valid x ip" and "unlock x st u d did pr ip w = (res, w')"
  shows "\<exists>tr. logged w ((''door.unlock_requested'', ''success'', None) # tr) w' \<and>
    (case res of
       Inr _ \<Rightarrow> tr = [(''door.unlock_granted'', ''success'', None), (''door.unlock_confirmed'', ''success'', None)]
     | Inl (ApiError e) \<Rightarrow>
         (\<exists>r i. e = UnlockDenied r i \<and>
            (tr = [(''door.unlock_denied'', ''denied'', Some (JStr i))] \<or>
             r = FAILED \<and> tr = [(''door.unlock_granted'', ''success'', None), (''door.unlock_failed'', ''failure'', Some (JStr i))]))
         \<or> (\<exists>n. e = RateLimited n \<and> tr = [(''rate.limit_tripped'', ''denied'', None)])
     | Inl _ \<Rightarrow> tr = [] \<or> tr = [(''door.unlock_granted'', ''success'', None)])"
proof -
  obtain tr where tr: "unlock_trail res tr" "logged w ((''door.unlock_requested'', ''success'', None) # tr) w'"
    using unlock_trail_lemma [OF assms(1), of st u d did pr w] assms(2) by (auto simp: trail_in_def)
  show ?thesis
  proof (intro exI [of _ tr] conjI tr(2))
    show "case res of
       Inr _ \<Rightarrow> tr = [(''door.unlock_granted'', ''success'', None), (''door.unlock_confirmed'', ''success'', None)]
     | Inl (ApiError e) \<Rightarrow>
         (\<exists>r i. e = UnlockDenied r i \<and>
            (tr = [(''door.unlock_denied'', ''denied'', Some (JStr i))] \<or>
             r = FAILED \<and> tr = [(''door.unlock_granted'', ''success'', None), (''door.unlock_failed'', ''failure'', Some (JStr i))]))
         \<or> (\<exists>n. e = RateLimited n \<and> tr = [(''rate.limit_tripped'', ''denied'', None)])
     | Inl _ \<Rightarrow> tr = [] \<or> tr = [(''door.unlock_granted'', ''success'', None)]"
      using tr(1) unfolding unlock_trail_def by (auto split: sum.splits exn.splits elim!: refusal_rows.elims failure_rows.elims)
  qed
qed

theorem unlock_audited_witness:
  "\<exists>w'. fst (unlock sample_ext sample_settings ''u1'' ''d1'' ''nowhere'' [] None sample_world)
      = Inl (ApiError (UnlockDenied DENIED ''door_unavailable''))
    \<and> logged sample_world [(''door.unlock_requested'', ''success'', None),
        (''door.unlock_denied'', ''denied'', Some (JStr ''door_unavailable''))] w'"
proof -
  have ip: "inet_valid sample_ext None" by (simp add: inet_valid_def)
  have none: "find (\<lambda>d. dr_id d = ''nowhere'') (w_doors sample_world) = None" by (simp add: sample_world_def sample_rows)
  have "\<exists>w'. unlock sample_ext sample_settings ''u1'' ''d1'' ''nowhere'' [] None sample_world
      = (Inl (ApiError (UnlockDenied DENIED ''door_unavailable'')), w')"
    by (simp add: unlock_def unlock_door_def Let_def bindE_apply gets_apply audit_record_run audit_accepts_base ip deny_run
        doors_by_id_def none)
  then obtain w' where run: "unlock sample_ext sample_settings ''u1'' ''d1'' ''nowhere'' [] None sample_world
      = (Inl (ApiError (UnlockDenied DENIED ''door_unavailable'')), w')" by blast
  show ?thesis using unlock_audited [OF ip run] run by auto
qed


text \<open>
  What a refused phone is told. The refusal \<^verbatim>\<open>denied\<close> is given exactly when the door is
  missing, inactive, without a controller or with a blocked one, or when the user has no grant
  that is open now; the response is the same in all these cases.
\<close>

theorem unlock_refusals_alike:
  assumes "db_inv x w" and "inet_valid x ip" and "\<forall>p \<in> set (w_permissions w). zone_local x (p_time_zone p) (w_now w) \<noteq> None"
  shows "((\<exists>i w'. unlock x st u d did pr ip w = (Inl (ApiError (UnlockDenied DENIED i)), w')) \<longleftrightarrow>
      door_usable w did = None \<or> \<not> grant_open x w u did)
    \<and> http_error (UnlockDenied DENIED i) = \<lparr>he_status = 403, he_error = ''denied'', he_headers = []\<rparr>"
proof
  show "(\<exists>i w'. unlock x st u d did pr ip w = (Inl (ApiError (UnlockDenied DENIED i)), w')) \<longleftrightarrow>
      door_usable w did = None \<or> \<not> grant_open x w u did"
    by (rule unlock_denied_iff [OF assms])
qed (simp add: http_error_def)

theorem unlock_refusals_alike_witness:
  "(\<exists>i w'. unlock sample_ext sample_settings ''u1'' ''d1'' ''nowhere'' [] None sample_world = (Inl (ApiError (UnlockDenied DENIED i)), w'))
   \<and> \<not> (\<exists>i w'. unlock sample_ext sample_settings ''u1'' ''d1'' ''o1'' [] None sample_world = (Inl (ApiError (UnlockDenied DENIED i)), w'))"
proof -
  have z: "\<forall>p \<in> set (w_permissions sample_world). zone_local sample_ext (p_time_zone p) (w_now sample_world) \<noteq> None"
    by (simp add: sample_world_def sample_rows sample_ext_def)
  have "door_usable sample_world ''nowhere'' = None"
    by (simp add: door_usable_def doors_by_id_def sample_world_def sample_rows)
  then show ?thesis
    using unlock_refusals_alike [OF sample_world_inv _ z, of None sample_settings "''u1''" "''d1''" "''nowhere''" "[]"]
      unlock_refusals_alike [OF sample_world_inv _ z, of None sample_settings "''u1''" "''d1''" "''o1''" "[]"]
      sample_usable sample_grant_open
    by (simp add: inet_valid_def)
qed



text \<open>
  Claim C31. The signer accepts every command the service builds for a door of the database exactly
  when the configured lifetime lies within the signer's own ceiling of 30 seconds; so a compliant
  configuration is never refused, and a longer lifetime is refused on every unlock.
\<close>

theorem unlock_command_signable:
  assumes "db_inv x w" and "doors_by_id w did = Some (door, c)" and "length nonce = 16"
  shows "validate_command (unlock_payload st door code cid issued_at nonce) = Inr () \<longleftrightarrow>
    0 < command_ttl_seconds st \<and> command_ttl_seconds st \<le> 30"
  using payload_limits [OF doors_by_id_Some(3) [OF assms(1,2)] assms(3)] by (simp add: validate_command_iff)

theorem unlock_command_signable_witness:
  "validate_command (unlock_payload default_settings sample_door ''ctrl-1'' ''k'' 120 (replicate 16 0)) = Inr ()
   \<and> validate_command (unlock_payload (default_settings\<lparr>command_ttl_seconds := 31\<rparr>) sample_door ''ctrl-1'' ''k'' 120 (replicate 16 0)) \<noteq> Inr ()"
proof -
  have "doors_by_id sample_world ''o1'' = Some (sample_door, Some sample_controller)"
    by (simp add: doors_by_id_def controller_of_def controllers_by_id_def sample_world_def sample_rows)
  from unlock_command_signable [OF sample_world_inv this] show ?thesis by (simp add: default_settings_def)
qed

text \<open>
  The unlock budget counts audit rows, and a successful unlock writes three of them. With
  the default limit of six, or any limit up to seven, two successes exhaust the minute: a third
  request by the same user within sixty seconds of the first is never served.
\<close>

theorem third_unlock_refused:
  assumes "rate_max_unlocks_per_minute st \<le> 7"
    and "unlock x st u d1 o1 p1 ip1 w = (Inr r1, w1)" and "progress w1 v"
    and "unlock x st u d2 o2 p2 ip2 v = (Inr r2, v1)" and "progress v1 z" and "w_now z < w_now w + seconds 60"
  shows "\<forall>r3 z'. unlock x st u d3 o3 p3 ip3 z \<noteq> (Inr r3, z')"
proof (intro allI notI)
  fix r3 z' assume run: "unlock x st u d3 o3 p3 ip3 z = (Inr r3, z')"
  let ?t = "w_now z - seconds 60"
  have t: "?t < w_now w" "w_now w \<le> w_now w1" "w_now w1 \<le> w_now v"
    using assms(6) evolves_safe(2) [OF safe_unlock assms(2)] assms(3) by (simp_all add: progress_def)
  have "unlock_rows ?t u w1 = unlock_rows ?t u w + 3" by (rule unlock_adds_three [OF assms(2) t(1)])
  moreover have "unlock_rows ?t u w1 \<le> unlock_rows ?t u v" by (rule unlock_rows_mono [OF assms(3)])
  moreover have "unlock_rows ?t u v1 = unlock_rows ?t u v + 3" by (rule unlock_adds_three [OF assms(4)]) (use t in simp)
  moreover have "unlock_rows ?t u v1 \<le> unlock_rows ?t u z" by (rule unlock_rows_mono [OF assms(5)])
  moreover have "0 \<le> unlock_rows ?t u w" by (simp add: unlock_rows_def)
  ultimately have "6 \<le> rate_unlock_count z u 60" by (simp add: rate_unlock_rows)
  moreover have "rate_unlock_count z u 60 + 1 < rate_max_unlocks_per_minute st" using run by (rule unlock_Inr)
  ultimately show False using assms(1) by simp
qed

text \<open>The sample with a random source that repeats itself, so that one answer fits every command.\<close>

definition echo_ext :: ext where
  "echo_ext = sample_ext\<lparr>rand_uuid := \<lambda>_. ''id-0''\<rparr>"

lemma echo_simps:
  "sha256 echo_ext = sample_hash" "pg echo_ext = pg sample_ext" "rand_uuid echo_ext n = ''id-0''"
  "controller_io echo_ext = controller_io sample_ext" "signer_io echo_ext = signer_io sample_ext"
  "zone_local echo_ext = zone_local sample_ext"
  by (simp_all add: echo_ext_def sample_ext_def)

lemma echo_unlock:
  assumes "db_inv echo_ext w" and "only_logs sample_world w" and "h_sessions (w_hub w) = h_sessions (w_hub sample_world)"
    and "w_now w = 120000000 \<or> w_now w = 120000007" and "rate_unlock_count w ''u1'' 60 \<le> 3"
  shows "\<exists>res w'. unlock echo_ext sample_settings ''u1'' ''d1'' ''o1'' sample_presented None w = (Inr res, w')
    \<and> w_now w' = w_now w + 7 \<and> h_sessions (w_hub w') = h_sessions (w_hub w)"
proof -
  have cfg: "beacon_config (replicate 32 9) 30 60 (w_now w)" "slot_at (w_now w) 30 = 4"
    using assms(4) sample_beacon_config by (auto simp: slot_at_def)
  obtain a where near: "verify_proximity (sha256 echo_ext) (c_beacon_key sample_controller) sample_presented
     (beacon_rotation_seconds sample_settings) (proximity_max_age_seconds sample_settings) (w_now w) = Inr (True, Some a)"
    using sample_near_at [OF cfg] by (auto simp: echo_simps sample_controller_def sample_settings_def default_settings_def)
  have usable: "door_usable w ''o1'' = Some (sample_door, sample_controller)"
    using assms(2) sample_usable
    by (simp add: only_logs_def door_usable_def doors_by_id_def controller_of_def controllers_by_id_def cong: option.case_cong)
  have grant: "grant_open echo_ext w ''u1'' ''o1''"
    using assms(2,4) by (auto simp: only_logs_def grant_open_def echo_simps sample_world_def sample_permission_def
        in_force_def sample_ext_def within_window_def)
  have budget: "rate_unlock_count w ''u1'' 60 + 1 < rate_max_unlocks_per_minute sample_settings"
    using assms(5) by (simp add: sample_settings_def default_settings_def)
  have online: "is_online (w_hub w) (c_code sample_controller)"
    using sample_online assms(3) by (simp add: is_online_def sample_controller_def)
  have io: "controller_io echo_ext (c_code sample_controller) line =
    Inr (7, [Message [(''command_id'', JStr ''id-0''), (''result'', JStr ''opened'')]])" for line
    by (simp add: echo_simps sample_line)
  have sign: "sign_command (signer_io echo_ext) cmd = Inr (sample_key, JStr ''signer-1'')" for cmd
    by (simp add: echo_simps sample_sign)
  show ?thesis
    using unlock_run [OF assms(1) _ usable grant near budget online sign io, of None "''d1''"]
    by (auto simp: inet_valid_def message_command_id_def py_str_def obj_get_def echo_simps sample_settings_def default_settings_def)
qed

theorem third_unlock_refused_witness:
  "\<exists>r1 w1 r2 w2. unlock echo_ext sample_settings ''u1'' ''d1'' ''o1'' sample_presented None sample_world = (Inr r1, w1)
    \<and> unlock echo_ext sample_settings ''u1'' ''d1'' ''o1'' sample_presented None w1 = (Inr r2, w2)
    \<and> (\<forall>r3 w3. unlock echo_ext sample_settings ''u1'' ''d1'' ''o1'' sample_presented None w2 \<noteq> (Inr r3, w3))"
proof -
  have inv: "db_inv echo_ext sample_world"
    using sample_world_inv by (simp add: db_inv_def audit_ok_def echo_simps) (simp add: sample_ext_def)
  have now: "w_now sample_world = 120000000" and none: "unlock_rows t ''u1'' sample_world = 0" for t
    by (simp_all add: sample_world_def unlock_rows_def)
  obtain r1 w1 where u1: "unlock echo_ext sample_settings ''u1'' ''d1'' ''o1'' sample_presented None sample_world = (Inr r1, w1)"
    and t1: "w_now w1 = 120000007" and h1: "h_sessions (w_hub w1) = h_sessions (w_hub sample_world)"
    using echo_unlock [OF inv] now by (auto simp: only_logs_def rate_unlock_rows none)
  have inv1: "db_inv echo_ext w1" by (rule evolves_safe(3) [OF safe_unlock u1 inv])
  have "only_logs sample_world w1"
    using only_logs_unlock [of echo_ext sample_settings "''u1''" "''d1''" "''o1''" sample_presented None] u1
    unfolding evolves_def by (metis snd_conv)
  moreover have "rate_unlock_count w1 ''u1'' 60 = 3"
    using unlock_adds_three [OF u1, of "w_now w1 - seconds 60"] t1 now by (simp add: rate_unlock_rows none)
  ultimately obtain r2 w2 where u2: "unlock echo_ext sample_settings ''u1'' ''d1'' ''o1'' sample_presented None w1 = (Inr r2, w2)"
    and t2: "w_now w2 = 120000014"
    using echo_unlock [OF inv1] t1 h1 by auto
  have "\<forall>r3 w3. unlock echo_ext sample_settings ''u1'' ''d1'' ''o1'' sample_presented None w2 \<noteq> (Inr r3, w3)"
    by (rule third_unlock_refused [OF _ u1 progress_refl u2 progress_refl])
      (simp_all add: t2 now, simp add: sample_settings_def default_settings_def)
  then show ?thesis using u1 u2 by blast
qed

end
