(* ===== verification/Schemas.thy ===== *)
theory Schemas
  imports Enrollment
begin

text \<open>
  \<^verbatim>\<open>backend/app/models/schemas.py\<close>: one record per model. What a request model declares about its
  fields (lengths, ranges, patterns, validators, and the stripping of whitespace that \<^verbatim>\<open>StrictModel\<close>
  configures) is a predicate on the record; a handler only ever sees a body that satisfies it.
  Response models declare types only.
\<close>

section \<open>Field declarations\<close>

text \<open>\<^verbatim>\<open>str_strip_whitespace=True\<close>, \<^verbatim>\<open>Field(min_length=lo, max_length=hi)\<close>.\<close>

definition text_field :: "nat \<Rightarrow> nat \<Rightarrow> string \<Rightarrow> bool" where
  "text_field lo hi s \<longleftrightarrow> py_strip s = s \<and> lo \<le> length s \<and> length s \<le> hi"

definition opt_text_field :: "nat \<Rightarrow> string option \<Rightarrow> bool" where
  "opt_text_field hi v = (case v of None \<Rightarrow> True | Some s \<Rightarrow> text_field 0 hi s)"

definition Base64Str :: "string \<Rightarrow> bool" where
  "Base64Str s = text_field 4 8192 s"

text \<open>The pattern \<^verbatim>\<open>^[a-z0-9-]+$\<close>.\<close>

definition code_pattern :: "string \<Rightarrow> bool" where
  "code_pattern s \<longleftrightarrow> s \<noteq> [] \<and> list_all (\<lambda>c. let n = (of_char c :: nat) in
     (97 \<le> n \<and> n \<le> 122) \<or> (48 \<le> n \<and> n \<le> 57) \<or> c = CHR ''-'') s"

section \<open>Enrolment\<close>

record EnrollChallengeRequest =
  ecr_enrollment_code :: string

definition EnrollChallengeRequest_ok :: "EnrollChallengeRequest \<Rightarrow> bool" where
  "EnrollChallengeRequest_ok b \<longleftrightarrow> text_field 8 128 (ecr_enrollment_code b)"

record EnrollChallengeResponse =
  ecs_challenge :: string
  ecs_expires_in :: int

record EnrollRequest =
  er_enrollment_code :: string
  er_label :: string
  er_device_public_key :: string
  er_attestation_chain :: "string list"
  er_play_integrity_token :: string
  er_challenge :: string
  er_app_version :: "string option"

definition key_shape :: "string \<Rightarrow> exn + string" where
  "key_shape v = bindS (b64_strict v) (\<lambda>raw.
     if length raw \<noteq> 32 then Inl (ValueError ''device_public_key must decode to 32 bytes'') else Inr v)"

definition EnrollRequest_ok :: "EnrollRequest \<Rightarrow> bool" where
  "EnrollRequest_ok b \<longleftrightarrow>
     text_field 8 128 (er_enrollment_code b) \<and> text_field 1 64 (er_label b) \<and>
     Base64Str (er_device_public_key b) \<and> key_shape (er_device_public_key b) = Inr (er_device_public_key b) \<and>
     length (er_attestation_chain b) \<le> 8 \<and> list_all (\<lambda>s. py_strip s = s) (er_attestation_chain b) \<and>
     text_field 0 8192 (er_play_integrity_token b) \<and> Base64Str (er_challenge b) \<and> opt_text_field 32 (er_app_version b)"

record EnrollResponse =
  es_device_id :: uuid
  es_attestation_status :: string
  es_access_token :: string
  es_refresh_token :: string
  es_expires_in :: int

section \<open>Authentication\<close>

record LoginRequest =
  lr_username :: string
  lr_password :: string
  lr_device_id :: uuid

definition LoginRequest_ok :: "LoginRequest \<Rightarrow> bool" where
  "LoginRequest_ok b \<longleftrightarrow> text_field 3 64 (lr_username b) \<and> text_field 1 512 (lr_password b)"

record TokenPair =
  tp_access_token :: string
  tp_refresh_token :: string
  tp_token_type :: string
  tp_expires_in :: int

record RefreshRequest =
  rr_refresh_token :: string

definition RefreshRequest_ok :: "RefreshRequest \<Rightarrow> bool" where
  "RefreshRequest_ok b \<longleftrightarrow> text_field 16 256 (rr_refresh_token b)"

record LogoutRequest =
  or_refresh_token :: "string option"
  or_all_devices :: bool

definition LogoutRequest_ok :: "LogoutRequest \<Rightarrow> bool" where
  "LogoutRequest_ok b \<longleftrightarrow> opt_text_field 256 (or_refresh_token b)"

section \<open>Doors, history, health\<close>

record DoorSummary =
  ds_id :: uuid
  ds_code :: string
  ds_name :: string
  ds_location :: "string option"
  ds_unlock_seconds :: int
  ds_controller_online :: bool
  ds_window_start :: int
  ds_window_end :: int
  ds_weekday_mask :: int
  ds_time_zone :: string

record DoorListResponse =
  dl_doors :: "DoorSummary list"
  dl_server_time :: instant

record UnlockRequest =
  ur_proximity_beacon_id :: string
  ur_client_request_id :: "uuid option"

definition UnlockRequest_ok :: "UnlockRequest \<Rightarrow> bool" where
  "UnlockRequest_ok b \<longleftrightarrow> text_field 8 64 (ur_proximity_beacon_id b)"

record UnlockResponse =
  us_result :: string
  us_door_id :: uuid
  us_command_id :: uuid
  us_opened_for_ms :: int
  us_proximity_age_seconds :: int

record UnlockDeniedResponse =
  ud_error :: string
  ud_retry_after_seconds :: "int option"

record AccessRecord =
  ac_seq :: int
  ac_occurred_at :: instant
  ac_event_type :: string
  ac_outcome :: string
  ac_door_id :: "uuid option"
  ac_detail :: json

record AccessHistoryResponse =
  ah_records :: "AccessRecord list"

record HealthResponse =
  he_health :: string
  he_version :: string
  he_database :: bool
  he_signer :: bool
  he_controllers_online :: int
  he_audit_chain_ok :: "bool option"

section \<open>Administration\<close>

record ControllerCreate =
  cc_code :: string
  cc_name :: string
  cc_public_key :: string
  cc_beacon_key :: string

definition ControllerCreate_ok :: "ControllerCreate \<Rightarrow> bool" where
  "ControllerCreate_ok b \<longleftrightarrow> text_field 3 64 (cc_code b) \<and> code_pattern (cc_code b) \<and> text_field 1 128 (cc_name b) \<and>
     Base64Str (cc_public_key b) \<and> Base64Str (cc_beacon_key b)"

record ControllerSummary =
  cm_id :: uuid
  cm_code :: string
  cm_name :: string
  cm_firmware_version :: "string option"
  cm_is_blocked :: bool
  cm_last_seen_at :: "instant option"
  cm_online :: bool

record DoorCreate =
  dc_code :: string
  dc_name :: string
  dc_location :: "string option"
  dc_controller_id :: "uuid option"
  dc_relay_channel :: int
  dc_unlock_seconds :: int

definition DoorCreate_ok :: "DoorCreate \<Rightarrow> bool" where
  "DoorCreate_ok b \<longleftrightarrow> text_field 3 64 (dc_code b) \<and> code_pattern (dc_code b) \<and> text_field 1 128 (dc_name b) \<and>
     opt_text_field 128 (dc_location b) \<and> 1 \<le> dc_relay_channel b \<and> dc_relay_channel b \<le> 4 \<and>
     1 \<le> dc_unlock_seconds b \<and> dc_unlock_seconds b \<le> 10"

record PermissionCreate =
  pc_user_id :: uuid
  pc_door_id :: uuid
  pc_weekday_mask :: int
  pc_start_time :: int
  pc_end_time :: int
  pc_time_zone :: string
  pc_valid_until :: "instant option"

definition PermissionCreate_ok :: "PermissionCreate \<Rightarrow> bool" where
  "PermissionCreate_ok b \<longleftrightarrow> 0 \<le> pc_weekday_mask b \<and> pc_weekday_mask b \<le> 127 \<and> text_field 0 64 (pc_time_zone b) \<and>
     0 \<le> pc_start_time b \<and> pc_start_time b < 86400000000 \<and> 0 \<le> pc_end_time b \<and> pc_end_time b < 86400000000"

record AuditQuery =
  aq_limit :: int
  aq_before_seq :: "int option"
  aq_event_type :: "string option"
  aq_actor_id :: "uuid option"

definition AuditQuery_ok :: "AuditQuery \<Rightarrow> bool" where
  "AuditQuery_ok q \<longleftrightarrow> 1 \<le> aq_limit q \<and> aq_limit q \<le> 500 \<and> opt_text_field 64 (aq_event_type q)"

record AuditEntry =
  ae_seq :: int
  ae_occurred_at :: instant
  ae_event_type :: string
  ae_outcome :: string
  ae_actor_type :: string
  ae_actor_id :: "uuid option"
  ae_device_id :: "uuid option"
  ae_door_id :: "uuid option"
  ae_controller_id :: "uuid option"
  ae_client_ip :: "string option"
  ae_detail :: json
  ae_row_hash :: string

record AuditChainStatus =
  as_chain_ok :: bool
  as_rows_checked :: int
  as_first_bad_seq :: "int option"
  as_first_bad_reason :: "string option"
  as_head_seq :: "int option"
  as_head_hash :: "string option"

section \<open>What the declarations give the services\<close>

lemma key_shape_Inr: "key_shape v = Inr u \<longleftrightarrow> u = v \<and> (\<exists>raw. b64_strict v = Inr raw \<and> length raw = 32)"
  by (auto simp: key_shape_def bindS_Inr_iff)

text \<open>The ranges of a door request are the CHECK constraints of the table.\<close>

lemma DoorCreate_checks:
  assumes "DoorCreate_ok b"
  shows "1 \<le> dc_unlock_seconds b \<and> dc_unlock_seconds b \<le> 10 \<and> 1 \<le> dc_relay_channel b \<and> dc_relay_channel b \<le> 4"
  using assms by (simp add: DoorCreate_ok_def)

text \<open>Stripping is idempotent, so a model that strips keeps a value that was stripped.\<close>

lemma rstrip_last: "rstrip_by p xs \<noteq> [] \<Longrightarrow> \<not> p (last (rstrip_by p xs))"
  using hd_dropWhile [of p "rev xs"] by (simp only: rstrip_by_def last_rev rev_is_Nil_conv) blast

lemma rstrip_by_id: "xs = [] \<or> \<not> p (last xs) \<Longrightarrow> rstrip_by p xs = xs"
  by (cases xs rule: rev_cases) (auto simp: rstrip_by_def)

lemma rstrip_prefix: "\<exists>ys. xs = rstrip_by p xs @ ys"
  using takeWhile_dropWhile_id [of p "rev xs"] by (metis rev_append rev_rev_ident rstrip_by_def)

lemma py_strip_strip: "py_strip (py_strip s) = py_strip s"
proof -
  let ?t = "dropWhile py_isspace s"
  have "dropWhile py_isspace (rstrip_by py_isspace ?t) = rstrip_by py_isspace ?t"
  proof (cases "rstrip_by py_isspace ?t")
    case (Cons c cs)
    then obtain ys where "?t = c # ys" using rstrip_prefix [of ?t py_isspace] by auto
    then have "\<not> py_isspace c" using hd_dropWhile [of py_isspace s] by auto
    with Cons show ?thesis by simp
  qed simp
  moreover have "rstrip_by py_isspace (rstrip_by py_isspace ?t) = rstrip_by py_isspace ?t"
    by (rule rstrip_by_id) (use rstrip_last in blast)
  ultimately show ?thesis by (simp add: py_strip_def)
qed

end
