(* ===== verification/Ipaddr.thy ===== *)
theory Ipaddr
  imports Errors
begin

text \<open>
  What the sources use of Python's \<^verbatim>\<open>ipaddress\<close> (\<^verbatim>\<open>client_ip\<close> in \<^verbatim>\<open>backend/app/api/deps.py\<close> and
  \<^verbatim>\<open>restrict_source\<close> in \<^verbatim>\<open>backend/admin/main.py\<close>): reading an address, reading a network with
  \<^verbatim>\<open>strict=False\<close>, and membership. An address is a word of its width.
\<close>

unbundle bit_operations_syntax

section \<open>Addresses\<close>

datatype ip_addr = IPv4 "32 word" | IPv6 "128 word" "string option"

definition ascii_digit :: "char \<Rightarrow> bool" where
  "ascii_digit c \<longleftrightarrow> 48 \<le> (of_char c :: nat) \<and> (of_char c :: nat) \<le> 57"

definition int10 :: "string \<Rightarrow> nat" where
  "int10 s = foldl (\<lambda>n c. 10 * n + (of_char c - 48)) 0 s"

definition parse_octet :: "string \<Rightarrow> nat option" where
  "parse_octet s =
     (if s = [] \<or> \<not> list_all ascii_digit s \<or> 3 < length s \<or> (s \<noteq> ''0'' \<and> hd s = CHR ''0'') \<or> 255 < int10 s
      then None else Some (int10 s))"

definition ipv4_of_text :: "string \<Rightarrow> 32 word option" where
  "ipv4_of_text s =
     (case those (map parse_octet (py_split (CHR ''.'') s)) of
        Some [a, b, c, d] \<Rightarrow> Some (((of_nat a * 256 + of_nat b) * 256 + of_nat c) * 256 + of_nat d)
      | _ \<Rightarrow> None)"

definition hex_value :: "char \<Rightarrow> nat option" where
  "hex_value c = (let n = of_char c :: nat in
     if 48 \<le> n \<and> n \<le> 57 then Some (n - 48) else if 97 \<le> n \<and> n \<le> 102 then Some (n - 87)
     else if 65 \<le> n \<and> n \<le> 70 then Some (n - 55) else None)"

definition parse_hextet :: "string \<Rightarrow> nat option" where
  "parse_hextet s =
     (if s = [] \<or> 4 < length s then None
      else map_option (foldl (\<lambda>n d. 16 * n + d) 0) (those (map hex_value s)))"

text \<open>\<^verbatim>\<open>'%x' % n\<close>.\<close>

fun hex_text :: "nat \<Rightarrow> string" where
  "hex_text n =
     (let d = (\<lambda>k. if k < 10 then char_of (48 + k) else char_of (87 + k))
      in if n < 16 then [d n] else hex_text (n div 16) @ [d (n mod 16)])"

declare hex_text.simps [simp del]

text \<open>The groups between the colons, an IPv4 suffix written as two of them.\<close>

definition ipv6_parts :: "string \<Rightarrow> string list option" where
  "ipv6_parts s =
     (let parts = py_split (CHR '':'') s
      in if length parts < 3 then None
         else if CHR ''.'' \<in> set (last parts)
         then map_option (\<lambda>v. butlast parts @ [hex_text (unat (drop_bit 16 v)), hex_text (unat (v AND 0xFFFF))])
                (ipv4_of_text (last parts))
         else Some parts)"

definition hextets_value :: "nat list \<Rightarrow> 128 word" where
  "hextets_value hs = foldl (\<lambda>n h. n * 65536 + of_nat h) 0 hs"

definition ipv6_assemble :: "string list \<Rightarrow> 128 word option" where
  "ipv6_assemble parts =
     (if 9 < length parts then None
      else (case filter (\<lambda>i. parts ! i = []) [1..<length parts - 1] of
          [] \<Rightarrow>
            if length parts \<noteq> 8 then None else map_option hextets_value (those (map parse_hextet parts))
        | [k] \<Rightarrow>
            (let hi = (if hd parts = [] then k - 1 else k);
                 lo = (if last parts = [] then length parts - k - 2 else length parts - k - 1)
             in if (hd parts = [] \<and> 0 < hi) \<or> (last parts = [] \<and> 0 < lo) \<or> 8 < hi + lo + 1 then None
                else map_option (\<lambda>(a, b). hextets_value (a @ replicate (8 - (hi + lo)) 0 @ b))
                       (case (those (map parse_hextet (take hi parts)),
                              those (map parse_hextet (drop (length parts - lo) parts))) of
                          (Some a, Some b) \<Rightarrow> Some (a, b) | _ \<Rightarrow> None))
        | _ \<Rightarrow> None))"

definition split_scope_id :: "string \<Rightarrow> (string \<times> string option) option" where
  "split_scope_id s =
     (case dropWhile (\<lambda>c. c \<noteq> CHR ''%'') s of
        [] \<Rightarrow> Some (s, None)
      | _ # scope \<Rightarrow>
          if scope = [] \<or> CHR ''%'' \<in> set scope then None
          else Some (takeWhile (\<lambda>c. c \<noteq> CHR ''%'') s, Some scope))"

definition ipv6_of_text :: "string \<Rightarrow> (128 word \<times> string option) option" where
  "ipv6_of_text s =
     (if CHR ''/'' \<in> set s then None
      else (case split_scope_id s of
          None \<Rightarrow> None
        | Some (addr, scope) \<Rightarrow>
            map_option (\<lambda>v. (v, scope)) (Option.bind (ipv6_parts addr) ipv6_assemble)))"

definition ip_address :: "string \<Rightarrow> exn + ip_addr" where
  "ip_address s =
     (case ipv4_of_text s of
        Some v \<Rightarrow> Inr (IPv4 v)
      | None \<Rightarrow>
          (case ipv6_of_text s of
             Some (v, scope) \<Rightarrow> Inr (IPv6 v scope)
           | None \<Rightarrow> Inl (ValueError (s @ '' does not appear to be an IPv4 or IPv6 address''))))"

section \<open>Networks\<close>

datatype ip_net = Net4 "32 word" nat | Net6 "128 word" nat

definition netmask :: "nat \<Rightarrow> 'a::len word" where
  "netmask p = push_bit (LENGTH('a) - p) (mask p)"

definition prefix_from_prefix_string :: "nat \<Rightarrow> string \<Rightarrow> nat option" where
  "prefix_from_prefix_string bits s =
     (if s = [] \<or> \<not> list_all ascii_digit s \<or> bits < int10 s then None else Some (int10 s))"

definition prefix_from_ip_int :: "32 word \<Rightarrow> nat option" where
  "prefix_from_ip_int v =
     (let zeros = length (takeWhile (\<lambda>i. \<not> bit v i) [0..<32])
      in if drop_bit zeros v = mask (32 - zeros) then Some (32 - zeros) else None)"

text \<open>A netmask or a host mask in dotted form.\<close>

definition prefix_from_ip_string :: "string \<Rightarrow> nat option" where
  "prefix_from_ip_string s =
     (case ipv4_of_text s of
        None \<Rightarrow> None
      | Some v \<Rightarrow> (case prefix_from_ip_int v of Some p \<Rightarrow> Some p | None \<Rightarrow> prefix_from_ip_int (NOT v)))"

definition ipv4_network :: "string \<Rightarrow> ip_net option" where
  "ipv4_network s =
     (case py_split (CHR ''/'') s of
        [a] \<Rightarrow> map_option (\<lambda>v. Net4 v 32) (ipv4_of_text a)
      | [a, m] \<Rightarrow>
          (case (ipv4_of_text a,
                 case prefix_from_prefix_string 32 m of Some p \<Rightarrow> Some p | None \<Rightarrow> prefix_from_ip_string m) of
             (Some v, Some p) \<Rightarrow> Some (Net4 (v AND netmask p) p)
           | _ \<Rightarrow> None)
      | _ \<Rightarrow> None)"

definition ipv6_network :: "string \<Rightarrow> ip_net option" where
  "ipv6_network s =
     (case py_split (CHR ''/'') s of
        [a] \<Rightarrow> map_option (\<lambda>(v, scope). Net6 v 128) (ipv6_of_text a)
      | [a, m] \<Rightarrow>
          (case (ipv6_of_text a, prefix_from_prefix_string 128 m) of
             (Some (v, scope), Some p) \<Rightarrow> Some (Net6 (v AND netmask p) p)
           | _ \<Rightarrow> None)
      | _ \<Rightarrow> None)"

definition ip_network :: "string \<Rightarrow> exn + ip_net" where
  "ip_network s =
     (case ipv4_network s of
        Some n \<Rightarrow> Inr n
      | None \<Rightarrow>
          (case ipv6_network s of
             Some n \<Rightarrow> Inr n
           | None \<Rightarrow> Inl (ValueError (s @ '' does not appear to be an IPv4 or IPv6 network''))))"

text \<open>\<^verbatim>\<open>address in network\<close>: never across versions.\<close>

fun ip_in :: "ip_addr \<Rightarrow> ip_net \<Rightarrow> bool" where
  "ip_in (IPv4 a) (Net4 n p) = (a AND netmask p = n)"
| "ip_in (IPv6 a scope) (Net6 n p) = (a AND netmask p = n)"
| "ip_in _ _ = False"

section \<open>Reading back what was printed\<close>

definition ipv4_octets :: "32 word \<Rightarrow> nat list" where
  "ipv4_octets v = (let n = unat v in [n div 16777216, n div 65536 mod 256, n div 256 mod 256, n mod 256])"

definition ipv4_text :: "32 word \<Rightarrow> string" where
  "ipv4_text v = py_join ''.'' (map nat_digits (ipv4_octets v))"

lemma nat_digits_set: "set (nat_digits n) \<subseteq> {c. ascii_digit c}"
  by (induction n rule: nat_digits.induct) (subst nat_digits.simps, auto simp: ascii_digit_def)

lemma int10_digits: "int10 (nat_digits n) = n"
proof (induction n rule: nat_digits.induct)
  case (1 n)
  then show ?case
    by (cases "n < 10") (simp_all add: nat_digits.simps [of n] int10_def)
qed

lemma digits_nonempty: "nat_digits n \<noteq> []"
  by (simp add: nat_digits.simps [of n])

lemma nat_digits_head: "0 < n \<Longrightarrow> hd (nat_digits n) \<noteq> CHR ''0''"
proof (induction n rule: nat_digits.induct)
  case (1 n)
  show ?case
  proof (cases "n < 10")
    case True
    then have "(of_char (char_of (48 + n) :: char) :: nat) = 48 + n" by simp
    with True 1 show ?thesis by (auto simp: nat_digits.simps [of n] dest: arg_cong [where f = "of_char :: char \<Rightarrow> nat"])
  next
    case False
    with 1 show ?thesis by (simp add: nat_digits.simps [of n] digits_nonempty)
  qed
qed

lemma nat_digits_short: "n < 1000 \<Longrightarrow> length (nat_digits n) \<le> 3"
  by (simp add: nat_digits.simps [of n] nat_digits.simps [of "n div 10"] nat_digits.simps [of "n div 10 div 10"])

lemma parse_octet_digits: "n < 256 \<Longrightarrow> parse_octet (nat_digits n) = Some n"
  using nat_digits_set [of n] nat_digits_head [of n] nat_digits_short [of n]
  by (cases "n = 0") (auto simp: parse_octet_def digits_nonempty int10_digits list_all_iff nat_digits.simps [of 0] int10_def
      int10_digits [unfolded int10_def])

lemma digits_free: "\<not> ascii_digit d \<Longrightarrow> d \<notin> set (nat_digits n)"
  using nat_digits_set by auto

lemma punct_not_digit [simp]: "\<not> ascii_digit (CHR ''.'')" "\<not> ascii_digit (CHR ''/'')"
  by (simp_all add: ascii_digit_def)

lemma ipv4_text_split: "py_split (CHR ''.'') (ipv4_text v) = map nat_digits (ipv4_octets v)"
  by (simp add: ipv4_text_def ipv4_octets_def Let_def py_split_append py_split_none digits_free)

lemma octets_value:
  fixes n :: nat
  shows "((n div 16777216 * 256 + n div 65536 mod 256) * 256 + n div 256 mod 256) * 256 + n mod 256 = n"
proof -
  have "n div 16777216 = n div 65536 div 256" "n div 65536 = n div 256 div 256" by (simp_all flip: div_mult2_eq)
  then show ?thesis by (metis div_mult_mod_eq)
qed

lemma octets_word:
  "((of_nat (n div 16777216) * 256 + of_nat (n div 65536 mod 256)) * 256 + of_nat (n div 256 mod 256)) * 256 + of_nat (n mod 256)
     = (of_nat n :: 32 word)"
  using arg_cong [OF octets_value [of n], of "of_nat :: nat \<Rightarrow> 32 word"] by (simp only: of_nat_add of_nat_mult of_nat_numeral)

lemma ipv4_of_text_text: "ipv4_of_text (ipv4_text v) = Some v"
proof -
  have lt: "unat v div 16777216 < 256" using unsigned_less [of v] by (simp add: div_less_iff_less_mult)
  have "those (map parse_octet (map nat_digits (ipv4_octets v))) = Some (ipv4_octets v)"
    by (simp add: ipv4_octets_def Let_def parse_octet_digits lt)
  then show ?thesis
    unfolding ipv4_of_text_def ipv4_text_split
    by (simp only: ipv4_octets_def Let_def option.case list.case octets_word) simp
qed

lemma ip_address_ipv4: "ip_address (ipv4_text v) = Inr (IPv4 v)"
  by (simp add: ip_address_def ipv4_of_text_text)

lemma ipv4_text_no_slash: "CHR ''/'' \<notin> set (ipv4_text v)"
  by (simp add: ipv4_text_def ipv4_octets_def Let_def digits_free)

lemma ip_network_ipv4:
  assumes "p \<le> 32"
  shows "ip_network (ipv4_text v @ ''/'' @ nat_digits p) = Inr (Net4 (v AND netmask p) p)"
proof -
  have "py_split (CHR ''/'') (ipv4_text v @ CHR ''/'' # nat_digits p) = [ipv4_text v, nat_digits p]"
    by (simp add: py_split_append ipv4_text_no_slash py_split_none digits_free)
  moreover have "prefix_from_prefix_string 32 (nat_digits p) = Some p"
    using nat_digits_set [of p] assms
    by (auto simp: prefix_from_prefix_string_def digits_nonempty int10_digits list_all_iff)
  ultimately show ?thesis by (simp add: ip_network_def ipv4_network_def ipv4_of_text_text)
qed

section \<open>Membership is agreement on the prefix\<close>

lemma bit_netmask: "p \<le> LENGTH('a) \<Longrightarrow> bit (netmask p :: 'a::len word) i \<longleftrightarrow> LENGTH('a) - p \<le> i \<and> i < LENGTH('a)"
  by (auto simp: netmask_def bit_push_bit_iff bit_mask_iff)

lemma netmask_agree:
  fixes a b :: "'a::len word"
  assumes "p \<le> LENGTH('a)"
  shows "a AND netmask p = b AND netmask p \<longleftrightarrow> drop_bit (LENGTH('a) - p) a = drop_bit (LENGTH('a) - p) b"
proof
  let ?k = "LENGTH('a) - p"
  assume eq: "a AND netmask p = b AND netmask p"
  show "drop_bit ?k a = drop_bit ?k b"
  proof (rule bit_word_eqI)
    fix n assume "n < LENGTH('a)"
    have "bit (a AND netmask p) (?k + n) = bit (b AND netmask p) (?k + n)" by (simp add: eq)
    then show "bit (drop_bit ?k a) n = bit (drop_bit ?k b) n"
      using assms bit_imp_le_length [of a "?k + n"] bit_imp_le_length [of b "?k + n"]
      by (auto simp: bit_drop_bit_eq bit_and_iff bit_netmask)
  qed
next
  let ?k = "LENGTH('a) - p"
  assume eq: "drop_bit ?k a = drop_bit ?k b"
  have "bit a (?k + n) = bit b (?k + n)" for n
    using arg_cong [OF eq, of "\<lambda>v. bit v n"] by (simp add: bit_drop_bit_eq)
  then show "a AND netmask p = b AND netmask p"
    by (intro bit_word_eqI) (auto simp: bit_and_iff bit_netmask [OF assms] dest: le_Suc_ex)
qed

lemma drop_bit_agree:
  fixes a b :: "'a::len word"
  shows "drop_bit k a = drop_bit k b \<longleftrightarrow> unat a div 2 ^ k = unat b div 2 ^ k"
  by (simp only: word_unat_eq_iff unat_drop_bit_eq) (simp only: drop_bit_eq_div)

text \<open>
  Reading a dotted address and a network in prefix notation and asking for membership is
  comparing the leading bits: the address belongs to the network exactly when both have the same
  quotient by the size of the host part. Host bits set in the configured network do not matter.
\<close>

theorem network_membership:
  assumes "p \<le> 32"
  shows "\<exists>addr net. ip_address (ipv4_text a) = Inr addr \<and> ip_network (ipv4_text b @ ''/'' @ nat_digits p) = Inr net \<and>
    (ip_in addr net \<longleftrightarrow> unat a div 2 ^ (32 - p) = unat b div 2 ^ (32 - p))"
  unfolding ip_network_ipv4 [OF assms] ip_address_ipv4
  using netmask_agree [of p a b] assms by (simp add: drop_bit_agree)

theorem network_membership_witness:
  "\<exists>addr net. ip_address (ipv4_text 167772161) = Inr addr \<and> ip_network (ipv4_text 167772160 @ ''/'' @ nat_digits 8) = Inr net \<and>
    (ip_in addr net \<longleftrightarrow> unat (167772161 :: 32 word) div 2 ^ (32 - 8) = unat (167772160 :: 32 word) div 2 ^ (32 - 8))"
  by (rule network_membership) simp

end
