(* ===== verification/Api.thy ===== *)
theory Api
  imports Controller_Ws Unlock_Correct Schemas Ipaddr
begin

text \<open>
  \<^verbatim>\<open>backend/app/api/\<close> and the error handling of \<^verbatim>\<open>backend/app/main.py\<close>: the address a request is counted
  under, the session it carries, and every endpoint. An endpoint returns its response model or the
  HTTP exception it raises; any other exception stays an exception of the computation and becomes
  a response in \<open>respond\<close>.
\<close>

datatype 'a reply = Ok 'a | Raised http_exception

section \<open>deps.py\<close>

record request =
  rq_peer :: "string option"
  rq_forwarded :: "string option"
  rq_authorization :: "string option"

text \<open>\<^verbatim>\<open>any(addr in ip_network(net) for net in trusted)\<close>: networks are read one by one until one matches.\<close>

fun in_any :: "ip_addr \<Rightarrow> string list \<Rightarrow> exn + bool" where
  "in_any a [] = Inr False"
| "in_any a (net # nets) = bindS (ip_network net) (\<lambda>n. if ip_in a n then Inr True else in_any a nets)"

definition client_ip :: "settings \<Rightarrow> request \<Rightarrow> exn + string option" where
  "client_ip st rq =
     (case (rq_peer rq, rq_forwarded rq) of
        (Some peer, Some forwarded) \<Rightarrow>
          if forwarded = [] \<or> peer = [] then Inr (Some peer)
          else (case ip_address peer of
              Inl _ \<Rightarrow> Inr (Some peer)
            | Inr addr \<Rightarrow>
                bindS (in_any addr (trusted_proxy_list st)) (\<lambda>trusted.
                  if \<not> trusted then Inr (Some peer)
                  else (let candidate = py_strip (hd (py_split (CHR '','') forwarded))
                        in case ip_address candidate of Inl _ \<Rightarrow> Inr (Some peer) | Inr _ \<Rightarrow> Inr (Some candidate))))
      | (peer, _) \<Rightarrow> Inr peer)"

text \<open>\<^verbatim>\<open>try: ... except C as exc: raise http_error(exc)\<close>, for a class \<open>C\<close> of API errors.\<close>

definition http_catch :: "(api_error \<Rightarrow> bool) \<Rightarrow> ('s, exn, 'a) comp \<Rightarrow> ('s, exn, 'a reply) comp" where
  "http_catch caught m =
     catchE (bindE m (\<lambda>v. ret (Ok v)))
       (\<lambda>e. case e of ApiError a \<Rightarrow> if caught a then ret (Raised (http_error a)) else throw e | _ \<Rightarrow> throw e)"

fun is_authentication :: "api_error \<Rightarrow> bool" where
  "is_authentication (AuthenticationError _) = True"
| "is_authentication _ = False"

definition bindR :: "('s, 'e, 'a reply) comp \<Rightarrow> ('a \<Rightarrow> ('s, 'e, 'b reply) comp) \<Rightarrow> ('s, 'e, 'b reply) comp" where
  "bindR m f = bindE m (\<lambda>r. case r of Raised h \<Rightarrow> ret (Raised h) | Ok v \<Rightarrow> f v)"

definition bearer_token :: "string option \<Rightarrow> string option" where
  "bearer_token authorization =
     (case authorization of
        None \<Rightarrow> None
      | Some s \<Rightarrow>
          if prefix ''bearer '' (py_lower s) then Some (py_strip (tl (dropWhile (\<lambda>c. c \<noteq> CHR '' '') s))) else None)"

definition current_session :: "ext \<Rightarrow> settings \<Rightarrow> request \<Rightarrow> session reply io" where
  "current_session x st rq =
     (case bearer_token (rq_authorization rq) of
        None \<Rightarrow> ret (Raised (http_error (AuthenticationError ''missing_bearer'')))
      | Some token \<Rightarrow> http_catch is_authentication (resolve_access_token x st token))"

definition admin_session :: "ext \<Rightarrow> settings \<Rightarrow> request \<Rightarrow> session reply io" where
  "admin_session x st rq =
     bindR (current_session x st rq) (\<lambda>ss.
       if \<not> ss_is_admin ss then ret (Raised (http_error (AuthenticationError ''not_admin''))) else ret (Ok ss))"

section \<open>auth.py\<close>

definition enroll_challenge_endpoint :: "ext \<Rightarrow> EnrollChallengeRequest \<Rightarrow> EnrollChallengeResponse reply io" where
  "enroll_challenge_endpoint x body =
     bindE (issue_challenge x (ecr_enrollment_code body)) (\<lambda>(challenge, ttl).
       ret (Ok \<lparr>ecs_challenge = challenge, ecs_expires_in = ttl\<rparr>))"

definition enroll_endpoint :: "ext \<Rightarrow> settings \<Rightarrow> request \<Rightarrow> EnrollRequest \<Rightarrow> EnrollResponse reply io" where
  "enroll_endpoint x st rq body =
     bindE (liftE (client_ip st rq)) (\<lambda>ip.
     bindR (fixed_duration (auth_fixed_response_ms st)
              (http_catch (\<lambda>_. True)
                 (enroll x st (er_enrollment_code body) (er_label body) (er_device_public_key body)
                    (er_attestation_chain body) (er_play_integrity_token body) (er_challenge body)
                    (er_app_version body) ip))) (\<lambda>(device_id, status_text, pair).
       ret (Ok \<lparr>es_device_id = device_id, es_attestation_status = status_text,
                es_access_token = it_access_token pair, es_refresh_token = it_refresh_token pair,
                es_expires_in = it_expires_in pair\<rparr>)))"

definition token_pair :: "issued_tokens \<Rightarrow> TokenPair" where
  "token_pair p = \<lparr>tp_access_token = it_access_token p, tp_refresh_token = it_refresh_token p,
     tp_token_type = ''Bearer'', tp_expires_in = it_expires_in p\<rparr>"

text \<open>The body of the \<^verbatim>\<open>async with\<close>: the login, and what follows a refused one.\<close>

definition login_attempt :: "ext \<Rightarrow> settings \<Rightarrow> string option \<Rightarrow> rate_decision \<Rightarrow> LoginRequest \<Rightarrow> issued_tokens reply io" where
  "login_attempt x st ip decision body =
     catchE (bindE (login x st (lr_username body) (lr_password body) (lr_device_id body) ip) (\<lambda>p. ret (Ok p)))
       (\<lambda>e. case e of
          ApiError (AuthenticationError why) \<Rightarrow>
            bindE (record_login_failure x st (lr_username body) ip ''auth.login'') (\<lambda>_.
            bindE (audit_failure x AUTH_LOGIN_FAILED ((entry ''anonymous'')\<lparr>en_device_id := Some (lr_device_id body),
                     en_client_ip := ip,
                     en_detail := [(''reason'', JStr why), (''username'', JStr (lr_username body))]\<rparr>)) (\<lambda>_.
            bindE (apply_delay decision) (\<lambda>_.
              ret (Raised (http_error (AuthenticationError why))))))
        | _ \<Rightarrow> throw e)"

definition login_endpoint :: "ext \<Rightarrow> settings \<Rightarrow> request \<Rightarrow> LoginRequest \<Rightarrow> TokenPair reply io" where
  "login_endpoint x st rq body =
     bindE (liftE (client_ip st rq)) (\<lambda>ip.
     bindE (check_login st (lr_username body) ip) (\<lambda>decision.
       if \<not> rd_allowed decision then
         bindE (audit_denied x RATE_LIMIT_TRIPPED ((entry ''anonymous'')\<lparr>en_client_ip := ip,
                  en_detail := [(''scope'', JStr ''login''), (''subject_type'', JStr (rd_subject_type decision)),
                    (''failures'', JInt (rd_failures decision))]\<rparr>)) (\<lambda>_.
           ret (Raised (http_error (RateLimited (rd_retry_after_seconds decision)))))
       else
         bindR (fixed_duration (auth_fixed_response_ms st) (login_attempt x st ip decision body)) (\<lambda>pair.
           ret (Ok (token_pair pair)))))"

definition refresh_endpoint :: "ext \<Rightarrow> settings \<Rightarrow> request \<Rightarrow> RefreshRequest \<Rightarrow> TokenPair reply io" where
  "refresh_endpoint x st rq body =
     bindE (liftE (client_ip st rq)) (\<lambda>ip.
     bindR (fixed_duration (auth_fixed_response_ms st)
              (http_catch is_authentication (refresh x st (rr_refresh_token body) ip))) (\<lambda>pair.
       ret (Ok (token_pair pair))))"

text \<open>Answers 204; the refresh token of the body is not read.\<close>

definition logout_endpoint :: "ext \<Rightarrow> settings \<Rightarrow> request \<Rightarrow> LogoutRequest \<Rightarrow> unit reply io" where
  "logout_endpoint x st rq body =
     bindR (current_session x st rq) (\<lambda>ss.
     bindE (liftE (client_ip st rq)) (\<lambda>ip.
     bindE (logout x ss (or_all_devices body) ip) (\<lambda>_. ret (Ok ()))))"

section \<open>doors.py\<close>

definition door_summary :: "permission_row \<times> door_row \<times> bool \<Rightarrow> DoorSummary" where
  "door_summary r =
     (case r of (p, d, online) \<Rightarrow>
        \<lparr>ds_id = dr_id d, ds_code = dr_code d, ds_name = dr_name d, ds_location = dr_location d,
         ds_unlock_seconds = dr_unlock_seconds d, ds_controller_online = online,
         ds_window_start = p_start_time p, ds_window_end = p_end_time p, ds_weekday_mask = p_weekday_mask p,
         ds_time_zone = p_time_zone p\<rparr>)"

definition list_doors :: "ext \<Rightarrow> settings \<Rightarrow> request \<Rightarrow> DoorListResponse reply io" where
  "list_doors x st rq =
     bindR (current_session x st rq) (\<lambda>ss.
     bindE (gets (\<lambda>w. doors_list_for_user w (ss_user_id ss))) (\<lambda>rows.
     bindE current_time (\<lambda>now.
       ret (Ok \<lparr>dl_doors = map door_summary rows, dl_server_time = now\<rparr>))))"

definition unlock_endpoint :: "ext \<Rightarrow> settings \<Rightarrow> request \<Rightarrow> uuid \<Rightarrow> UnlockRequest \<Rightarrow> UnlockResponse reply io" where
  "unlock_endpoint x st rq door_id body =
     bindR (current_session x st rq) (\<lambda>ss.
     bindR (http_catch (\<lambda>_. True)
              (bindE (liftE (client_ip st rq)) (\<lambda>ip.
                 unlock x st (ss_user_id ss) (ss_device_id ss) door_id (ur_proximity_beacon_id body) ip))) (\<lambda>outcome.
       ret (Ok \<lparr>us_result = ''opened'', us_door_id = door_id, us_command_id = uo_command_id outcome,
                us_opened_for_ms = uo_opened_for_ms outcome,
                us_proximity_age_seconds = uo_proximity_age_seconds outcome\<rparr>)))"

definition access_record :: "audit_row \<Rightarrow> AccessRecord" where
  "access_record r = \<lparr>ac_seq = a_seq r, ac_occurred_at = a_occurred_at r, ac_event_type = a_event_type r,
     ac_outcome = a_outcome r, ac_door_id = a_door_id r, ac_detail = a_detail r\<rparr>"

text \<open>\<^verbatim>\<open>LIMIT\<close> of a negative number is an error of the statement.\<close>

definition check_limit :: "int \<Rightarrow> ('s, exn, unit) comp" where
  "check_limit n = guardE (n < 0) (throw (DatabaseError ''limit''))"

definition access_history :: "ext \<Rightarrow> settings \<Rightarrow> request \<Rightarrow> int \<Rightarrow> AccessRecord list reply io" where
  "access_history x st rq limit =
     bindR (current_session x st rq) (\<lambda>ss.
     bindE (check_limit (min limit 200)) (\<lambda>_.
     bindE (gets (\<lambda>w. audit_for_user w (ss_user_id ss) (min limit 200))) (\<lambda>rows.
       ret (Ok (map access_record rows)))))"

section \<open>health.py\<close>

definition VERSION :: string where
  "VERSION = ''1.0.0''"

text \<open>\<open>up\<close> says whether the database answers.\<close>

definition ready :: "ext \<Rightarrow> bool \<Rightarrow> HealthResponse reply io" where
  "ready x up =
     bindE (catchE (bindE (liftE (client_public_key (signer_io x))) (\<lambda>_. ret True))
              (\<lambda>e. case e of SignerUnavailable _ \<Rightarrow> ret False | SignerRefused _ \<Rightarrow> ret False | _ \<Rightarrow> throw e)) (\<lambda>signer_ok.
     bindE (if up then bindE (audit_chain_status x 0) (\<lambda>cs. ret (Some (chain_ok cs))) else ret None) (\<lambda>chain.
     bindE (gets (\<lambda>w. online_count (w_hub w))) (\<lambda>online.
       ret (Ok \<lparr>he_health = (if up \<and> signer_ok \<and> chain \<noteq> Some False then ''ok'' else ''degraded''),
                he_version = VERSION, he_database = up, he_signer = signer_ok,
                he_controllers_online = online, he_audit_chain_ok = chain\<rparr>))))"

section \<open>main.py\<close>

datatype 'a body = Value 'a | Detail string | Error string | Server_error

record 'a response =
  rs_status :: int
  rs_body :: "'a body"
  rs_headers :: "(string \<times> string) list"

definition api_error_response :: "api_error \<Rightarrow> 'a response" where
  "api_error_response e = \<lparr>rs_status = status_code e, rs_body = Error (error_code e),
     rs_headers = (case e of RateLimited n \<Rightarrow> [(''Retry-After'', py_str_int n)] | _ \<Rightarrow> [])\<rparr>"

definition SECURITY_HEADERS :: "(string \<times> string) list" where
  "SECURITY_HEADERS = [(''X-Content-Type-Options'', ''nosniff''), (''X-Frame-Options'', ''DENY''),
     (''Referrer-Policy'', ''no-referrer''), (''Content-Security-Policy'', ''default-src '' @ [CHR 0x27] @ ''none'' @ [CHR 0x27]),
     (''Cache-Control'', ''no-store''), (''Strict-Transport-Security'', ''max-age=63072000; includeSubDomains'')]"

definition security_headers :: "'a response \<Rightarrow> 'a response" where
  "security_headers r = r\<lparr>rs_headers := foldl (\<lambda>hs (k, v). dict_set hs k v) (rs_headers r) SECURITY_HEADERS\<rparr>"

text \<open>
  What the client sees. An \<open>ApiError\<close> no endpoint caught goes to the handler of \<^verbatim>\<open>create_app\<close>; any other
  exception passes the middleware and becomes the server's plain 500.
\<close>

definition respond :: "int \<Rightarrow> exn + 'a reply \<Rightarrow> 'a response" where
  "respond ok_status res =
     (case res of
        Inr (Ok v) \<Rightarrow> security_headers \<lparr>rs_status = ok_status, rs_body = Value v, rs_headers = []\<rparr>
      | Inr (Raised h) \<Rightarrow> security_headers \<lparr>rs_status = he_status h, rs_body = Detail (he_error h), rs_headers = he_headers h\<rparr>
      | Inl (ApiError e) \<Rightarrow> security_headers (api_error_response e)
      | Inl _ \<Rightarrow> \<lparr>rs_status = 500, rs_body = Server_error, rs_headers = []\<rparr>)"

end
