(* ===== verification/Api_Correct.thy ===== *)
theory Api_Correct
  imports Api
begin

text \<open>
  What the endpoints guarantee: every one of them keeps the invariant of the state, the address a
  request is counted under cannot be chosen by the client, guessing a password is bounded, refused
  logins look alike and take the same time, and a protected endpoint needs a live token.
\<close>

section \<open>Frames\<close>

context frame_rel
begin

lemma ev_exn [frame_intros]:
  "(\<And>a. evolves R (f a)) \<Longrightarrow> evolves R g \<Longrightarrow> evolves R (case e of ApiError a \<Rightarrow> f a | _ \<Rightarrow> g)"
  by (simp split: exn.split)

lemma ev_api_error [frame_intros]:
  "(\<And>r. evolves R (f r)) \<Longrightarrow> evolves R g \<Longrightarrow> evolves R (case a of AuthenticationError r \<Rightarrow> f r | _ \<Rightarrow> g)"
  by (simp split: api_error.split)

lemma ev_reply [frame_intros]:
  "(\<And>h. evolves R (f h)) \<Longrightarrow> (\<And>v. evolves R (g v)) \<Longrightarrow> evolves R (case r of Raised h \<Rightarrow> f h | Ok v \<Rightarrow> g v)"
  by (simp split: reply.split)

lemma ev_bindR [frame_intros]: "evolves R m \<Longrightarrow> (\<And>v. evolves R (f v)) \<Longrightarrow> evolves R (bindR m f)"
  unfolding bindR_def by (intro ev_bindE ev_reply ev_ret)

lemma ev_http_catch [frame_intros]: "evolves R m \<Longrightarrow> evolves R (http_catch c m)"
  unfolding http_catch_def by (intro ev_catchE ev_bindE ev_exn ev_if ev_ret ev_throw)

lemma ev_check_limit [frame_intros]: "evolves R (check_limit n)"
  unfolding check_limit_def by (intro ev_guardE ev_throw)

lemma ev_signer_down [frame_intros]:
  "evolves R (case e of SignerUnavailable _ \<Rightarrow> ret False | SignerRefused _ \<Rightarrow> ret False | _ \<Rightarrow> throw e)"
  by (simp add: ev_ret ev_throw split: exn.split)

end

lemma safe_current_session [frame_intros]: "evolves (safe x) (current_session x' st rq)"
  unfolding current_session_def by (intro frame_intros)

lemma safe_admin_session [frame_intros]: "evolves (safe x) (admin_session x' st rq)"
  unfolding admin_session_def by (intro frame_intros)

lemma safe_login_attempt [frame_intros]: "evolves (safe x) (login_attempt x st ip d b)"
  unfolding login_attempt_def by (intro frame_intros)

lemma safe_auth_endpoints [frame_intros]:
  "evolves (safe x) (enroll_challenge_endpoint x ecb)" "evolves (safe x) (enroll_endpoint x st rq eb)"
  "evolves (safe x) (login_endpoint x st rq lb)" "evolves (safe x) (refresh_endpoint x st rq rb)"
  "evolves (safe x) (logout_endpoint x st rq ob)"
  unfolding enroll_challenge_endpoint_def enroll_endpoint_def login_endpoint_def refresh_endpoint_def logout_endpoint_def
  by (intro frame_intros)+

lemma safe_door_endpoints [frame_intros]:
  "evolves (safe x) (list_doors x st rq)" "evolves (safe x) (unlock_endpoint x st rq door ub)"
  "evolves (safe x) (access_history x st rq n)" "evolves (safe x) (ready x up)"
  unfolding list_doors_def unlock_endpoint_def access_history_def ready_def audit_chain_status_def by (intro frame_intros)+

section \<open>The address of a request\<close>

lemma in_any_True:
  "in_any a nets = Inr True \<Longrightarrow> \<exists>net n. net \<in> set nets \<and> ip_network net = Inr n \<and> ip_in a n"
  by (induction nets) (auto simp: bindS_Inr_iff split: if_splits)

text \<open>
  Claim C30. The address a request is counted under is the peer's own, unless the peer lies in a
  configured proxy network; then it is the first entry of the forwarding header, and only when that
  entry is an address. With no proxies configured the header is never read.
\<close>

theorem client_ip_trust:
  assumes "client_ip st rq = Inr ip"
  shows "ip = rq_peer rq \<or>
    (\<exists>peer addr net n forwarded. rq_peer rq = Some peer \<and> ip_address peer = Inr addr \<and>
       net \<in> set (trusted_proxy_list st) \<and> ip_network net = Inr n \<and> ip_in addr n \<and>
       rq_forwarded rq = Some forwarded \<and> ip = Some (py_strip (hd (py_split (CHR '','') forwarded))) \<and>
       (\<exists>a. ip_address (the ip) = Inr a))"
  using assms
  by (auto simp: client_ip_def bindS_Inr_iff Let_def split: option.splits sum.splits if_splits dest!: in_any_True)

theorem client_ip_trust_witness:
  "client_ip sample_settings \<lparr>rq_peer = Some (ipv4_text 7), rq_forwarded = Some ''1.2.3.4'', rq_authorization = None\<rparr> = Inr (Some (ipv4_text 7))
   \<and> Some (ipv4_text 7) = rq_peer \<lparr>rq_peer = Some (ipv4_text 7), rq_forwarded = Some ''1.2.3.4'', rq_authorization = None\<rparr>"
proof -
  let ?rq = "\<lparr>rq_peer = Some (ipv4_text 7), rq_forwarded = Some ''1.2.3.4'', rq_authorization = None\<rparr>"
  have none: "trusted_proxy_list sample_settings = []"
    by (simp add: trusted_proxy_list_def comma_list_def sample_settings_def default_settings_def py_strip_def rstrip_by_def)
  then have run: "client_ip sample_settings ?rq = Inr (Some (ipv4_text 7))"
    by (simp add: client_ip_def ip_address_ipv4)
  with client_ip_trust [OF run] none show ?thesis by auto
qed

section \<open>Sessions\<close>

lemma bindR_Ok: "bindR m f w = (Inr (Ok v), w') \<longleftrightarrow> (\<exists>u w1. m w = (Inr (Ok u), w1) \<and> f u w1 = (Inr (Ok v), w'))"
  by (auto simp: bindR_def bindE_apply ret_apply split: prod.splits sum.splits reply.splits)

lemma http_catch_Ok: "http_catch c m w = (Inr (Ok v), w') \<longleftrightarrow> m w = (Inr v, w')"
  by (auto simp: http_catch_def catchE_apply bindE_apply ret_apply throw_apply
      split: prod.splits sum.splits exn.splits if_splits)

text \<open>What a session stands for: a stored access token that is live now.\<close>

definition live_session :: "ext \<Rightarrow> settings \<Rightarrow> world \<Rightarrow> session \<Rightarrow> bool" where
  "live_session x st w ss \<longleftrightarrow> (\<exists>t u d. t \<in> set (w_tokens w) \<and> t_kind t = ''access'' \<and> t_id t = ss_token_id ss \<and>
     t_revoked_at t = None \<and> w_now w < t_expires_at t \<and>
     u \<in> set (w_users w) \<and> u_id u = t_user_id t \<and> u_is_active u \<and> ss_user_id ss = u_id u \<and> ss_is_admin ss = u_is_admin u \<and>
     d \<in> set (w_devices w) \<and> d_id d = t_device_id t \<and> \<not> d_is_blocked d \<and> ss_device_id ss = d_id d \<and>
     (attestation_mode st = Strict \<longrightarrow> d_attestation_status d = ''verified''))"

lemma tokens_lookup_Some:
  assumes "tokens_lookup w h kind = Some r"
  shows "tv_row r \<in> set (w_tokens w)" "t_kind (tv_row r) = kind"
    "\<exists>u \<in> set (w_users w). u_id u = t_user_id (tv_row r) \<and> tv_user_active r = u_is_active u \<and> tv_user_is_admin r = u_is_admin u"
    "\<exists>d \<in> set (w_devices w). d_id d = t_device_id (tv_row r) \<and> tv_device_blocked r = d_is_blocked d \<and>
       tv_attestation_status r = d_attestation_status d"
  using assms
  by (auto simp: tokens_lookup_def users_by_id_def devices_by_id_def split: option.splits prod.splits dest!: find_SomeD)

lemma resolve_live:
  assumes "resolve_access_token x st token w = (Inr ss, w')"
  shows "w' = w \<and> live_session x st w ss"
proof -
  from assms obtain h r where r: "tokens_lookup w h ''access'' = Some r" and live: "tokens_is_live r (w_now w)"
    and att: "attestation_mode st = Strict \<longrightarrow> tv_attestation_status r = ''verified''" and w: "w' = w"
    and ss: "ss_user_id ss = t_user_id (tv_row r)" "ss_device_id ss = t_device_id (tv_row r)"
      "ss_is_admin ss = tv_user_is_admin r" "ss_token_id ss = t_id (tv_row r)"
    by (auto simp: resolve_access_token_def bindE_Inr_iff liftE_apply gets_apply current_time_def guard_auth_Inr ret_apply
        auth_error_run split: option.splits)
  note row = tokens_lookup_Some [OF r]
  obtain u where u: "u \<in> set (w_users w)" "u_id u = t_user_id (tv_row r)" "tv_user_active r = u_is_active u"
    "tv_user_is_admin r = u_is_admin u" using row(3) by blast
  obtain d where d: "d \<in> set (w_devices w)" "d_id d = t_device_id (tv_row r)" "tv_device_blocked r = d_is_blocked d"
    "tv_attestation_status r = d_attestation_status d" using row(4) by blast
  have "live_session x st w ss"
    unfolding live_session_def using row(1,2) u d live att ss
    by (intro exI [of _ "tv_row r"] exI [of _ u] exI [of _ d]) (simp add: tokens_is_live_def)
  with w show ?thesis by simp
qed

lemma current_session_live:
  assumes "current_session x st rq w = (Inr (Ok ss), w')"
  shows "w' = w \<and> live_session x st w ss"
  using assms by (auto simp: current_session_def ret_apply http_catch_Ok split: option.splits dest!: resolve_live)

lemma admin_session_live:
  assumes "admin_session x st rq w = (Inr (Ok ss), w')"
  shows "w' = w" "live_session x st w ss" "ss_is_admin ss"
  using assms current_session_live [of x st rq w ss w']
  by (auto simp: admin_session_def bindR_Ok ret_apply split: if_splits dest: current_session_live)

lemma unlock_grant:
  assumes "db_inv x w" and "unlock x st u d did pr ip w = (Inr res, w')"
  shows "grant_open x w u did" "1000 \<le> uo_opened_for_ms res" "uo_opened_for_ms res \<le> 10000"
proof -
  from assms(2) obtain door c where "doors_by_id w did = Some (door, Some c)" "grant_open x w u did"
    "uo_opened_for_ms res = dr_unlock_seconds door * 1000"
    by (rule unlock_Inr) simp
  then show "grant_open x w u did" "1000 \<le> uo_opened_for_ms res" "uo_opened_for_ms res \<le> 10000"
    using doors_by_id_Some(3) [OF assms(1)] by (auto simp: door_checks_def)
qed



definition bearer_world :: world where
  "bearer_world = sample_world\<lparr>w_tokens := [sample_token\<lparr>t_kind := ''access''\<rparr>]\<rparr>"

definition bearer_request :: request where
  "bearer_request = \<lparr>rq_peer = None, rq_forwarded = None, rq_authorization = Some ''Bearer tok''\<rparr>"

definition caller_session :: session where
  "caller_session = \<lparr>ss_user_id = ''u1'', ss_device_id = ''d1'', ss_username = ''ann'', ss_display_name = ''Ann'',
     ss_is_admin = False, ss_token_id = ''t1'', ss_family_id = ''f1''\<rparr>"

lemma bearer_world_inv: "db_inv sample_ext bearer_world"
  using sample_world_inv
  by (simp add: db_inv_defs bearer_world_def sample_token_def length_sample_hash) (simp add: sample_world_def sample_rows)

lemma bearer_tok: "bearer_token (Some ''Bearer tok'') = Some ''tok''"
  by code_simp

lemma bearer_session: "current_session sample_ext sample_settings bearer_request bearer_world = (Inr (Ok caller_session), bearer_world)"
proof -
  have "tokens_lookup bearer_world (t_token_hash sample_token) ''access'' = Some \<lparr>tv_row = sample_token\<lparr>t_kind := ''access''\<rparr>,
      tv_user_active = True, tv_user_is_admin = False, tv_display_name = ''Ann'', tv_username = ''ann'',
      tv_device_blocked = False, tv_attestation_status = ''verified''\<rparr>"
    by (simp add: tokens_lookup_def bearer_world_def sample_token_def users_by_id_def devices_by_id_def sample_world_def sample_rows)
  then show ?thesis
    by (simp add: current_session_def bearer_request_def bearer_tok http_catch_def resolve_access_token_def comp_simps
        token_world_hash tokens_is_live_def current_time_def sample_token_def caller_session_def)
      (simp add: bearer_world_def sample_world_def)
qed

lemma bearer_unlock:
  "\<exists>a w'. unlock sample_ext sample_settings ''u1'' ''d1'' ''o1'' sample_presented None bearer_world =
     (Inr \<lparr>uo_command_id = ''id-0'', uo_opened_for_ms = 3000, uo_proximity_age_seconds = a\<rparr>, w')"
proof -
  obtain a where near: "verify_proximity (sha256 sample_ext) (c_beacon_key sample_controller) sample_presented
     (beacon_rotation_seconds sample_settings) (proximity_max_age_seconds sample_settings) (w_now bearer_world) = Inr (True, Some a)"
    using sample_near by (auto simp: bearer_world_def)
  have usable: "door_usable bearer_world ''o1'' = Some (sample_door, sample_controller)"
    using sample_usable
    by (simp add: bearer_world_def door_usable_def doors_by_id_def controller_of_def controllers_by_id_def cong: option.case_cong)
  have grant: "grant_open sample_ext bearer_world ''u1'' ''o1''"
    using sample_grant_open by (simp add: bearer_world_def grant_open_def cong: option.case_cong)
  have budget: "rate_unlock_count bearer_world ''u1'' 60 + 1 < rate_max_unlocks_per_minute sample_settings"
    using sample_budget by (simp add: bearer_world_def rate_unlock_count_def)
  have rest: "is_online (w_hub bearer_world) (c_code sample_controller)" "rand_uuid sample_ext (w_draws bearer_world) = ''id-0''"
    using sample_online sample_uuid by (simp_all add: bearer_world_def sample_rows)
  have "dr_unlock_seconds sample_door = 3" "command_ttl_seconds sample_settings = 10"
    by (simp_all add: sample_rows sample_settings_def default_settings_def)
  then show ?thesis
    using unlock_run [OF bearer_world_inv _ usable grant near budget rest(1) sample_sign sample_line, of None "''d1''"] rest(2)
    by (auto simp: inet_valid_def message_command_id_def py_str_def obj_get_def)
qed


section \<open>Logins\<close>

lemma fixed_duration_run:
  assumes "body w = (r, w1)" and "w_now w \<le> w_now w1"
  shows "fixed_duration ms body w = (r, w1\<lparr>w_now := max (w_now w1) (w_now w + ms * 1000)\<rparr>)"
  using assms by (simp add: fixed_duration_def comp_simps current_time_def sleep_def Let_def max_def)

definition failures_kept :: "world \<Rightarrow> world \<Rightarrow> bool" where
  "failures_kept w w' \<longleftrightarrow> prefix (w_failed w) (w_failed w')"

interpretation failures_kept: frame_rel failures_kept
  by unfold_locales (auto simp: failures_kept_def intro: prefix_order.trans)

lemma failures_kept_basics [frame_intros]:
  "evolves failures_kept (sleep d)" "evolves failures_kept current_time" "evolves failures_kept (draw_bytes x n)"
  "evolves failures_kept (draw_uuid x)" "evolves failures_kept (audit_record x ev oc en)"
  "evolves failures_kept (users_touch_login uid)" "evolves failures_kept (devices_touch_seen did)"
  "evolves failures_kept (tokens_insert x fid uid did kind h ttl par)" "evolves failures_kept (rate_record_failure x sb s ep ip)"
  "evolves failures_kept (remember st sb s)" "evolves failures_kept (auth_error r)"
  by (auto simp: evolves_def failures_kept_def sleep_def current_time_def run_simps audit_record_run audit_push_def
      users_touch_login_def devices_touch_seen_def tokens_insert_def rate_record_failure_def remember_def auth_error_def
      split: option.split)

lemma failures_kept_login [frame_intros]: "evolves failures_kept (login x st u p d ip)"
proof -
  have dummy: "evolves failures_kept (puts (\<lambda>w. w\<lparr>w_dummy_hashes := f w\<rparr>))" for f
    by (simp add: evolves_def puts_apply failures_kept_def)
  show ?thesis
    unfolding login_def burn_password_time_def hash_password_def verify_password_def issue_pair_def new_token_def
      token_urlsafe_def audit_success_def
    by (intro dummy frame_intros)
qed

lemma failures_kept_login_endpoint: "evolves failures_kept (login_endpoint x st rq b)"
  unfolding login_endpoint_def login_attempt_def fixed_duration_def check_login_def record_login_failure_def apply_delay_def
    audit_failure_def audit_denied_def
  by (intro frame_intros)

text \<open>A login that does not raise, decided by its rate decision.\<close>

definition decision_of :: "settings \<Rightarrow> world \<Rightarrow> string \<Rightarrow> string option \<Rightarrow> rate_decision" where
  "decision_of st w username ip =
     login_decision st (rate_failure_count w ''user'' (py_lower username) (rate_window_seconds st) None)
       (if ip_given ip then rate_failure_count w ''ip'' (the ip) (rate_window_seconds st) None else 0)"

lemma check_login_run: "check_login st u ip w = (Inr (decision_of st w u ip), w)"
  by (simp add: check_login_def comp_simps decision_of_def)

lemma decision_allowed:
  "rd_allowed (decision_of st w u ip) \<Longrightarrow>
     rate_failure_count w ''user'' (py_lower u) (rate_window_seconds st) None < rate_max_login_failures st"
  by (auto simp: decision_of_def login_decision_def Let_def split: if_splits)

lemma login_endpoint_allowed:
  assumes "client_ip st rq = Inr ip" and "rd_allowed (decision_of st w (lr_username b) ip)"
    and "login_attempt x st ip (decision_of st w (lr_username b) ip) b w = (r, w1)"
  shows "login_endpoint x st rq b w =
    ((case r of Inl e \<Rightarrow> Inl e | Inr (Ok p) \<Rightarrow> Inr (Ok (token_pair p)) | Inr (Raised h) \<Rightarrow> Inr (Raised h)),
     w1\<lparr>w_now := max (w_now w1) (w_now w + auth_fixed_response_ms st * 1000)\<rparr>)"
proof -
  have "w_now w \<le> w_now w1" using evolves_safe(2) [OF safe_login_attempt assms(3)] by (simp add: progress_def)
  from fixed_duration_run [of "login_attempt x st ip (decision_of st w (lr_username b) ip) b" w, OF assms(3) this] assms(1,2)
  show ?thesis
    by (simp add: login_endpoint_def comp_simps check_login_run bindR_def split: sum.split reply.split)
qed

lemma login_endpoint_locked:
  assumes "client_ip st rq = Inr ip" and "\<not> rd_allowed (decision_of st w (lr_username b) ip)" and "inet_valid x ip"
  shows "\<exists>detail. login_endpoint x st rq b w = (Inr (Raised (http_error (RateLimited (rate_window_seconds st)))),
     audit_push x ''rate.limit_tripped'' ''denied'' ((entry ''anonymous'')\<lparr>en_client_ip := ip, en_detail := detail\<rparr>) w)"
proof -
  have "rd_retry_after_seconds (decision_of st w (lr_username b) ip) = rate_window_seconds st"
    using assms(2) by (auto simp: decision_of_def login_decision_def Let_def split: if_splits)
  then show ?thesis
    using assms by (auto simp: login_endpoint_def comp_simps check_login_run audit_denied_def audit_record_run
        audit_accepts_def AUDIT_OUTCOMES_def ACTOR_TYPES_def entry_def)
qed

lemma login_attempt_Raised:
  assumes "login_attempt x st ip dn b w = (Inr (Raised h), w1)"
  obtains why w0 rest where "login x st (lr_username b) (lr_password b) (lr_device_id b) ip w = (Inl (ApiError (AuthenticationError why)), w0)"
    and "h = http_error (AuthenticationError why)"
    and "w_failed w1 = w_failed w0 @ \<lparr>f_subject_type = ''user'', f_subject = py_lower (lr_username b),
      f_endpoint = ''auth.login'', f_client_ip = ip, f_occurred_at = w_now w0\<rparr> # rest"
proof (cases "login x st (lr_username b) (lr_password b) (lr_device_id b) ip w")
  case (Pair r w0)
  show ?thesis
    using assms Pair
    by (auto simp: login_attempt_def record_login_failure_def
        rate_record_failure_def run_simps remember_def audit_failure_def audit_record_run audit_push_def apply_delay_def sleep_def
        split: sum.splits exn.splits api_error.splits if_splits intro: that)
qed

text \<open>The requests of a guesser, and how many of them were answered 401 for one username.\<close>

definition refused :: "exn + 'a reply \<Rightarrow> bool" where
  "refused r = (case r of Inr (Raised h) \<Rightarrow> he_status h = 401 | _ \<Rightarrow> False)"

fun guesses :: "ext \<Rightarrow> settings \<Rightarrow> string \<Rightarrow> (request \<times> LoginRequest) list \<Rightarrow> world \<Rightarrow> nat \<times> world" where
  "guesses x st user [] w = (0, w)"
| "guesses x st user ((rq, b) # rest) w =
     (case login_endpoint x st rq b w of (r, w1) \<Rightarrow>
      case guesses x st user rest w1 of (n, w2) \<Rightarrow>
        ((if refused r \<and> py_lower (lr_username b) = py_lower user then 1 else 0) + n, w2))"

definition failures_since :: "instant \<Rightarrow> string \<Rightarrow> world \<Rightarrow> nat" where
  "failures_since t user w =
     length (filter (\<lambda>f. f_subject_type f = ''user'' \<and> f_subject f = py_lower user \<and> t \<le> f_occurred_at f) (w_failed w))"

lemma length_filter_mono: "(\<And>f. P f \<Longrightarrow> Q f) \<Longrightarrow> length (filter P fs) \<le> length (filter Q fs)"
  by (induction fs) (auto simp: le_Suc_eq)

lemma failures_since_mono: "failures_kept w w' \<Longrightarrow> failures_since t user w \<le> failures_since t user w'"
  by (auto simp: failures_kept_def failures_since_def prefix_def)

lemma login_endpoint_mono:
  assumes "login_endpoint x st rq b w = (r, w')"
  shows "failures_since t user w \<le> failures_since t user w'" "w_now w \<le> w_now w'"
proof -
  have "failures_kept w w'"
    using failures_kept_login_endpoint [of x st rq b] assms by (auto simp: evolves_def dest!: spec [of _ w])
  then show "failures_since t user w \<le> failures_since t user w'" by (rule failures_since_mono)
  show "w_now w \<le> w_now w'" using evolves_safe(2) [OF safe_auth_endpoints(3) assms] by (simp add: progress_def)
qed

lemma refused_login_counts:
  assumes "login_endpoint x st rq b w = (r, w')" and "refused r" and "py_lower (lr_username b) = py_lower user"
    and "t \<le> w_now w" and "w_now w - seconds (rate_window_seconds st) < t"
  shows "int (failures_since t user w) < rate_max_login_failures st"
    and "failures_since t user w + 1 \<le> failures_since t user w'"
proof -
  let ?b = "lr_username b"
  obtain ip where ip: "client_ip st rq = Inr ip"
    using assms(1,2) by (cases "client_ip st rq") (auto simp: login_endpoint_def comp_simps refused_def)
  have allowed: "rd_allowed (decision_of st w ?b ip)"
  proof (rule ccontr)
    assume "\<not> rd_allowed (decision_of st w ?b ip)"
    with assms(1,2) ip show False
      by (auto simp: login_endpoint_def comp_simps check_login_run audit_denied_def audit_record_run refused_def http_error_def
          split: if_splits)
  qed
  have "int (failures_since t user w) \<le> rate_failure_count w ''user'' (py_lower ?b) (rate_window_seconds st) None"
    unfolding failures_since_def rate_failure_count_def of_nat_le_iff
    using assms(3,5) by (intro length_filter_mono) auto
  with decision_allowed [OF allowed] show "int (failures_since t user w) < rate_max_login_failures st" by linarith
  obtain r1 w1 where att: "login_attempt x st ip (decision_of st w ?b ip) b w = (r1, w1)" by fastforce
  note run = login_endpoint_allowed [OF ip allowed att]
  have "w_failed w' = w_failed w1" using run assms(1) by auto
  moreover obtain h where h: "r1 = Inr (Raised h)"
    using run assms(1,2) by (auto simp: refused_def split: sum.splits reply.splits)
  ultimately show "failures_since t user w + 1 \<le> failures_since t user w'"
  proof -
    assume w': "w_failed w' = w_failed w1" and h: "r1 = Inr (Raised h)"
    from att [unfolded h] obtain why w0 rest where
      log: "login x st ?b (lr_password b) (lr_device_id b) ip w = (Inl (ApiError (AuthenticationError why)), w0)" and
      f: "w_failed w1 = w_failed w0 @ \<lparr>f_subject_type = ''user'', f_subject = py_lower ?b,
        f_endpoint = ''auth.login'', f_client_ip = ip, f_occurred_at = w_now w0\<rparr> # rest"
      by (rule login_attempt_Raised) blast
    have "failures_kept w w0"
      using failures_kept_login [of x st ?b "lr_password b" "lr_device_id b" ip] log
      by (auto simp: evolves_def dest!: spec [of _ w])
    moreover have "w_now w \<le> w_now w0" using evolves_safe(2) [OF safe_login log] by (simp add: progress_def)
    ultimately show ?thesis using f w' assms(3,4) failures_since_mono [of w w0 t user] by (simp add: failures_since_def)
  qed
qed

lemma guesses_bound:
  assumes "guesses x st user attempts w = (n, w')" and "t \<le> w_now w" and "w_now w' - seconds (rate_window_seconds st) < t"
  shows "w_now w \<le> w_now w' \<and>
    int (failures_since t user w + n) \<le> max (rate_max_login_failures st) (int (failures_since t user w))"
  using assms
proof (induction attempts arbitrary: w n)
  case (Cons a rest)
  obtain rq b where a: "a = (rq, b)" by (cases a) auto
  obtain r w1 where e: "login_endpoint x st rq b w = (r, w1)" by fastforce
  obtain m w2 where g: "guesses x st user rest w1 = (m, w2)" by fastforce
  have w2: "w2 = w'" and n: "n = (if refused r \<and> py_lower (lr_username b) = py_lower user then 1 else 0) + m"
    using Cons.prems(1) by (simp_all add: a e g)
  note mono = login_endpoint_mono(1) [OF e, of t user] login_endpoint_mono(2) [OF e]
  have IH: "w_now w1 \<le> w_now w'" "int (failures_since t user w1 + m) \<le> max (rate_max_login_failures st) (int (failures_since t user w1))"
    using Cons.IH [OF g [unfolded w2]] Cons.prems(2,3) mono(2) by auto
  have now: "w_now w - seconds (rate_window_seconds st) < t" using mono(2) IH(1) Cons.prems(3) by linarith
  show ?case
  proof (cases "refused r \<and> py_lower (lr_username b) = py_lower user")
    case True
    then show ?thesis
      using refused_login_counts [OF e _ _ Cons.prems(2) now, where user = user] n mono IH by auto
  next
    case False
    then show ?thesis using n mono IH by auto
  qed
qed simp

lemma wrong_password_run:
  assumes "users_by_username w u = Some usr" and "argon2_verify x (u_password_hash usr) p = Inl e" and "is_mismatch e"
  shows "login x st u p d ip w = (Inl (ApiError (AuthenticationError ''bad_password'')),
     w\<lparr>w_now := w_now w + max 0 (argon2_cost x (u_password_hash usr))\<rparr>)"
  using assms by (simp add: login_def comp_simps verify_password_def sleep_def auth_error_def)

lemma wrong_password_attempt:
  assumes "users_by_username w (lr_username b) = Some usr" and "argon2_verify x (u_password_hash usr) (lr_password b) = Inl e"
    and "is_mismatch e" and "inet_valid x ip"
  shows "\<exists>w1. login_attempt x st ip dn b w = (Inr (Raised (http_error (AuthenticationError ''bad_password''))), w1) \<and>
    w_now w1 = w_now w + max 0 (argon2_cost x (u_password_hash usr)) + max 0 (rd_delay_ms dn * 1000) \<and>
    w_users w1 = w_users w"
  using assms
  by (auto simp: login_attempt_def wrong_password_run record_login_failure_def rate_record_failure_def run_simps remember_def
      audit_failure_def audit_record_run audit_push_def audit_accepts_def AUDIT_OUTCOMES_def ACTOR_TYPES_def entry_def
      RATE_SUBJECTS_def apply_delay_def sleep_def)

text \<open>
  How long a wrong password takes: the larger of the fixed budget and the sum of the hash
  check and the progressive delay. So the delay is not added on top of the budget: as long as both fit
  into it, the answer comes after exactly the budget, however many failures preceded.
\<close>

theorem login_failure_duration:
  assumes "client_ip st rq = Inr ip" and "inet_valid x ip" and "rd_allowed (decision_of st w (lr_username b) ip)"
    and "users_by_username w (lr_username b) = Some usr" and "argon2_verify x (u_password_hash usr) (lr_password b) = Inl e"
    and "is_mismatch e"
  shows "\<exists>w'. login_endpoint x st rq b w = (Inr (Raised (http_error (AuthenticationError ''bad_password''))), w') \<and>
    w_now w' = w_now w + max (auth_fixed_response_ms st * 1000)
      (max 0 (argon2_cost x (u_password_hash usr)) + max 0 (rd_delay_ms (decision_of st w (lr_username b) ip) * 1000))"
proof -
  obtain w1 where att: "login_attempt x st ip (decision_of st w (lr_username b) ip) b w =
      (Inr (Raised (http_error (AuthenticationError ''bad_password''))), w1)"
    and t: "w_now w1 = w_now w + max 0 (argon2_cost x (u_password_hash usr)) + max 0 (rd_delay_ms (decision_of st w (lr_username b) ip) * 1000)"
    using wrong_password_attempt [OF assms(4,5,6,2)] by blast
  from login_endpoint_allowed [OF assms(1,3) att] t show ?thesis by simp
qed

definition sample_guess :: "request \<times> LoginRequest" where
  "sample_guess = (\<lparr>rq_peer = None, rq_forwarded = None, rq_authorization = None\<rparr>,
     \<lparr>lr_username = ''ann'', lr_password = ''guess'', lr_device_id = ''d1''\<rparr>)"

lemma sample_guess_facts:
  "client_ip sample_settings (fst sample_guess) = Inr None" "inet_valid sample_ext None"
  "users_by_username sample_world (lr_username (snd sample_guess)) = Some sample_user"
  "argon2_verify sample_ext (u_password_hash sample_user) (lr_password (snd sample_guess)) = Inl (VerificationError ''mismatch'')"
  "rd_allowed (decision_of sample_settings sample_world (lr_username (snd sample_guess)) None)"
  by (simp_all add: sample_guess_def client_ip_def inet_valid_def users_by_username_def sample_world_def sample_rows sample_ext_def
      pg_lower_def decision_of_def login_decision_def rate_failure_count_def ip_given_def sample_settings_def default_settings_def)

theorem login_failure_duration_witness:
  "\<exists>w'. login_endpoint sample_ext sample_settings (fst sample_guess) (snd sample_guess) sample_world =
      (Inr (Raised (http_error (AuthenticationError ''bad_password''))), w') \<and> w_now w' = 120005000"
proof -
  have "w_now sample_world = 120000000" "auth_fixed_response_ms sample_settings = 5" "argon2_cost sample_ext h = 1000"
    "rd_delay_ms (decision_of sample_settings sample_world (lr_username (snd sample_guess)) None) = 0" for h
    by (simp_all add: sample_world_def sample_settings_def sample_ext_def decision_of_def login_decision_def
        rate_failure_count_def ip_given_def default_settings_def progressive_delay_ms_def)
  with login_failure_duration [OF sample_guess_facts(1,2,5,3,4)] show ?thesis by simp
qed



lemma login_raises:
  assumes "login_endpoint x st rq b w = (Inr (Raised h), w')"
  shows "h = http_error (AuthenticationError []) \<or> (\<exists>n. h = http_error (RateLimited n))"
proof -
  obtain ip where ip: "client_ip st rq = Inr ip"
    using assms by (cases "client_ip st rq") (auto simp: login_endpoint_def comp_simps)
  show ?thesis
  proof (cases "rd_allowed (decision_of st w (lr_username b) ip)")
    case True
    obtain r1 w1 where att: "login_attempt x st ip (decision_of st w (lr_username b) ip) b w = (r1, w1)" by fastforce
    then have "r1 = Inr (Raised h)"
      using login_endpoint_allowed [OF ip True att] assms by (auto split: sum.splits reply.splits)
    with att obtain why where "h = http_error (AuthenticationError why)" by (auto elim: login_attempt_Raised)
    then show ?thesis using http_error_authentication by blast
  next
    case False
    then show ?thesis using assms ip
      by (auto simp: login_endpoint_def comp_simps check_login_run audit_denied_def audit_record_run split: if_splits)
  qed
qed

lemma http_catch_Raised:
  "http_catch c m w = (Inr (Raised h), w') \<longleftrightarrow> (\<exists>a. m w = (Inl (ApiError a), w') \<and> c a \<and> h = http_error a)"
  by (auto simp: http_catch_def catchE_apply bindE_apply ret_apply throw_apply
      split: prod.splits sum.splits exn.splits if_splits)

lemma refresh_raises:
  assumes "refresh_endpoint x st rq b w = (Inr (Raised h), w')"
  shows "h = http_error (AuthenticationError [])"
proof -
  obtain ip where ip: "client_ip st rq = Inr ip"
    using assms by (cases "client_ip st rq") (auto simp: refresh_endpoint_def comp_simps)
  let ?m = "http_catch is_authentication (refresh x st (rr_refresh_token b) ip)"
  obtain r1 w1 where m: "?m w = (r1, w1)" by fastforce
  have safe: "evolves (safe x) ?m" by (intro frame_intros)
  have "w_now w \<le> w_now w1" using evolves_safe(2) [OF safe m] by (simp add: progress_def)
  from fixed_duration_run [of ?m w, OF m this] assms ip have "r1 = Inr (Raised h)"
    by (auto simp: refresh_endpoint_def comp_simps bindR_def split: sum.splits reply.splits)
  with m obtain a where a: "is_authentication a" "h = http_error a" by (auto simp: http_catch_Raised)
  then show ?thesis using http_error_authentication by (cases a) auto
qed

text \<open>
  Nobody learns why a login or a refresh was refused: unknown user, wrong password, disabled
  user, foreign, blocked or unattested device, unknown, expired, revoked or replayed refresh token are
  one and the same response, status, body and headers included.
\<close>

theorem auth_refusals_alike:
  assumes "login_endpoint x st rq b w = (Inr (Raised h), w1)" and "he_status h = 401"
    and "refresh_endpoint x' st' rq' b' v = (Inr (Raised h'), v1)"
  shows "respond 200 (Inr (Raised h)) = respond 200 (Inr (Raised h'))"
proof -
  have "h = http_error (AuthenticationError [])" using login_raises [OF assms(1)] assms(2) by (auto simp: http_error_def)
  then show ?thesis using refresh_raises [OF assms(3)] by simp
qed

theorem auth_refusals_alike_witness:
  "respond 200 (Inr (Raised (http_error (AuthenticationError ''bad_password''))) :: exn + TokenPair reply) =
   respond 200 (Inr (Raised (http_error (AuthenticationError ''unknown_refresh_token''))))"
proof -
  let ?b = "\<lparr>rr_refresh_token = ''tok''\<rparr>"
  obtain w' where l: "login_endpoint sample_ext sample_settings (fst sample_guess) (snd sample_guess) sample_world =
      (Inr (Raised (http_error (AuthenticationError ''bad_password''))), w')"
    using wrong_password_attempt [OF sample_guess_facts(3,4) _ sample_guess_facts(2)]
      login_endpoint_allowed [OF sample_guess_facts(1,5)] by fastforce
  have "tokens_lookup sample_world h ''refresh'' = None" for h
    by (simp add: tokens_lookup_def sample_world_def)
  then have "http_catch is_authentication (refresh sample_ext sample_settings ''tok'' None) sample_world =
      (Inr (Raised (http_error (AuthenticationError ''unknown_refresh_token''))), sample_world)"
    by (simp add: http_catch_def refresh_def refresh_lookup_def refresh_act_def comp_simps token_world_hash auth_error_def)
  then have r: "refresh_endpoint sample_ext sample_settings (fst sample_guess) ?b sample_world =
      (Inr (Raised (http_error (AuthenticationError ''unknown_refresh_token''))), sample_world\<lparr>w_now := max (w_now sample_world)
        (w_now sample_world + auth_fixed_response_ms sample_settings * 1000)\<rparr>)"
    using sample_guess_facts(1)
    by (simp add: refresh_endpoint_def comp_simps bindR_def fixed_duration_run [of _ sample_world _ sample_world])
  show ?thesis by (rule auth_refusals_alike [OF l _ r]) (simp add: http_error_def)
qed

section \<open>Responses\<close>

lemma foldl_dict_set:
  "distinct (map fst kvs) \<Longrightarrow> map_of (foldl (\<lambda>hs (k, v). dict_set hs k v) d kvs) k =
     (case map_of kvs k of Some v \<Rightarrow> Some v | None \<Rightarrow> map_of d k)"
  by (induction kvs arbitrary: d) (auto simp: dict_set_map_of map_of_eq_None_iff image_iff split: option.split)

text \<open>Every response an endpoint or an error handler produces carries the six headers.\<close>

lemma response_headers:
  assumes "rs_body (respond s res) \<noteq> Server_error" and "(k, v) \<in> set SECURITY_HEADERS"
  shows "map_of (rs_headers (respond s res)) k = Some v"
proof -
  have d: "distinct (map fst SECURITY_HEADERS)" by (simp add: SECURITY_HEADERS_def)
  have k: "map_of SECURITY_HEADERS k = Some v" using assms(2) d by simp
  have "map_of (rs_headers (security_headers r)) k = Some v" for r :: "'b response"
    by (simp add: security_headers_def foldl_dict_set [OF d] k)
  then show ?thesis using assms(1) by (auto simp: respond_def split: sum.splits reply.splits exn.splits)
qed

section \<open>History\<close>

text \<open>
  The access history holds the caller's own door events and nothing else: every record is a
  row of the audit log whose actor is the user of the session, of one of four kinds, newest first,
  at most 200 of them whatever limit was asked for, and asking changes nothing.
\<close>

theorem access_history_own:
  assumes "access_history x st rq limit w = (Inr (Ok records), w')"
  shows "\<exists>ss. live_session x st w ss \<and> w' = w \<and> length records \<le> 200 \<and>
    sorted_wrt (\<ge>) (map ac_seq records) \<and>
    (\<forall>r \<in> set records. \<exists>row \<in> set (w_audit w). r = access_record row \<and> a_actor_id row = Some (ss_user_id ss) \<and>
       a_event_type row \<in> set HISTORY_EVENTS)"
proof -
  obtain ss where ss: "live_session x st w ss" and w: "w' = w"
    and rec: "records = map access_record (audit_for_user w (ss_user_id ss) (min limit 200))"
    using assms by (auto simp: access_history_def bindR_Ok check_limit_def bindE_Inr_iff guardE_apply throw_apply gets_apply
        ret_apply split: if_splits dest!: current_session_live)
  let ?rows = "filter (\<lambda>r. a_actor_id r = Some (ss_user_id ss) \<and> a_event_type r \<in> set HISTORY_EVENTS) (w_audit w)"
  have "sorted_wrt (\<ge>) (map a_seq (rev (sort_key a_seq ?rows)))"
    using sorted_sort_key [of a_seq ?rows] unfolding rev_map [symmetric] sorted_wrt_rev by simp
  then have "sorted_wrt (\<ge>) (map ac_seq records)"
    unfolding rec audit_for_user_def by (simp add: access_record_def comp_def sorted_wrt_take flip: take_map)
  moreover have "set (audit_for_user w (ss_user_id ss) (min limit 200)) \<subseteq> set ?rows"
    unfolding audit_for_user_def by (auto dest: in_set_takeD)
  moreover have "length records \<le> 200" by (simp add: rec audit_for_user_def)
  ultimately show ?thesis using ss w rec by fastforce
qed

theorem access_history_own_witness:
  "\<exists>ss. live_session sample_ext sample_settings bearer_world ss \<and> length [] \<le> (200 :: nat)"
proof -
  have "access_history sample_ext sample_settings bearer_request 50 bearer_world = (Inr (Ok []), bearer_world)"
    using bearer_session
    by (simp add: access_history_def bindR_def bindE_apply check_limit_def guardE_apply gets_apply ret_apply audit_for_user_def)
      (simp add: bearer_world_def sample_world_def)
  from access_history_own [OF this] show ?thesis by auto
qed

end
