(* ===== verification/Admin.thy ===== *)
theory Admin
  imports Api_Correct
begin

text \<open>
  \<^verbatim>\<open>backend/admin/main.py\<close> and the operator scripts \<^verbatim>\<open>backend/scripts/create_admin.py\<close> and
  \<^verbatim>\<open>issue_enrollment_code.py\<close>. The admin application is a process of its own: it shares the database
  with the API but not the hub, which is why its handlers take the hub as an argument.
\<close>

section \<open>Identifiers in a path\<close>

text \<open>
  \<^verbatim>\<open>uuid.UUID(text)\<close>: prefixes, braces and hyphens are dropped, what is left are 32 characters that
  \<^verbatim>\<open>int(..., 16)\<close> accepts.
\<close>

function remove_all :: "string \<Rightarrow> string \<Rightarrow> string" where
  "remove_all p [] = []"
| "remove_all p (c # cs) =
     (if p \<noteq> [] \<and> prefix p (c # cs) then remove_all p (drop (length p) (c # cs)) else c # remove_all p cs)"
  by pat_completeness auto
termination
  by (relation "measure (length \<circ> snd)") (auto simp: neq_Nil_conv)

fun hex_run :: "int \<Rightarrow> bool \<Rightarrow> string \<Rightarrow> int option" where
  "hex_run n digit [] = (if digit then Some n else None)"
| "hex_run n digit (c # cs) =
     (if c = CHR ''_'' then (if digit then hex_run n False cs else None)
      else (case hex_value c of None \<Rightarrow> None | Some v \<Rightarrow> hex_run (16 * n + int v) True cs))"

definition py_int16 :: "string \<Rightarrow> int option" where
  "py_int16 s =
     (let t = py_strip s;
          neg = (t \<noteq> [] \<and> hd t = CHR ''-'');
          u = (if t \<noteq> [] \<and> hd t \<in> {CHR ''-'', CHR ''+''} then tl t else t);
          v = (if prefix ''0x'' (py_lower u) then (if length u = 2 then None else hex_run 0 True (drop 2 u))
               else hex_run 0 False u)
      in map_option (\<lambda>n. if neg then - n else n) v)"

definition hex_digit_at :: "int \<Rightarrow> nat \<Rightarrow> char" where
  "hex_digit_at n i = (let k = nat (n div 16 ^ (31 - i) mod 16) in if k < 10 then char_of (48 + k) else char_of (87 + k))"

definition uuid_text :: "int \<Rightarrow> uuid" where
  "uuid_text n =
     (let d = map (hex_digit_at n) [0..<32]
      in take 8 d @ ''-'' @ take 4 (drop 8 d) @ ''-'' @ take 4 (drop 12 d) @ ''-'' @ take 4 (drop 16 d) @ ''-'' @ drop 20 d)"

definition parse_uuid :: "string \<Rightarrow> exn + uuid" where
  "parse_uuid s =
     (let braces = (\<lambda>c. c = CHR ''{'' \<or> c = CHR ''}'');
          t = filter (\<lambda>c. c \<noteq> CHR ''-'')
                (rstrip_by braces (dropWhile braces (remove_all ''uuid:'' (remove_all ''urn:'' s))))
      in if length t \<noteq> 32 then Inl (ValueError ''badly formed hexadecimal UUID string'')
         else (case py_int16 t of
             None \<Rightarrow> Inl (ValueError ''invalid literal for int() with base 16'')
           | Some n \<Rightarrow> if n < 0 then Inl (ValueError ''int is out of range (need a 128-bit value)'') else Inr (uuid_text n)))"

section \<open>Handlers\<close>

definition audit_view :: "audit_row \<Rightarrow> AuditEntry" where
  "audit_view r = \<lparr>ae_seq = a_seq r, ae_occurred_at = a_occurred_at r, ae_event_type = a_event_type r,
     ae_outcome = a_outcome r, ae_actor_type = a_actor_type r, ae_actor_id = a_actor_id r, ae_device_id = a_device_id r,
     ae_door_id = a_door_id r, ae_controller_id = a_controller_id r, ae_client_ip = a_client_ip r,
     ae_detail = a_detail r, ae_row_hash = bytes_hex (a_row_hash r)\<rparr>"

definition read_audit ::
  "ext \<Rightarrow> settings \<Rightarrow> request \<Rightarrow> int \<Rightarrow> int option \<Rightarrow> string option \<Rightarrow> AuditEntry list reply io"
where
  "read_audit x st rq limit before_seq event_type =
     bindR (admin_session x st rq) (\<lambda>_.
     bindE (check_limit (min limit 500)) (\<lambda>_.
     bindE (gets (\<lambda>w. audit_recent w (min limit 500) before_seq event_type None)) (\<lambda>rows.
       ret (Ok (map audit_view rows)))))"

definition verify_chain :: "ext \<Rightarrow> settings \<Rightarrow> request \<Rightarrow> int \<Rightarrow> AuditChainStatus reply io" where
  "verify_chain x st rq from_seq =
     bindR (admin_session x st rq) (\<lambda>_.
     bindE (audit_chain_status x from_seq) (\<lambda>row.
     bindE (gets audit_head) (\<lambda>head.
       ret (Ok \<lparr>as_chain_ok = chain_ok row, as_rows_checked = rows_checked row,
                as_first_bad_seq = first_bad_seq row, as_first_bad_reason = first_bad_reason row,
                as_head_seq = map_option fst head,
                as_head_hash = map_option (\<lambda>(_, _, h). bytes_hex h) head\<rparr>))))"

definition list_controllers :: "ext \<Rightarrow> settings \<Rightarrow> hub \<Rightarrow> request \<Rightarrow> ControllerSummary list reply io" where
  "list_controllers x st h rq =
     bindR (admin_session x st rq) (\<lambda>_.
     bindE (gets controllers_list_all) (\<lambda>rows.
       ret (Ok (map (\<lambda>c. \<lparr>cm_id = c_id c, cm_code = c_code c, cm_name = c_name c,
                           cm_firmware_version = c_firmware_version c, cm_is_blocked = c_is_blocked c,
                           cm_last_seen_at = c_last_seen_at c, cm_online = is_online h (c_code c)\<rparr>) rows))))"

definition admin_action :: "ext \<Rightarrow> session \<Rightarrow> uuid option \<Rightarrow> uuid option \<Rightarrow> (string \<times> json) list \<Rightarrow> int io" where
  "admin_action x ss controller_id door_id detail =
     audit_success x ADMIN_ACTION ((entry ''admin'')\<lparr>en_actor_id := Some (ss_user_id ss),
       en_controller_id := controller_id, en_door_id := door_id, en_detail := detail\<rparr>)"

definition register_controller :: "ext \<Rightarrow> settings \<Rightarrow> request \<Rightarrow> ControllerCreate \<Rightarrow> uuid reply io" where
  "register_controller x st rq body =
     bindR (admin_session x st rq) (\<lambda>ss.
     bindE (liftE (b64_strict (cc_public_key body))) (\<lambda>public_key.
     bindE (liftE (b64_strict (cc_beacon_key body))) (\<lambda>beacon_key.
     bindE (controllers_register x (cc_code body) (cc_name body) public_key beacon_key) (\<lambda>controller_id.
     bindE (admin_action x ss (Some controller_id) None
              [(''action'', JStr ''controller.register''), (''code'', JStr (cc_code body))]) (\<lambda>_.
       ret (Ok controller_id))))))"

definition block_controller :: "ext \<Rightarrow> settings \<Rightarrow> request \<Rightarrow> string \<Rightarrow> string \<Rightarrow> unit reply io" where
  "block_controller x st rq controller_id reason =
     bindR (admin_session x st rq) (\<lambda>ss.
     bindE (liftE (parse_uuid controller_id)) (\<lambda>cid.
     bindE (controllers_block cid reason) (\<lambda>_.
     bindE (admin_action x ss (Some cid) None
              [(''action'', JStr ''controller.block''), (''reason'', JStr reason)]) (\<lambda>_.
       ret (Ok ())))))"

definition create_door :: "ext \<Rightarrow> settings \<Rightarrow> request \<Rightarrow> DoorCreate \<Rightarrow> uuid reply io" where
  "create_door x st rq body =
     bindR (admin_session x st rq) (\<lambda>ss.
     bindE (doors_create x (dc_code body) (dc_name body) (dc_location body) (dc_controller_id body)
              (dc_relay_channel body) (dc_unlock_seconds body)) (\<lambda>door_id.
     bindE (admin_action x ss None (Some door_id)
              [(''action'', JStr ''door.create''), (''code'', JStr (dc_code body))]) (\<lambda>_.
       ret (Ok door_id))))"

definition grant_permission :: "ext \<Rightarrow> settings \<Rightarrow> request \<Rightarrow> PermissionCreate \<Rightarrow> uuid reply io" where
  "grant_permission x st rq body =
     bindR (admin_session x st rq) (\<lambda>ss.
     bindE (permissions_grant x (pc_user_id body) (pc_door_id body) (Some (ss_user_id ss)) (pc_weekday_mask body)
              (time_text (pc_start_time body)) (time_text (pc_end_time body)) (pc_time_zone body)
              (pc_valid_until body)) (\<lambda>permission_id.
     bindE (admin_action x ss None (Some (pc_door_id body))
              [(''action'', JStr ''permission.grant''), (''target_user'', JStr (pc_user_id body)),
               (''weekday_mask'', JInt (pc_weekday_mask body)),
               (''window'', JStr (time_text (pc_start_time body) @ ''-'' @ time_text (pc_end_time body))),
               (''time_zone'', JStr (pc_time_zone body))]) (\<lambda>_.
       ret (Ok permission_id))))"

section \<open>The source restriction\<close>

datatype 'a gate = Forbidden | Passed 'a

fun read_networks :: "string list \<Rightarrow> exn + ip_net list" where
  "read_networks [] = Inr []"
| "read_networks (c # cs) = bindS (ip_network c) (\<lambda>n. bindS (read_networks cs) (\<lambda>ns. Inr (n # ns)))"

definition admin_networks :: "settings \<Rightarrow> exn + ip_net list" where
  "admin_networks st = read_networks (admin_cidr_list st)"

definition restrict_source :: "ip_net list \<Rightarrow> request \<Rightarrow> 'a io \<Rightarrow> 'a gate io" where
  "restrict_source networks rq call_next =
     (case ip_address (case rq_peer rq of None \<Rightarrow> [] | Some p \<Rightarrow> p) of
        Inl _ \<Rightarrow> ret Forbidden
      | Inr address \<Rightarrow>
          if networks \<noteq> [] \<and> \<not> list_ex (ip_in address) networks then ret Forbidden
          else bindE call_next (\<lambda>v. ret (Passed v)))"

definition loopback_only :: "settings \<Rightarrow> bool" where
  "loopback_only st \<longleftrightarrow> admin_host st \<in> {''127.0.0.1'', ''::1'', ''localhost''}"

section \<open>Scripts\<close>

definition MIN_PASSWORD_LENGTH :: nat where
  "MIN_PASSWORD_LENGTH = 12"

text \<open>\<open>Inl\<close> is the message the script exits with; \<open>Inr\<close> the identifier it prints.\<close>

definition create_admin :: "ext \<Rightarrow> settings \<Rightarrow> string \<Rightarrow> string \<Rightarrow> string \<Rightarrow> bool \<Rightarrow> (string + uuid) io" where
  "create_admin x st username display_name password is_admin =
     bindE (gets (\<lambda>w. users_by_username w username)) (\<lambda>found.
     case found of
       Some _ \<Rightarrow> ret (Inl (''user '' @ py_repr (JStr username) @ '' already exists''))
     | None \<Rightarrow>
         bindE (hash_password x st password) (\<lambda>h.
         bindE (users_create x username display_name h is_admin) (\<lambda>uid. ret (Inr uid))))"

definition create_admin_main :: "ext \<Rightarrow> settings \<Rightarrow> string \<Rightarrow> string \<Rightarrow> bool \<Rightarrow> string \<Rightarrow> string \<Rightarrow> (string + uuid) io" where
  "create_admin_main x st username display_name no_admin password repeat =
     (if length password < MIN_PASSWORD_LENGTH
      then ret (Inl (''password must be at least '' @ nat_digits MIN_PASSWORD_LENGTH @ '' characters''))
      else if password \<noteq> repeat then ret (Inl ''passwords do not match'')
      else create_admin x st username display_name password (\<not> no_admin))"

definition issue_enrollment_code :: "ext \<Rightarrow> string \<Rightarrow> int \<Rightarrow> (string + string) io" where
  "issue_enrollment_code x username ttl =
     bindE (gets (\<lambda>w. users_by_username w username)) (\<lambda>found.
     case found of
       None \<Rightarrow> ret (Inl (''no such user: '' @ username))
     | Some u \<Rightarrow>
         bindE (token_urlsafe x 24) (\<lambda>code.
         bindE (enrollments_create x (u_id u) (sha256 x (utf8 code)) (Some (u_id u)) ttl) (\<lambda>_. ret (Inr code))))"

section \<open>Frames\<close>

lemma safe_admin_action [frame_intros]: "evolves (safe x) (admin_action x ss c d detail)"
  unfolding admin_action_def by (intro frame_intros)

lemma safe_admin_handlers [frame_intros]:
  "evolves (safe x) (read_audit x st rq limit before ev)" "evolves (safe x) (verify_chain x st rq from)"
  "evolves (safe x) (list_controllers x st h rq)" "evolves (safe x) (register_controller x st rq cb)"
  "evolves (safe x) (block_controller x st rq cid reason)" "evolves (safe x) (create_door x st rq db)"
  "evolves (safe x) (grant_permission x st rq pb)"
  unfolding read_audit_def verify_chain_def audit_chain_status_def list_controllers_def register_controller_def
    block_controller_def create_door_def grant_permission_def
  by (intro frame_intros)+

lemma safe_restrict_source [frame_intros]: "evolves (safe x) m \<Longrightarrow> evolves (safe x) (restrict_source nets rq m)"
  unfolding restrict_source_def by (intro frame_intros)

lemma safe_scripts [frame_intros]:
  "evolves (safe x) (create_admin_main x st u dn na p r)" "evolves (safe x) (issue_enrollment_code x u ttl)"
  unfolding create_admin_main_def create_admin_def issue_enrollment_code_def token_urlsafe_def by (intro frame_intros)+

end
