(* ===== verification/Admin_Correct.thy ===== *)
theory Admin_Correct
  imports Admin
begin

text \<open>
  What the admin application guarantees: who may call it, what it writes, and that what it writes has
  the effect the rest of the system reads.
\<close>

section \<open>Every change is an administrator's, and recorded\<close>

definition admin_logged :: "ext \<Rightarrow> settings \<Rightarrow> world \<Rightarrow> world \<Rightarrow> string \<Rightarrow> bool" where
  "admin_logged x st w w' action \<longleftrightarrow> (\<exists>ss row. live_session x st w ss \<and> ss_is_admin ss \<and>
     w_audit w' = w_audit w @ [row] \<and> a_event_type row = ''admin.action'' \<and> a_outcome row = ''success'' \<and>
     a_actor_id row = Some (ss_user_id ss) \<and>
     (case a_detail row of JObj kvs \<Rightarrow> obj_get kvs ''action'' = Some (JStr action) | _ \<Rightarrow> False))"

lemma same_log_statements [frame_intros]:
  "evolves same_log (controllers_register x code name pk bk)" "evolves same_log (controllers_block cid reason)"
  "evolves same_log (doors_create x code name loc ctrl ch secs)"
  "evolves same_log (permissions_grant x uid did creator days t0 t1 tz til)"
  by (auto simp: evolves_def same_log_def controllers_register_def controllers_block_def doors_create_def permissions_grant_def
      run_simps split: option.split)

lemma same_log_run: "evolves same_log m \<Longrightarrow> m w = (r, w') \<Longrightarrow> w_audit w' = w_audit w"
  by (auto simp: evolves_def same_log_def dest: spec [of _ w])

lemma admin_action_Inr:
  assumes "admin_action x ss cid did ((''action'', JStr a) # detail) w = (Inr n, w')"
  shows "\<exists>row. w_audit w' = w_audit w @ [row] \<and> a_event_type row = ''admin.action'' \<and> a_outcome row = ''success'' \<and>
     a_actor_id row = Some (ss_user_id ss) \<and>
     (case a_detail row of JObj kvs \<Rightarrow> obj_get kvs ''action'' = Some (JStr a) | _ \<Rightarrow> False)"
  using assms
  by (auto simp: admin_action_def audit_success_def audit_record_run audit_push_def audit_hash_chain_def audit_row_of_def Let_def
      obj_get_def split: if_splits)

lemma admin_logged_step:
  assumes "admin_session x st rq w = (Inr (Ok ss), w1)" and "w_audit w2 = w_audit w1"
    and "admin_action x ss cid did ((''action'', JStr a) # detail) w2 = (Inr n, w')"
  shows "admin_logged x st w w' a"
  using admin_session_live [OF assms(1)] assms(2) admin_action_Inr [OF assms(3)] by (auto simp: admin_logged_def)

lemma register_controller_Ok:
  assumes "register_controller x st rq b w = (Inr (Ok cid), w')"
  shows "admin_logged x st w w' ''controller.register''"
  using assms
  by (auto simp: register_controller_def bindR_Ok bindE_Inr_iff liftE_apply ret_apply
      elim!: admin_logged_step [rotated 2] dest!: same_log_run [OF same_log_statements(1)])

lemma block_controller_Ok:
  assumes "block_controller x st rq cid reason w = (Inr (Ok u), w')"
  shows "admin_logged x st w w' ''controller.block''"
  using assms
  by (auto simp: block_controller_def bindR_Ok bindE_Inr_iff liftE_apply ret_apply
      elim!: admin_logged_step [rotated 2] dest!: same_log_run [OF same_log_statements(2)])

lemma create_door_Ok:
  assumes "create_door x st rq b w = (Inr (Ok did), w')"
  shows "admin_logged x st w w' ''door.create''"
  using assms
  by (auto simp: create_door_def bindR_Ok bindE_Inr_iff ret_apply
      elim!: admin_logged_step [rotated 2] dest!: same_log_run [OF same_log_statements(3)])

lemma grant_permission_Ok:
  assumes "grant_permission x st rq b w = (Inr (Ok pid), w')"
  shows "admin_logged x st w w' ''permission.grant''"
  using assms
  by (auto simp: grant_permission_def bindR_Ok bindE_Inr_iff ret_apply
      elim!: admin_logged_step [rotated 2] dest!: same_log_run [OF same_log_statements(4)])


definition admin_world :: world where
  "admin_world = bearer_world\<lparr>w_users := [sample_user\<lparr>u_is_admin := True\<rparr>]\<rparr>"

definition door_body :: DoorCreate where
  "door_body = \<lparr>dc_code = ''door-2'', dc_name = ''Back'', dc_location = None, dc_controller_id = Some ''c1'',
     dc_relay_channel = 2, dc_unlock_seconds = 5\<rparr>"

lemma admin_world_inv: "db_inv sample_ext admin_world"
  using bearer_world_inv
  by (simp add: db_inv_defs admin_world_def) (simp add: bearer_world_def sample_world_def sample_rows)

lemma admin_world_session:
  "admin_session sample_ext sample_settings bearer_request admin_world =
     (Inr (Ok (caller_session\<lparr>ss_is_admin := True\<rparr>)), admin_world)"
proof -
  have "tokens_lookup admin_world (t_token_hash sample_token) ''access'' = Some \<lparr>tv_row = sample_token\<lparr>t_kind := ''access''\<rparr>,
      tv_user_active = True, tv_user_is_admin = True, tv_display_name = ''Ann'', tv_username = ''ann'',
      tv_device_blocked = False, tv_attestation_status = ''verified''\<rparr>"
    by (simp add: tokens_lookup_def admin_world_def bearer_world_def sample_token_def users_by_id_def devices_by_id_def
        sample_world_def sample_rows)
  then show ?thesis
    by (simp add: admin_session_def bindR_def current_session_def bearer_request_def bearer_tok http_catch_def
        resolve_access_token_def comp_simps token_world_hash tokens_is_live_def current_time_def sample_token_def caller_session_def)
      (simp add: admin_world_def bearer_world_def sample_world_def)
qed

lemma admin_world_door:
  "\<exists>did w'. create_door sample_ext sample_settings bearer_request door_body admin_world = (Inr (Ok did), w')"
proof -
  have "\<exists>did v. doors_create sample_ext ''door-2'' ''Back'' None (Some ''c1'') 2 5 admin_world = (Inr did, v)"
    by (simp add: doors_create_def run_simps controllers_by_id_def)
      (simp add: admin_world_def bearer_world_def sample_world_def sample_rows sample_ext_def)
  then show ?thesis
    using admin_world_session
    by (fastforce simp: create_door_def bindR_Ok bindE_apply ret_apply door_body_def admin_action_def audit_success_def
        audit_record_run audit_accepts_def AUDIT_OUTCOMES_def ACTOR_TYPES_def entry_def inet_valid_def)
qed


section \<open>A blocked controller stays out\<close>

lemma blocked_later:
  assumes "controllers_block cid reason w = (Inr u, w1)" and "progress w1 w2" and "db_inv x w2"
    and "cid \<in> set (map c_id (w_controllers w))" and "c \<in> set (w_controllers w2)" and "c_id c = cid"
  shows "c_is_blocked c"
proof -
  obtain c0 where c0: "c0 \<in> set (w_controllers w)" "c_id c0 = cid" using assms(4) by auto
  let ?c1 = "c0\<lparr>c_is_blocked := True, c_blocked_reason := Some reason\<rparr>"
  have "w_controllers w1 = update_rows (\<lambda>c. c_id c = cid) (\<lambda>c. c\<lparr>c_is_blocked := True, c_blocked_reason := Some reason\<rparr>) (w_controllers w)"
    using assms(1) by (auto simp: controllers_block_def puts_apply)
  then have mem: "?c1 \<in> set (w_controllers w1)"
    unfolding update_rows_set using c0 by (simp only: update_rows_set) (rule image_eqI [where x = c0], simp_all)
  have "grows controller_step (w_controllers w1) (w_controllers w2)" using assms(2) by (simp add: progress_def)
  from grows_member [OF this mem] obtain c2 where c2: "c2 \<in> set (w_controllers w2)" "controller_step ?c1 c2" by blast
  have "distinct (map c_id (w_controllers w2))" using assms(3) by (simp add: db_inv_defs)
  moreover have "c_id c2 = c_id c" using c2(2) c0(2) assms(6) by (simp add: controller_step_def)
  ultimately have "c2 = c" using c2(1) assms(5) by (auto simp: distinct_map dest: inj_onD)
  with c2(2) show ?thesis by (simp add: controller_step_def)
qed

lemma block_controller_run:
  assumes "block_controller x st rq text reason w = (Inr (Ok u), w')"
  obtains cid w1 where "parse_uuid text = Inr cid" and "controllers_block cid reason w = (Inr (), w1)" and "progress w1 w'"
proof -
  from assms obtain ss cid w1 n where run: "parse_uuid text = Inr cid" "controllers_block cid reason w = (Inr (), w1)"
      "admin_action x ss (Some cid) None [(''action'', JStr ''controller.block''), (''reason'', JStr reason)] w1 = (Inr n, w')"
    by (auto simp: block_controller_def bindR_Ok bindE_Inr_iff liftE_apply ret_apply dest!: admin_session_live(1))
  then show ?thesis using evolves_safe(2) [OF safe_admin_action] that by blast
qed

text \<open>
  Claim C20. Blocking a controller is final: whatever happens afterwards, it never completes a
  handshake again, and no unlock of a door it drives ever succeeds.
\<close>

theorem blocked_controller_stays_out:
  assumes "block_controller x st rq text reason w = (Inr (Ok ()), w')" and "parse_uuid text = Inr cid"
    and "cid \<in> set (map c_id (w_controllers w))" and "progress w' v" and "db_inv x v"
  shows "(handshake x peer nonce raw v = (Inr (Some (c, m)), v1) \<longrightarrow> c_id c \<noteq> cid) \<and>
    (doors_by_id v door_id = Some (door, Some c') \<longrightarrow> c_id c' = cid \<longrightarrow>
       unlock x st u d door_id presented ip v \<noteq> (Inr outcome, v2))"
proof -
  obtain w1 where blk: "controllers_block cid reason w = (Inr (), w1)" and "progress w1 w'"
    using assms(2) by (auto intro: block_controller_run [OF assms(1)])
  then have prog: "progress w1 v" using assms(4) progress_trans by blast
  note out = blocked_later [OF blk prog assms(5,3)]
  have "c_id c \<noteq> cid" if "handshake x peer nonce raw v = (Inr (Some (c, m)), v1)"
    using handshake_Some [OF that] out by blast
  moreover have "unlock x st u d door_id presented ip v \<noteq> (Inr outcome, v2)"
    if door: "doors_by_id v door_id = Some (door, Some c')" "c_id c' = cid"
  proof
    assume "unlock x st u d door_id presented ip v = (Inr outcome, v2)"
    then obtain dr c2 where "doors_by_id v door_id = Some (dr, Some c2)" "\<not> c_is_blocked c2" by (rule unlock_Inr) blast
    with door have "\<not> c_is_blocked c'" "c' \<in> set (w_controllers v)"
      by (auto simp: doors_by_id_def controller_of_def controllers_by_id_def split: option.splits dest!: find_SomeD)
    with out door(2) show False by blast
  qed
  ultimately show ?thesis by blast
qed

definition blocked_id :: string where
  "blocked_id = ''12345678-1234-5678-1234-567812345678''"

definition second_controller :: controller_row where
  "second_controller = sample_controller\<lparr>c_id := blocked_id, c_code := ''ctrl-2'', c_public_key := replicate 32 8\<rparr>"

definition block_world :: world where
  "block_world = admin_world\<lparr>w_controllers := [sample_controller, second_controller]\<rparr>"

lemma block_world_inv: "db_inv sample_ext block_world"
  using admin_world_inv
  by (simp add: db_inv_defs block_world_def second_controller_def blocked_id_def)
    (simp add: admin_world_def bearer_world_def sample_world_def sample_rows)

lemma blocked_id_parses: "parse_uuid blocked_id = Inr blocked_id"
  by code_simp

lemma block_world_session:
  "admin_session sample_ext sample_settings bearer_request block_world =
     (Inr (Ok (caller_session\<lparr>ss_is_admin := True\<rparr>)), block_world)"
proof -
  have same: "resolve_access_token sample_ext sample_settings t block_world =
      (fst (resolve_access_token sample_ext sample_settings t admin_world), block_world)" for t
    by (simp add: resolve_access_token_def comp_simps tokens_lookup_def users_by_id_def devices_by_id_def block_world_def
        current_time_def auth_error_def split: sum.split option.split)
  have "\<exists>w'. http_catch is_authentication (resolve_access_token sample_ext sample_settings ''tok'') admin_world =
      (Inr (Ok (caller_session\<lparr>ss_is_admin := True\<rparr>)), w')"
    using admin_world_session
    by (auto simp: admin_session_def bindR_Ok current_session_def bearer_request_def bearer_tok ret_apply split: if_splits)
  then have "fst (resolve_access_token sample_ext sample_settings ''tok'' admin_world) = Inr (caller_session\<lparr>ss_is_admin := True\<rparr>)"
    by (auto simp: http_catch_Ok)
  with same [of "''tok''"] show ?thesis
    by (simp add: admin_session_def bindR_def current_session_def bearer_request_def bearer_tok http_catch_def comp_simps)
qed

lemma block_world_run:
  "\<exists>w'. block_controller sample_ext sample_settings bearer_request blocked_id ''lost'' block_world = (Inr (Ok ()), w')"
  using block_world_session
  by (simp add: block_controller_def bindR_def comp_simps blocked_id_parses controllers_block_def admin_action_def
      audit_success_def audit_record_run audit_accepts_def AUDIT_OUTCOMES_def ACTOR_TYPES_def entry_def inet_valid_def)

theorem blocked_controller_stays_out_witness:
  "\<exists>w'. block_controller sample_ext sample_settings bearer_request blocked_id ''lost'' block_world = (Inr (Ok ()), w') \<and>
     (\<forall>raw c m v1. handshake sample_ext None [1] raw w' = (Inr (Some (c, m)), v1) \<longrightarrow> c_id c \<noteq> blocked_id)"
proof -
  obtain w' where run: "block_controller sample_ext sample_settings bearer_request blocked_id ''lost'' block_world = (Inr (Ok ()), w')"
    using block_world_run by blast
  have "blocked_id \<in> set (map c_id (w_controllers block_world))" by (simp add: block_world_def second_controller_def)
  from blocked_controller_stays_out [OF run blocked_id_parses this progress_refl
      evolves_safe(3) [OF safe_admin_handlers(5) run block_world_inv]] run
  show ?thesis by blast
qed

section \<open>A grant opens the door it names\<close>

lemma permissions_grant_Inr:
  assumes "permissions_grant x uid did cb days s0 s1 tz til w = (Inr pid, w')" and "grants_ok w'"
    and "\<forall>p \<in> set (w_permissions w). p_valid_from p \<le> w_now w"
  obtains p t0 t1 where "p \<in> set (w_permissions w')" and "live_grant uid did p" and "p_id p = pid"
    and "pg_time x s0 = Some t0" and "pg_time x s1 = Some t1" and "p_weekday_mask p = days" and "p_start_time p = t0"
    and "p_end_time p = t1" and "p_time_zone p = tz" and "p_valid_until p = til" and "p_valid_from p \<le> w_now w'" and "w_now w' = w_now w"
proof (cases "find (live_grant uid did) (w_permissions w)")
  case None
  then show ?thesis using assms(1)
    by (auto simp: permissions_grant_def run_simps live_grant_def split: option.splits if_splits intro!: that)
next
  case (Some q)
  from find_SomeD [OF Some] have q: "q \<in> set (w_permissions w)" "live_grant uid did q" by simp_all
  show ?thesis using assms(1,3) Some q
    by (auto simp: permissions_grant_def run_simps update_rows_set split: option.splits if_splits
        intro!: that [of "q\<lparr>p_weekday_mask := days, p_start_time := _, p_end_time := _, p_time_zone := tz, p_valid_until := til\<rparr>"]
          image_eqI [where x = q]) (auto simp: live_grant_def)
qed

lemma grant_permission_run:
  assumes "grant_permission x st rq b w = (Inr (Ok pid), w')"
  obtains ss :: session and w1 where "permissions_grant x (pc_user_id b) (pc_door_id b) (Some (ss_user_id ss)) (pc_weekday_mask b)
      (time_text (pc_start_time b)) (time_text (pc_end_time b)) (pc_time_zone b) (pc_valid_until b) w = (Inr pid, w1)"
    and "w_permissions w' = w_permissions w1" and "w_now w' = w_now w1"
proof -
  from assms obtain ss :: session and w1 dt n where g: "permissions_grant x (pc_user_id b) (pc_door_id b) (Some (ss_user_id ss)) (pc_weekday_mask b)
      (time_text (pc_start_time b)) (time_text (pc_end_time b)) (pc_time_zone b) (pc_valid_until b) w = (Inr pid, w1)"
    and a: "admin_action x ss None (Some (pc_door_id b)) dt w1 = (Inr n, w')"
    by (auto simp: grant_permission_def bindR_Ok bindE_Inr_iff ret_apply dest!: admin_session_live(1))
  show ?thesis
    by (rule that [OF g]) (use a in \<open>auto simp: admin_action_def audit_success_def audit_record_run audit_push_def split: if_splits\<close>)
qed

lemma effective_unique:
  assumes "grants_ok w" and "p \<in> set (w_permissions w)" and "live_grant uid did p" and "in_force (w_now w) p"
  shows "find (\<lambda>p. p_user_id p = uid \<and> p_door_id p = did \<and> in_force (w_now w) p) (w_permissions w) = Some p"
proof -
  let ?q = "\<lambda>p. p_user_id p = uid \<and> p_door_id p = did \<and> in_force (w_now w) p"
  obtain r where r: "find ?q (w_permissions w) = Some r"
    using assms(2-4) by (cases "find ?q (w_permissions w)") (auto simp: find_None_iff live_grant_def)
  then have "r \<in> set (w_permissions w)" "live_grant uid did r"
    using find_SomeD [OF r] by (auto simp: live_grant_def in_force_def)
  from grants_unique [OF assms(1) this(1) assms(2) this(2) assms(3)] r show ?thesis by simp
qed

text \<open>
  Claim C27. A permission granted over the admin application is the one the next unlock of that user
  and door consults, with exactly the days, the times and the zone of the request: the door is
  within its window precisely on the days of the mask between the two times, in that zone.
\<close>

theorem grant_takes_effect:
  assumes "db_inv x w" and "grant_permission x st rq b w = (Inr (Ok pid), w')"
    and "\<forall>p \<in> set (w_permissions w). p_valid_from p \<le> w_now w"
    and "case pc_valid_until b of None \<Rightarrow> True | Some t \<Rightarrow> w_now w < t"
    and "zone_local x (pc_time_zone b) (w_now w) = Some (t, dow)"
  shows "\<exists>v t0 t1. permissions_effective x (pc_user_id b) (pc_door_id b) w' = (Inr (Some v), w') \<and> p_id (pv_row v) = pid \<and>
    pg_time x (time_text (pc_start_time b)) = Some t0 \<and> pg_time x (time_text (pc_end_time b)) = Some t1 \<and>
    (pv_within_window v \<longleftrightarrow> (pc_weekday_mask b div 2 ^ nat (dow - 1)) mod 2 = 1 \<and> t0 \<le> t \<and> t \<le> t1)"
proof -
  obtain ss :: session and w1 where run: "permissions_grant x (pc_user_id b) (pc_door_id b) (Some (ss_user_id ss)) (pc_weekday_mask b)
      (time_text (pc_start_time b)) (time_text (pc_end_time b)) (pc_time_zone b) (pc_valid_until b) w = (Inr pid, w1)"
    and w': "w_permissions w' = w_permissions w1" "w_now w' = w_now w1"
    by (rule grant_permission_run [OF assms(2)])
  have "db_inv x w1" using evolves_safe(3) [OF safe_permissions_grant run assms(1)] .
  then have ok: "grants_ok w1" by (simp add: db_inv_def)
  show ?thesis
  proof (rule permissions_grant_Inr [OF run ok assms(3)])
    fix p t0 t1
    assume p: "p \<in> set (w_permissions w1)" "live_grant (pc_user_id b) (pc_door_id b) p" "p_id p = pid"
      "p_weekday_mask p = pc_weekday_mask b" "p_start_time p = t0" "p_end_time p = t1" "p_time_zone p = pc_time_zone b"
      "p_valid_until p = pc_valid_until b" "p_valid_from p \<le> w_now w1" "w_now w1 = w_now w"
      and t: "pg_time x (time_text (pc_start_time b)) = Some t0" "pg_time x (time_text (pc_end_time b)) = Some t1"
    have "in_force (w_now w1) p" using p(2,8-10) assms(4) by (simp add: in_force_def live_grant_def)
    from effective_unique [OF ok p(1,2) this] p(3-10) t w' assms(5) show ?thesis
      by (simp add: permissions_effective_def run_simps within_window_def)
  qed
qed

definition grant_body :: PermissionCreate where
  "grant_body = \<lparr>pc_user_id = ''u1'', pc_door_id = ''o1'', pc_weekday_mask = 31, pc_start_time = 0, pc_end_time = 3600000000,
     pc_time_zone = ''UTC'', pc_valid_until = None\<rparr>"

lemma grant_body_run:
  "\<exists>pid w'. grant_permission sample_ext sample_settings bearer_request grant_body admin_world = (Inr (Ok pid), w')"
proof -
  have t: "pg_time sample_ext (time_text 0) = Some 0" "\<exists>t. 0 < t \<and> pg_time sample_ext (time_text 3600000000) = Some t"
    by (simp_all add: sample_ext_def, code_simp+)
  then obtain t where t: "pg_time sample_ext (time_text 0) = Some 0" "0 < t" "pg_time sample_ext (time_text 3600000000) = Some t" by blast
  have "\<exists>pid v. permissions_grant sample_ext ''u1'' ''o1'' (Some ''u1'') 31 (time_text 0) (time_text 3600000000) ''UTC'' None admin_world = (Inr pid, v)"
    using t by (simp add: permissions_grant_def run_simps permission_checks_def live_grant_def)
      (simp add: admin_world_def bearer_world_def sample_world_def sample_rows live_grant_def run_simps permission_checks_def)
  then show ?thesis
    using admin_world_session
    by (fastforce simp: grant_permission_def bindR_Ok bindE_apply ret_apply grant_body_def caller_session_def admin_action_def
        audit_success_def audit_record_run audit_accepts_def AUDIT_OUTCOMES_def ACTOR_TYPES_def entry_def inet_valid_def)
qed

theorem grant_takes_effect_witness:
  "\<exists>pid w' v. grant_permission sample_ext sample_settings bearer_request grant_body admin_world = (Inr (Ok pid), w') \<and>
     permissions_effective sample_ext ''u1'' ''o1'' w' = (Inr (Some v), w') \<and> p_id (pv_row v) = pid"
proof -
  obtain pid w' where run: "grant_permission sample_ext sample_settings bearer_request grant_body admin_world = (Inr (Ok pid), w')"
    using grant_body_run by blast
  have "\<forall>p \<in> set (w_permissions admin_world). p_valid_from p \<le> w_now admin_world"
    "\<exists>t dow. zone_local sample_ext (pc_time_zone grant_body) (w_now admin_world) = Some (t, dow)"
    by (simp_all add: admin_world_def bearer_world_def sample_world_def sample_rows grant_body_def sample_ext_def)
  then show ?thesis
    using grant_takes_effect [OF admin_world_inv run] run by (fastforce simp: grant_body_def)
qed

section \<open>Where the admin application answers\<close>

lemma read_networks_Inr:
  "read_networks cs = Inr ns \<Longrightarrow> list_all2 (\<lambda>c n. ip_network c = Inr n) cs ns"
  by (induction cs arbitrary: ns) (auto simp: bindS_Inr_iff)

text \<open>
  The source restriction: with networks configured, a request whose peer is not an address
  of one of them is answered 403 by every handler, and nothing happens; a request that passes runs
  the handler unchanged.
\<close>

theorem restrict_source_decides:
  assumes "admin_networks st = Inr networks" and "admin_cidr_list st \<noteq> []"
  shows "restrict_source networks rq m w =
    (if \<exists>peer a cidr n. rq_peer rq = Some peer \<and> ip_address peer = Inr a \<and> cidr \<in> set (admin_cidr_list st) \<and>
        ip_network cidr = Inr n \<and> ip_in a n
     then (case m w of (Inl e, w') \<Rightarrow> (Inl e, w') | (Inr v, w') \<Rightarrow> (Inr (Passed v), w'))
     else (Inr Forbidden, w))"
proof -
  have all: "list_all2 (\<lambda>c n. ip_network c = Inr n) (admin_cidr_list st) networks"
    using assms(1) by (simp add: admin_networks_def read_networks_Inr)
  then have ne: "networks \<noteq> []" using assms(2) by auto
  have "case ip_address [] of Inl _ \<Rightarrow> True | Inr _ \<Rightarrow> False" by code_simp
  then obtain e where none: "ip_address [] = Inl e" by (auto split: sum.splits)
  have hit: "list_ex (ip_in a) networks \<longleftrightarrow> (\<exists>cidr n. cidr \<in> set (admin_cidr_list st) \<and> ip_network cidr = Inr n \<and> ip_in a n)" for a
    using all by (fastforce simp: list_ex_iff list_all2_conv_all_nth in_set_conv_nth)
  show ?thesis
    by (cases "rq_peer rq") (auto simp: restrict_source_def none ne hit comp_simps split: sum.splits prod.splits)
qed

lemma default_networks: "admin_networks default_settings = Inr [Net4 0x7F000001 32]" "admin_cidr_list default_settings = [''127.0.0.1/32'']"
  by code_simp+

theorem restrict_source_decides_witness:
  "restrict_source [Net4 0x7F000001 32] \<lparr>rq_peer = Some (ipv4_text 0x0A000001), rq_forwarded = None, rq_authorization = None\<rparr>
     (ret ()) sample_world = (Inr Forbidden, sample_world)"
proof -
  have "ip_address (ipv4_text 0x0A000001) = Inr (IPv4 0x0A000001)" by (rule ip_address_ipv4)
  moreover have "ip_network ''127.0.0.1/32'' = Inr (Net4 0x7F000001 32)" by code_simp
  moreover have "\<not> ip_in (IPv4 0x0A000001) (Net4 0x7F000001 32)" by code_simp
  ultimately show ?thesis
    by (subst restrict_source_decides [OF default_networks(1)]) (auto simp: default_networks(2))
qed

section \<open>An issued code can be used\<close>

text \<open>
  The code the operator's script prints is one the enrolment of that user accepts: its
  hash is stored, and until it expires a claim with it succeeds and names the user, once.
\<close>

theorem issued_code_claims:
  assumes "db_inv x w" and "issue_enrollment_code x username ttl w = (Inr (Inr code), w')" and "0 < ttl"
  shows "\<exists>u eid w''. users_by_username w username = Some u \<and>
    enrollments_claim (hash_code x code) w' = (Inr (Some (eid, u_id u)), w'') \<and>
    fst (enrollments_claim (hash_code x code) w'') = Inr None"
proof -
  let ?code = "urlsafe_nopad (rand_bytes x (w_draws w) 24)"
  obtain u where u: "users_by_username w username = Some u" and code: "code = ?code"
    and new: "\<forall>e \<in> set (w_codes w). e_code_hash e \<noteq> sha256 x (utf8 code)"
    and w1: "w_codes w' = w_codes w @ [\<lparr>e_id = rand_uuid x (Suc (w_draws w)), e_user_id = u_id u, e_code_hash = sha256 x (utf8 code),
      e_created_by = Some (u_id u), e_created_at = w_now w, e_expires_at = w_now w + seconds ttl, e_used_at = None,
      e_used_by_device = None\<rparr>]" and w2: "w_now w' = w_now w"
    using assms(2)
    by (auto simp: issue_enrollment_code_def token_urlsafe_def enrollments_create_def run_simps list_ex_iff
        split: option.splits if_splits)
  obtain e eid where e: "e_code_hash e = sha256 x (utf8 code)" "e_user_id e = u_id u" "e_used_at e = None" "e_id e = eid"
      "e_expires_at e = w_now w + seconds ttl" and w': "w_codes w' = w_codes w @ [e]" "w_now w' = w_now w"
    using w1 w2 by (metis code_row.select_convs(1,2,3,6,7))
  let ?h = "hash_code x code"
  have h: "?h = sha256 x (utf8 code)" by (simp add: hash_code_def code urlsafe_nopad_strip)
  have none: "find (open_code ?h t) (w_codes w) = None" for t
    using new h by (auto simp: find_None_iff open_code_def)
  have hit: "find (open_code ?h (w_now w')) (w_codes w') = Some e"
    using none e w' assms(3) h by (simp add: find_append open_code_def)
  have "find (open_code ?h t) (update_rows (open_code ?h (w_now w')) (\<lambda>e. e\<lparr>e_used_at := Some (w_now w')\<rparr>) (w_codes w')) = None" for t
    using none [of "w_now w'"] none [of t] w' e h assms(3)
    by (auto simp: find_None_iff update_rows_set open_code_def split: if_splits)
  then show ?thesis using u hit e by (auto simp: enrollments_claim_def comp_simps)
qed

theorem issued_code_claims_witness:
  "\<exists>code w' eid w''. issue_enrollment_code sample_ext ''ann'' 900 sample_world = (Inr (Inr code), w') \<and>
     enrollments_claim (hash_code sample_ext code) w' = (Inr (Some (eid, ''u1'')), w'')"
proof -
  have h: "sample_hash (utf8 (urlsafe_nopad (replicate 24 0))) \<noteq> sample_hash (utf8 ''enrol-me'')" by code_simp
  have "\<exists>code w'. issue_enrollment_code sample_ext ''ann'' 900 sample_world = (Inr (Inr code), w')"
    using h by (simp add: issue_enrollment_code_def token_urlsafe_def enrollments_create_def run_simps users_by_username_def
        user_exists_def sample_world_def sample_rows sample_ext_def pg_lower_def length_sample_hash)
  then obtain code w' where run: "issue_enrollment_code sample_ext ''ann'' 900 sample_world = (Inr (Inr code), w')" by blast
  have "users_by_username sample_world ''ann'' = Some u \<Longrightarrow> u_id u = ''u1''" for u
    by (simp add: users_by_username_def sample_world_def sample_rows pg_lower_def split: if_splits) auto
  with issued_code_claims [OF sample_world_inv run] run show ?thesis by auto
qed

end
