(* ===== verification/Backend.thy ===== *)
theory Backend
  imports Admin_Correct
begin

text \<open>
  The whole backend as one machine: every request of the API, every connection of a controller, every
  request of the admin application, every run of an operator's script and every refresh that acts on a
  row it read earlier is an event; the order is arbitrary. The state stays well formed, and what
  must never be undone is not: the machine refines an abstract ledger that only grows.
\<close>

section \<open>Events\<close>

datatype backend_event =
    Challenge_request EnrollChallengeRequest
  | Enroll_request request EnrollRequest
  | Login_request request LoginRequest
  | Refresh_request request RefreshRequest
  | Refresh_resumed "string option" "token_view option"
  | Logout_request request LogoutRequest
  | Doors_request request
  | Unlock_request request uuid UnlockRequest
  | History_request request int
  | Ready_request bool
  | Controller_connection "string option" "(int \<times> string) list"
  | Audit_request request int "int option" "string option"
  | Verify_request request int
  | Controllers_request request
  | Register_request request ControllerCreate
  | Block_request request string string
  | Door_request request DoorCreate
  | Grant_request request PermissionCreate
  | Create_admin string string bool string string
  | Issue_code string int
  | Time_passes nat

text \<open>The state after an event. Admin requests pass the source restriction first.\<close>

definition admin_call :: "settings \<Rightarrow> request \<Rightarrow> 'a io \<Rightarrow> world \<Rightarrow> world" where
  "admin_call st rq m w =
     (case admin_networks st of Inl _ \<Rightarrow> w | Inr nets \<Rightarrow> snd (restrict_source nets rq m w))"

fun serve :: "ext \<Rightarrow> settings \<Rightarrow> backend_event \<Rightarrow> world \<Rightarrow> world" where
  "serve x st (Challenge_request b) w = snd (enroll_challenge_endpoint x b w)"
| "serve x st (Enroll_request rq b) w = snd (enroll_endpoint x st rq b w)"
| "serve x st (Login_request rq b) w = snd (login_endpoint x st rq b w)"
| "serve x st (Refresh_request rq b) w = snd (refresh_endpoint x st rq b w)"
| "serve x st (Refresh_resumed ip found) w = snd (refresh_act x st ip found w)"
| "serve x st (Logout_request rq b) w = snd (logout_endpoint x st rq b w)"
| "serve x st (Doors_request rq) w = snd (list_doors x st rq w)"
| "serve x st (Unlock_request rq door b) w = snd (unlock_endpoint x st rq door b w)"
| "serve x st (History_request rq n) w = snd (access_history x st rq n w)"
| "serve x st (Ready_request up) w = snd (ready x up w)"
| "serve x st (Controller_connection peer received) w = snd (controller_socket x st peer received w)"
| "serve x st (Audit_request rq n before ev) w = admin_call st rq (read_audit x st rq n before ev) w"
| "serve x st (Verify_request rq n) w = admin_call st rq (verify_chain x st rq n) w"
| "serve x st (Controllers_request rq) w = admin_call st rq (list_controllers x st empty_hub rq) w"
| "serve x st (Register_request rq b) w = admin_call st rq (register_controller x st rq b) w"
| "serve x st (Block_request rq cid reason) w = admin_call st rq (block_controller x st rq cid reason) w"
| "serve x st (Door_request rq b) w = admin_call st rq (create_door x st rq b) w"
| "serve x st (Grant_request rq b) w = admin_call st rq (grant_permission x st rq b) w"
| "serve x st (Create_admin u n na p r) w = snd (create_admin_main x st u n na p r w)"
| "serve x st (Issue_code u ttl) w = snd (issue_enrollment_code x u ttl w)"
| "serve x st (Time_passes d) w = w\<lparr>w_now := w_now w + int d\<rparr>"

inductive backend_step :: "ext \<Rightarrow> settings \<Rightarrow> world \<Rightarrow> world \<Rightarrow> bool" for x st where
  event: "backend_step x st w (serve x st ev w)"

inductive_cases backend_stepE: "backend_step x st w w'"

text \<open>A fresh installation: empty tables, an empty log, nobody connected.\<close>

definition initial_world :: "instant \<Rightarrow> world" where
  "initial_world now = \<lparr>w_now = now, w_draws = 0, w_users = [], w_devices = [], w_codes = [], w_controllers = [],
     w_doors = [], w_permissions = [], w_tokens = [], w_failed = [], w_audit = [], w_audit_seq = 1, w_challenges = [],
     w_recent = [], w_dummy_hashes = [], w_hub = empty_hub\<rparr>"

definition backend_reachable :: "ext \<Rightarrow> settings \<Rightarrow> world \<Rightarrow> bool" where
  "backend_reachable x st w \<longleftrightarrow> (\<exists>now. rtranclp (backend_step x st) (initial_world now) w)"

section \<open>Every event is safe\<close>

lemma safe_snd: "evolves (safe x) m \<Longrightarrow> safe x w (snd (m w))"
  by (simp add: evolves_def)

lemma safe_admin_call: "evolves (safe x) m \<Longrightarrow> safe x w (admin_call st rq m w)"
  by (auto simp: admin_call_def safe.frame_refl intro: safe_snd safe_restrict_source split: sum.split)

lemma serve_safe: "safe x w (serve x st ev w)"
proof (cases ev)
  case (Time_passes d)
  then show ?thesis by (simp add: safe_def progress_def grows_refl db_inv_defs)
qed (simp_all add: safe_snd safe_admin_call safe_auth_endpoints safe_door_endpoints safe_refresh_act
    safe_controller_socket safe_admin_handlers safe_scripts)

lemma step_safe: "backend_step x st w w' \<Longrightarrow> safe x w w'"
  by (auto elim!: backend_stepE simp: serve_safe)

lemma step_progress: "backend_step x st w w' \<Longrightarrow> progress w w'"
  using step_safe [of x st w w'] by (simp add: safe_def)

interpretation backend: step_invariant "backend_step x st" "db_inv x" for x st
  by unfold_locales (auto dest: step_safe simp: safe_def)

lemma star_progress: "rtranclp (backend_step x st) w w' \<Longrightarrow> progress w w'"
  by (induction rule: rtranclp_induct) (auto intro: progress_trans step_progress)

lemma initial_world_inv: "db_inv x (initial_world now)"
proof -
  have "hub_inv empty_hub" by (rule hub_inv_reachable) (simp add: hub_reachable_def)
  then show ?thesis by (simp add: db_inv_defs initial_world_def chained_def seq_sorted_def)
qed

lemma reachable_inv: "backend_reachable x st w \<Longrightarrow> db_inv x w"
  using backend.star_keeps initial_world_inv unfolding backend_reachable_def by blast



section \<open>The ledger\<close>

text \<open>
  What an auditor holds the backend to: time goes forward, the log is only appended to, a revoked
  token, a used refresh token, a used enrolment code, a blocked device or controller stay that way.
\<close>

record ledger =
  lg_now :: instant
  lg_log :: "audit_row list"
  lg_spent_tokens :: "uuid set"
  lg_revoked_tokens :: "uuid set"
  lg_spent_codes :: "uuid set"
  lg_blocked_devices :: "uuid set"
  lg_blocked_controllers :: "uuid set"

definition ledger_of :: "world \<Rightarrow> ledger" where
  "ledger_of w = \<lparr>lg_now = w_now w, lg_log = w_audit w,
     lg_spent_tokens = t_id ` {t \<in> set (w_tokens w). t_used_at t \<noteq> None},
     lg_revoked_tokens = t_id ` {t \<in> set (w_tokens w). t_revoked_at t \<noteq> None},
     lg_spent_codes = e_id ` {e \<in> set (w_codes w). e_used_at e \<noteq> None},
     lg_blocked_devices = d_id ` {d \<in> set (w_devices w). d_is_blocked d},
     lg_blocked_controllers = c_id ` {c \<in> set (w_controllers w). c_is_blocked c}\<rparr>"

definition ledger_step :: "ledger \<Rightarrow> ledger \<Rightarrow> bool" where
  "ledger_step a b \<longleftrightarrow> lg_now a \<le> lg_now b \<and> prefix (lg_log a) (lg_log b) \<and>
     lg_spent_tokens a \<subseteq> lg_spent_tokens b \<and> lg_revoked_tokens a \<subseteq> lg_revoked_tokens b \<and>
     lg_spent_codes a \<subseteq> lg_spent_codes b \<and> lg_blocked_devices a \<subseteq> lg_blocked_devices b \<and>
     lg_blocked_controllers a \<subseteq> lg_blocked_controllers b"

text \<open>A step relation simulates another along an abstraction; runs then do.\<close>

locale simulation =
  fixes cstep :: "'c \<Rightarrow> 'c \<Rightarrow> bool" and astep :: "'a \<Rightarrow> 'a \<Rightarrow> bool" and abs :: "'c \<Rightarrow> 'a"
  assumes simulates: "cstep c c' \<Longrightarrow> astep (abs c) (abs c')"
begin

lemma run_simulates: "rtranclp cstep c c' \<Longrightarrow> rtranclp astep (abs c) (abs c')"
  by (induction rule: rtranclp_induct) (auto dest: simulates intro: rtranclp.rtrancl_into_rtrancl)

end

lemma grows_image:
  assumes "grows R xs ys" and "\<And>x y. R x y \<Longrightarrow> key y = key x" and "\<And>x y. R x y \<Longrightarrow> P x \<Longrightarrow> P y"
  shows "key ` {x \<in> set xs. P x} \<subseteq> key ` {y \<in> set ys. P y}"
proof
  fix k assume "k \<in> key ` {x \<in> set xs. P x}"
  then obtain a where a: "a \<in> set xs" "P a" "k = key a" by auto
  from grows_member [OF assms(1) a(1)] obtain b where "b \<in> set ys" "R a b" by blast
  with a assms(2,3) show "k \<in> key ` {y \<in> set ys. P y}" by (intro image_eqI [of _ _ b]) auto
qed

lemma progress_ledger:
  assumes "progress w w'"
  shows "ledger_step (ledger_of w) (ledger_of w')"
proof -
  have g: "grows token_step (w_tokens w) (w_tokens w')" "grows code_step (w_codes w) (w_codes w')"
    "grows device_step (w_devices w) (w_devices w')" "grows controller_step (w_controllers w) (w_controllers w')"
    "w_now w \<le> w_now w'" "prefix (w_audit w) (w_audit w')"
    using assms by (simp_all add: progress_def)
  have t: "t_id u = t_id t" "t_used_at t \<noteq> None \<longrightarrow> t_used_at u \<noteq> None" "t_revoked_at t \<noteq> None \<longrightarrow> t_revoked_at u \<noteq> None"
    if "token_step t u" for t u
    using that by (cases t; cases u; auto simp: token_step_def)+
  have e: "e_id f = e_id e" "e_used_at e \<noteq> None \<longrightarrow> e_used_at f \<noteq> None" if "code_step e f" for e f
    using that by (cases e; cases f; auto simp: code_step_def)+
  have d: "d_id f = d_id d" "d_is_blocked d \<Longrightarrow> d_is_blocked f" if "device_step d f" for d f
    using that by (auto simp: device_step_def)
  have c: "c_id f = c_id c" "c_is_blocked c \<Longrightarrow> c_is_blocked f" if "controller_step c f" for c f
    using that by (auto simp: controller_step_def)
  show ?thesis
    unfolding ledger_step_def ledger_of_def ledger.simps
    using g(5,6) t e d c
    by (intro conjI grows_image [OF g(1)] grows_image [OF g(2)] grows_image [OF g(3)] grows_image [OF g(4)]) blast+
qed

interpretation ledger: simulation "backend_step x st" ledger_step ledger_of for x st
  by unfold_locales (intro progress_ledger step_progress)

text \<open>
  Claim C22. The backend refines the ledger: every run of it is a run of the abstract ledger, in which
  the log only grows at its end and nothing revoked, spent or blocked comes back.
\<close>

theorem backend_refines_ledger:
  "(backend_step x st w w' \<longrightarrow> ledger_step (ledger_of w) (ledger_of w')) \<and>
   (rtranclp (backend_step x st) w v \<longrightarrow> rtranclp ledger_step (ledger_of w) (ledger_of v))"
  using ledger.simulates ledger.run_simulates by blast

theorem backend_refines_ledger_witness:
  "ledger_step (ledger_of sample_world)
     (ledger_of (serve sample_ext sample_settings (Controller_connection None []) sample_world))"
  using backend_refines_ledger backend_step.event by blast

end
