(* ===== verification/Provisioning.thy ===== *)
theory Provisioning
  imports Signer
begin

text \<open>
  What surrounds the signer and the firmware keys: \<^verbatim>\<open>backend/signer/keygen.py\<close> (the text it
  prints), \<^verbatim>\<open>run\<close> and \<^verbatim>\<open>main\<close> of \<^verbatim>\<open>backend/signer/server.py\<close> (the environment, the socket file and its
  mode) and \<^verbatim>\<open>firmware/esp32/scripts/sign_firmware.py\<close> (the manifest of an image). The key pair, the
  random beacon key and SHA-256 are parameters.
\<close>

section \<open>keygen.py\<close>

definition hex_upper :: "nat \<Rightarrow> char" where
  "hex_upper k = char_of (if k < 10 then 48 + k else 55 + k)"

text \<open>\<^verbatim>\<open>f"0x{b:02X}"\<close>.\<close>

definition c_byte :: "byte \<Rightarrow> string" where
  "c_byte b = ''0x'' @ [hex_upper (unat b div 16), hex_upper (unat b mod 16)]"

definition hex_c_array :: "bytes \<Rightarrow> string \<Rightarrow> string" where
  "hex_c_array raw name =
     ''static const uint8_t '' @ name @ ''['' @ nat_digits (length raw) @ ''] = { '' @
     py_join '', '' (map c_byte raw) @ '' };''"

text \<open>The lines \<open>main\<close> prints, without and with \<^verbatim>\<open>--controller\<close>.\<close>

definition keygen_main :: "bool \<Rightarrow> bytes \<Rightarrow> bytes \<Rightarrow> bytes \<Rightarrow> string list" where
  "keygen_main controller private_raw public_raw beacon_key =
     (if \<not> controller then
        [''# signer keypair'',
         ''ACS_SIGNER_PRIVATE_KEY='' @ b64encode private_raw,
         ''ACS_SIGNER_PUBLIC_KEY='' @ b64encode public_raw,
         [],
         ''# for firmware/esp32/include/config.h'',
         hex_c_array public_raw ''ACS_SIGNER_PUBLIC_KEY'']
      else
        [''# controller keypair - store the public key and beacon key in the database'',
         ''public_key  (base64) = '' @ b64encode public_raw,
         ''beacon_key  (base64) = '' @ b64encode beacon_key,
         [],
         ''# for firmware/esp32/include/config.h - private key never leaves the board'',
         hex_c_array private_raw ''ACS_CONTROLLER_PRIVATE_KEY'',
         hex_c_array public_raw ''ACS_CONTROLLER_PUBLIC_KEY'',
         hex_c_array beacon_key ''ACS_BEACON_KEY''])"

section \<open>server.py: starting and stopping the signer\<close>

text \<open>How a process ends before it serves.\<close>

datatype failure = SystemExit string | OSError string | Uncaught exn

text \<open>
  The part of the file system the signer sees: directories, plain files and socket files with
  their permission bits. A path is its list of components, the last one first; the empty list is
  the directory every path starts from.
\<close>

datatype node = Directory | Plain_file | Socket_file nat

type_synonym file_system = "string list \<Rightarrow> node option"

definition path_of :: "string \<Rightarrow> string list" where
  "path_of s = rev (filter (\<lambda>c. c \<noteq> [] \<and> c \<noteq> ''.'') (py_split (CHR ''/'') s))"

text \<open>\<^verbatim>\<open>mkdir(parents=True, exist_ok=True)\<close>.\<close>

fun make_parents :: "file_system \<Rightarrow> string list \<Rightarrow> failure + file_system" where
  "make_parents fs [] = Inr fs"
| "make_parents fs (c # dir) = bindS (make_parents fs dir) (\<lambda>fs'.
     (case fs' (c # dir) of
        None \<Rightarrow> Inr (fs'(c # dir \<mapsto> Directory))
      | Some Directory \<Rightarrow> Inr fs'
      | Some _ \<Rightarrow> Inl (OSError ''File exists'')))"

definition unlink :: "file_system \<Rightarrow> string list \<Rightarrow> failure + file_system" where
  "unlink fs p = (case fs p of
      None \<Rightarrow> Inl (OSError ''No such file or directory'')
    | Some Directory \<Rightarrow> Inl (OSError ''Is a directory'')
    | Some _ \<Rightarrow> Inr (fs(p := None)))"

text \<open>
  \<^verbatim>\<open>start_unix_server\<close> binds the path: the file is created with every permission the \<^verbatim>\<open>umask\<close> leaves.
\<close>

definition bind_socket :: "nat \<Rightarrow> file_system \<Rightarrow> string list \<Rightarrow> failure + file_system" where
  "bind_socket created_mode fs p = (case fs p of
      None \<Rightarrow> Inr (fs(p \<mapsto> Socket_file created_mode))
    | Some _ \<Rightarrow> Inl (OSError ''Address already in use''))"

definition chmod_socket :: "nat \<Rightarrow> file_system \<Rightarrow> string list \<Rightarrow> failure + file_system" where
  "chmod_socket mode fs p = (case fs p of
      Some (Socket_file _) \<Rightarrow> Inr (fs(p \<mapsto> Socket_file mode))
    | Some _ \<Rightarrow> Inr fs
    | None \<Rightarrow> Inl (OSError ''No such file or directory''))"

text \<open>\<^verbatim>\<open>S_IRUSR | S_IWUSR | S_IRGRP | S_IWGRP\<close>.\<close>

definition SOCKET_MODE :: nat where
  "SOCKET_MODE = 256 + 128 + 32 + 16"

definition start_signer ::
  "nat \<Rightarrow> file_system \<Rightarrow> string \<Rightarrow> string \<Rightarrow> string \<Rightarrow> failure + (signer_service \<times> file_system)"
where
  "start_signer created_mode fs socket_path private_key_b64 kid =
     (case load_service private_key_b64 kid of
        Inl e \<Rightarrow> Inl (Uncaught e)
      | Inr None \<Rightarrow> Inl (SystemExit ''ACS_SIGNER_PRIVATE_KEY must decode to exactly 32 bytes'')
      | Inr (Some service) \<Rightarrow>
          (let path = path_of socket_path in
           bindS (make_parents fs (tl path)) (\<lambda>fs1.
           bindS (if fs1 path \<noteq> None then unlink fs1 path else Inr fs1) (\<lambda>fs2.
           bindS (bind_socket created_mode fs2 path) (\<lambda>fs3.
           bindS (chmod_socket SOCKET_MODE fs3 path) (\<lambda>fs4. Inr (service, fs4)))))))"

text \<open>After SIGINT or SIGTERM: \<^verbatim>\<open>path.unlink(missing_ok=True)\<close>.\<close>

definition stop_signer :: "file_system \<Rightarrow> string \<Rightarrow> failure + file_system" where
  "stop_signer fs socket_path =
     (let path = path_of socket_path in if fs path = None then Inr fs else unlink fs path)"

definition signer_main ::
  "nat \<Rightarrow> file_system \<Rightarrow> (string \<Rightarrow> string option) \<Rightarrow> failure + (signer_service \<times> file_system)"
where
  "signer_main created_mode fs environ =
     (let socket_path = environ ''ACS_SIGNER_SOCKET'';
          private_key = environ ''ACS_SIGNER_PRIVATE_KEY'';
          kid = (case environ ''ACS_SIGNER_KEY_ID'' of None \<Rightarrow> ''signer-1'' | Some k \<Rightarrow> k)
      in if socket_path \<in> {None, Some []} \<or> private_key \<in> {None, Some []}
         then Inl (SystemExit ''ACS_SIGNER_SOCKET and ACS_SIGNER_PRIVATE_KEY are required'')
         else start_signer created_mode fs (the socket_path) (the private_key) kid)"

section \<open>sign_firmware.py\<close>

definition DOMAIN :: string where
  "DOMAIN = ''acs-ota:v1''"

definition ota_text :: "(bytes \<Rightarrow> bytes) \<Rightarrow> string \<Rightarrow> bytes \<Rightarrow> string" where
  "ota_text sha256 version img =
     DOMAIN @ ''|'' @ version @ ''|'' @ nat_digits (length img) @ ''|'' @ b64encode (sha256 img)"

text \<open>
  \<^verbatim>\<open>json.dumps(..., indent=2)\<close> of an object whose values are strings and numbers.
\<close>

definition dumps_indent2 :: "obj \<Rightarrow> string" where
  "dumps_indent2 kvs =
     ''{'' @ CHR 0x0A # ''  '' @
     py_join ('','' @ CHR 0x0A # ''  '') (map (\<lambda>(k, j). quote_str True k @ '': '' @ dumps False True j) kvs) @
     CHR 0x0A # ''}''"

text \<open>
  \<open>content\<close> is that of the image file (\<open>None\<close>: there is no such file), \<open>key_text\<close> the text of
  the key file. The result is the text printed.
\<close>

definition sign_firmware ::
  "(bytes \<Rightarrow> bytes) \<Rightarrow> (bytes \<Rightarrow> bytes \<Rightarrow> bytes) \<Rightarrow> string \<Rightarrow> bytes option \<Rightarrow> string \<Rightarrow> string \<Rightarrow> string
     \<Rightarrow> failure + obj"
where
  "sign_firmware sha256 ed_sign image_path content version url key_text =
     (case content of
        None \<Rightarrow> Inl (SystemExit (''no such image: '' @ image_path))
      | Some img \<Rightarrow>
          (case b64decode True (py_strip key_text) of
             None \<Rightarrow> Inl (Uncaught BinasciiError)
           | Some private_raw \<Rightarrow>
               if length private_raw \<noteq> 32
               then Inl (SystemExit ''the key file must contain exactly 32 base64 encoded bytes'')
               else Inr [(''version'', JStr version), (''url'', JStr url), (''size'', JInt (int (length img))),
                         (''sha256'', JStr (b64encode (sha256 img))),
                         (''signature'', JStr (b64encode (ed_sign private_raw (utf8 (ota_text sha256 version img)))))]))"

definition sign_firmware_output ::
  "(bytes \<Rightarrow> bytes) \<Rightarrow> (bytes \<Rightarrow> bytes \<Rightarrow> bytes) \<Rightarrow> string \<Rightarrow> bytes option \<Rightarrow> string \<Rightarrow> string \<Rightarrow> string
     \<Rightarrow> failure + string"
where
  "sign_firmware_output sha256 ed_sign image_path content version url key_text =
     bindS (sign_firmware sha256 ed_sign image_path content version url key_text) (\<lambda>m. Inr (dumps_indent2 m))"

section \<open>Reading the printed text\<close>

text \<open>
  What the C compiler makes of the line: the bytes of the initialiser between the braces.
\<close>

definition c_element :: "string \<Rightarrow> byte option" where
  "c_element t = (case t of
      [z, x, h, l] \<Rightarrow>
        (if z = CHR ''0'' \<and> x = CHR ''x'' then
           (case (hex_value h, hex_value l) of (Some a, Some b) \<Rightarrow> Some (of_nat (a * 16 + b)) | _ \<Rightarrow> None)
         else None)
    | _ \<Rightarrow> None)"

definition c_array_bytes :: "string \<Rightarrow> bytes option" where
  "c_array_bytes text =
     those (map (\<lambda>e. c_element (py_strip e))
       (py_split (CHR '','') (takeWhile (\<lambda>c. c \<noteq> CHR ''}'') (tl (dropWhile (\<lambda>c. c \<noteq> CHR ''{'') text)))))"

text \<open>An environment file: \<^verbatim>\<open>NAME=value\<close> per line, split at the first \<^verbatim>\<open>=\<close>.\<close>

definition env_line :: "string \<Rightarrow> string \<times> string" where
  "env_line l = (takeWhile (\<lambda>c. c \<noteq> CHR ''='') l, tl (dropWhile (\<lambda>c. c \<noteq> CHR ''='') l))"

definition environ_of :: "string list \<Rightarrow> string \<Rightarrow> string option" where
  "environ_of ls = map_of (map env_line ls)"

lemma hex_upper_code: "k < 16 \<Longrightarrow> (of_char (hex_upper k) :: nat) = (if k < 10 then 48 + k else 55 + k)"
  unfolding hex_upper_def of_char_of by (rule mod_less) auto

lemma hex_value_upper: "k < 16 \<Longrightarrow> hex_value (hex_upper k) = Some k"
proof (cases "k < 10")
  case True
  then show ?thesis by (simp add: hex_value_def hex_upper_code)
next
  case False
  assume "k < 16"
  with False obtain j where "k = 10 + j" "j < 6" using le_Suc_ex [of 10 k] by auto
  then show ?thesis by (simp add: hex_value_def hex_upper_code)
qed

lemma hex_upper_range: "k < 16 \<Longrightarrow> 48 \<le> (of_char (hex_upper k) :: nat) \<and> (of_char (hex_upper k) :: nat) \<le> 70"
  by (auto simp: hex_upper_code)

lemma c_byte_chars: "c \<in> set (c_byte b) \<Longrightarrow> (48 \<le> (of_char c :: nat) \<and> (of_char c :: nat) \<le> 70) \<or> c = CHR ''x''"
  using hex_upper_range [of "unat b div 16"] hex_upper_range [of "unat b mod 16"] byte_div(2) [of b]
  by (auto simp: c_byte_def)

lemma c_byte_clean: "CHR '','' \<notin> set (c_byte b)" "CHR ''}'' \<notin> set (c_byte b)"
  using c_byte_chars [of _ b] by fastforce+

lemma strip_padded:
  assumes "s \<noteq> []" and "\<not> py_isspace (hd s)" and "\<not> py_isspace (last s)"
    and "list_all py_isspace l" and "list_all py_isspace r"
  shows "py_strip (l @ s @ r) = s"
proof -
  have "dropWhile py_isspace (l @ s @ r) = s @ r"
    using assms by (cases s) (auto simp: dropWhile_append2 list_all_iff)
  moreover have "dropWhile py_isspace (rev r) = []" using assms(5) by (simp add: list_all_iff)
  then have "dropWhile py_isspace (rev r @ rev s) = rev s"
    using assms(1,3) by (cases s rule: rev_cases) (simp_all add: dropWhile_append)
  ultimately show ?thesis by (simp add: py_strip_def rstrip_by_def)
qed

lemma c_element_byte:
  assumes "list_all py_isspace l" and "list_all py_isspace r"
  shows "c_element (py_strip (l @ c_byte b @ r)) = Some b"
proof -
  have "\<not> py_isspace (CHR ''0'')" by (simp add: py_isspace_def)
  moreover have "\<not> py_isspace (hex_upper (unat b mod 16))"
    using hex_upper_range [of "unat b mod 16"] by (simp add: py_isspace_def)
  ultimately have "py_strip (l @ c_byte b @ r) = c_byte b"
    by (intro strip_padded) (use assms in \<open>simp_all add: c_byte_def\<close>)
  then show ?thesis
    using hex_value_upper [of "unat b div 16"] hex_value_upper [of "unat b mod 16"] byte_div(2) [of b]
    by (simp add: c_element_def c_byte_def div_mult_mod_eq)
qed

lemma space_isspace [simp]: "py_isspace (CHR '' '')"
  by (simp add: py_isspace_def)

lemma c_elements:
  assumes "list_all py_isspace pre" and "CHR '','' \<notin> set pre"
  shows "those (map (\<lambda>e. c_element (py_strip e)) (py_split (CHR '','') (pre @ py_join '', '' (map c_byte (b # bs)) @ '' '')))
    = Some (b # bs)"
  using assms
proof (induction bs arbitrary: b pre)
  case Nil
  have "CHR '','' \<notin> set (pre @ c_byte b @ '' '')" using Nil c_byte_clean by simp
  moreover have "c_element (py_strip (pre @ c_byte b @ '' '')) = Some b"
    by (rule c_element_byte) (use Nil in simp_all)
  ultimately show ?case by (simp add: py_split_none)
next
  case (Cons c bs)
  let ?rest = "'' '' @ py_join '', '' (map c_byte (c # bs)) @ '' ''"
  have first: "CHR '','' \<notin> set (pre @ c_byte b)" using Cons.prems c_byte_clean by simp
  have "c_element (py_strip (pre @ c_byte b @ [])) = Some b"
    by (rule c_element_byte) (use Cons.prems in simp_all)
  moreover have "those (map (\<lambda>e. c_element (py_strip e)) (py_split (CHR '','') ?rest)) = Some (c # bs)"
    by (rule Cons.IH) simp_all
  moreover have "pre @ py_join '', '' (map c_byte (b # c # bs)) @ '' '' = (pre @ c_byte b) @ CHR '','' # ?rest"
    by simp
  ultimately show ?case using py_split_append [OF first, of ?rest] by (simp del: py_join.simps)
qed

text \<open>
  The line \<^verbatim>\<open>hex_c_array\<close> prints declares exactly the given bytes: read as a C initialiser it gives
  them back.
\<close>

lemma hex_c_array_read:
  assumes "raw \<noteq> []" and "CHR ''{'' \<notin> set name"
  shows "c_array_bytes (hex_c_array raw name) = Some raw"
proof -
  let ?body = "'' '' @ py_join '', '' (map c_byte raw) @ '' ''"
  have digits: "CHR ''{'' \<notin> set (nat_digits (length raw))"
    using nat_digits_digit by (fastforce simp: is_digit_def)
  have clean: "CHR ''}'' \<notin> set ?body"
    using py_join_set [of "'', ''" "map c_byte raw"] c_byte_clean(2) by auto
  have "tl (dropWhile (\<lambda>c. c \<noteq> CHR ''{'') (hex_c_array raw name)) = ?body @ ''};''"
    using assms(2) digits by (simp add: hex_c_array_def dropWhile_append)
  then have inner: "takeWhile (\<lambda>c. c \<noteq> CHR ''}'') (tl (dropWhile (\<lambda>c. c \<noteq> CHR ''{'') (hex_c_array raw name))) = ?body"
    using clean by (simp add: takeWhile_append)
  obtain b bs where "raw = b # bs" using assms(1) by (cases raw) auto
  then show ?thesis
    unfolding c_array_bytes_def inner using c_elements [of "'' ''" b bs] by (simp del: py_join.simps)
qed

section \<open>Starting the signer\<close>

lemma make_parents_run:
  assumes "\<And>p. p \<noteq> [] \<Longrightarrow> suffix p dir \<Longrightarrow> fs p \<in> {None, Some Directory}"
  shows "make_parents fs dir = Inr (\<lambda>p. if p \<noteq> [] \<and> suffix p dir then Some Directory else fs p)"
  using assms
proof (induction dir)
  case (Cons c dir)
  let ?fs = "\<lambda>p. if p \<noteq> [] \<and> suffix p dir then Some Directory else fs p"
  have IH: "make_parents fs dir = Inr ?fs" by (rule Cons.IH) (use Cons.prems in \<open>simp add: suffix_Cons\<close>)
  have "\<not> suffix (c # dir) dir" by (auto dest: suffix_length_le)
  moreover have "fs (c # dir) \<in> {None, Some Directory}" by (rule Cons.prems) simp_all
  moreover have "fs p = Some Directory" if "?fs p = Some Directory" "\<not> suffix p dir" for p
    using that by (simp split: if_splits)
  ultimately show ?case using IH by (auto simp: suffix_Cons fun_eq_iff split: option.splits)
qed auto

definition socket_place_free :: "file_system \<Rightarrow> string list \<Rightarrow> bool" where
  "socket_place_free fs path \<longleftrightarrow> path \<noteq> [] \<and> fs path \<noteq> Some Directory \<and>
     list_all (\<lambda>n. fs (drop n path) \<in> {None, Some Directory}) [1..<length path]"

lemma socket_place_parents:
  assumes "socket_place_free fs path" and "p \<noteq> []" and "suffix p (tl path)"
  shows "fs p \<in> {None, Some Directory}"
proof -
  obtain n where n: "p = drop n (tl path)" using assms(3) by (metis suffix_take append_take_drop_id same_append_eq suffix_def)
  then have "p = drop (Suc n) path" by (simp add: drop_Suc)
  moreover have "Suc n < length path" using assms(2) calculation by (metis drop_eq_Nil not_le)
  ultimately show ?thesis using assms(1) by (auto simp: socket_place_free_def list_all_iff)
qed

lemma start_signer_run:
  assumes "socket_place_free fs (path_of sock)" and "length key = 32"
  shows "start_signer m fs sock (b64encode key) kid = Inr (\<lparr>private_key = key, key_id = kid\<rparr>,
    (\<lambda>p. if p \<noteq> [] \<and> suffix p (tl (path_of sock)) then Some Directory else fs p)(path_of sock \<mapsto> Socket_file SOCKET_MODE))"
proof -
  let ?path = "path_of sock"
  have mk: "make_parents fs (tl ?path) = Inr (\<lambda>p. if p \<noteq> [] \<and> suffix p (tl ?path) then Some Directory else fs p)"
    by (rule make_parents_run) (rule socket_place_parents [OF assms(1)])
  have ne: "?path \<noteq> []" using assms(1) by (simp add: socket_place_free_def)
  then have "\<not> suffix ?path (tl ?path)" using suffix_length_le [of ?path "tl ?path"] by (cases ?path) auto
  moreover have "fs ?path \<noteq> Some Directory" using assms(1) by (simp add: socket_place_free_def)
  ultimately show ?thesis
    using assms(2) mk ne
    by (auto simp: start_signer_def load_service_def b64decode_b64encode Let_def unlink_def bind_socket_def chmod_socket_def
        fun_eq_iff split: option.splits node.splits)
qed

lemma client_public_key_signer:
  "client_public_key (signer_socket_of ed_public ed_sign svc) = Inr (ed_public (private_key svc), JStr (key_id svc))"
proof -
  have "length (encode_request [(''op'', JStr ''public_key'')]) \<le> 100" by code_simp
  then have "\<not> MAX_LINE_BYTES < length (encode_request [(''op'', JStr ''public_key'')])"
    by (simp add: MAX_LINE_BYTES_def)
  then have "client_request (signer_socket_of ed_public ed_sign svc) [(''op'', JStr ''public_key'')] =
      Inr (signer_handle ed_public ed_sign svc [(''op'', JStr ''public_key'')])"
    by (subst client_request_signer) simp_all
  then show ?thesis
    by (simp add: client_public_key_def signer_handle_def response_ok_def response_pair_def obj_get_def
        public_key_b64_def b64decode_b64encode)
qed

lemma keygen_environ:
  assumes "env = environ_of (keygen_main False key public beacon)"
  shows "env ''ACS_SIGNER_PRIVATE_KEY'' = Some (b64encode key)" and "env ''ACS_SIGNER_PUBLIC_KEY'' = Some (b64encode public)"
    and "env ''ACS_SIGNER_KEY_ID'' = None"
  unfolding assms by (simp_all add: environ_of_def keygen_main_def env_line_def hex_c_array_def)

lemma signer_main_keygen:
  assumes "length key = 32" and "socket_place_free fs (path_of sock)"
  shows "signer_main created fs ((environ_of (keygen_main False key public beacon))(''ACS_SIGNER_SOCKET'' \<mapsto> sock)) =
    Inr (\<lparr>private_key = key, key_id = ''signer-1''\<rparr>,
      (\<lambda>p. if p \<noteq> [] \<and> suffix p (tl (path_of sock)) then Some Directory else fs p)(path_of sock \<mapsto> Socket_file SOCKET_MODE))"
proof -
  have "sock \<noteq> []" using assms(2) by (auto simp: socket_place_free_def path_of_def)
  moreover have "b64encode key \<noteq> []" using b64decode_b64encode [of True key] assms(1) by (auto simp: b64decode_def)
  ultimately show ?thesis
    using keygen_environ [OF refl, of key public beacon] start_signer_run [OF assms(2,1)] by (simp add: signer_main_def)
qed

text \<open>
  A signer started from what \<^verbatim>\<open>keygen\<close> printed comes up and is the signer the firmware was
  built for: with the printed lines as its environment and a usable place for the socket, \<^verbatim>\<open>main\<close> starts
  a service that holds the generated key, behind a socket file only its user and group can open; asked
  over that socket it answers the public key that the printed C array declares; and stopping it removes
  the socket file and nothing else.
\<close>

theorem keygen_starts_signer:
  assumes "length key = 32" and "ed_public key \<noteq> []" and "socket_place_free fs (path_of sock)"
  shows "\<exists>svc fs'.
      signer_main created fs ((environ_of (keygen_main False key (ed_public key) beacon))(''ACS_SIGNER_SOCKET'' \<mapsto> sock))
        = Inr (svc, fs')
    \<and> private_key svc = key \<and> fs' (path_of sock) = Some (Socket_file 432)
    \<and> client_public_key (signer_socket_of ed_public ed_sign svc) = Inr (ed_public key, JStr ''signer-1'')
    \<and> c_array_bytes (last (keygen_main False key (ed_public key) beacon)) = Some (ed_public key)
    \<and> stop_signer fs' sock = Inr (fs'(path_of sock := None))"
proof -
  have "c_array_bytes (last (keygen_main False key (ed_public key) beacon)) = Some (ed_public key)"
    using assms(2) by (simp add: keygen_main_def hex_c_array_read)
  then show ?thesis
    using signer_main_keygen [OF assms(1,3)]
    by (simp add: client_public_key_signer stop_signer_def unlink_def SOCKET_MODE_def Let_def)
qed

theorem keygen_starts_signer_witness:
  "\<exists>svc fs'.
      signer_main 511 (\<lambda>p. if p = [] then Some Directory else None)
        ((environ_of (keygen_main False (replicate 32 7) (replicate 32 7) []))(''ACS_SIGNER_SOCKET'' \<mapsto> ''/run/acs/s.sock''))
        = Inr (svc, fs')
    \<and> private_key svc = replicate 32 7 \<and> fs' (path_of ''/run/acs/s.sock'') = Some (Socket_file 432)
    \<and> client_public_key (signer_socket_of id (\<lambda>k m. k @ m) svc) = Inr (replicate 32 7, JStr ''signer-1'')
    \<and> c_array_bytes (last (keygen_main False (replicate 32 7) (replicate 32 7) [])) = Some (replicate 32 7)
    \<and> stop_signer fs' ''/run/acs/s.sock'' = Inr (fs'(path_of ''/run/acs/s.sock'' := None))"
proof -
  have "path_of ''/run/acs/s.sock'' = [''s.sock'', ''acs'', ''run'']" by (simp add: path_of_def)
  then have "socket_place_free (\<lambda>p. if p = [] then Some Directory else None) (path_of ''/run/acs/s.sock'')"
    by (simp add: socket_place_free_def upt_rec)
  from keygen_starts_signer [of "replicate 32 7" id, OF _ _ this, of 511 "[]" "\<lambda>k m. k @ m"]
  show ?thesis by (simp only: id_apply length_replicate) simp
qed

section \<open>The signed manifest\<close>

lemma last_field:
  assumes "d \<notin> set ys" and "d \<notin> set ys'"
  shows "xs @ d # ys = xs' @ d # ys' \<longleftrightarrow> xs = xs' \<and> ys = ys'"
proof
  assume eq: "xs @ d # ys = xs' @ d # ys'"
  have tail: "takeWhile (\<lambda>c. c \<noteq> d) (rev (us @ d # vs)) = rev vs" if "d \<notin> set vs" for us vs
    using that by (simp add: takeWhile_append)
  have "ys = ys'" using tail [OF assms(1), of xs] tail [OF assms(2), of xs'] eq by simp
  with eq show "xs = xs' \<and> ys = ys'" by simp
qed simp

lemma b64encode_no_bar: "CHR ''|'' \<notin> set (b64encode bs)"
proof
  assume "CHR ''|'' \<in> set (b64encode bs)"
  then obtain k where k: "k < 64" "CHR ''|'' = b64_std k" using std.encode_chars [of bs] by (auto simp: b64encode_def)
  have "b64_std_value (CHR ''|'') = Some k" unfolding k(2) by (rule std.val_al [OF k(1)])
  then show False by (simp add: b64_std_value_def b64_value_def)
qed

lemma digits_no_bar: "CHR ''|'' \<notin> set (nat_digits n)"
  using nat_digits_digit by (fastforce simp: is_digit_def)

text \<open>
  The signature of a firmware manifest covers the version, the size and the hash together:
  the signed bytes of two images are equal exactly when version, size and hash are, whatever
  characters the version string contains.
\<close>

theorem ota_signature_covers:
  "utf8 (ota_text sha256 version img) = utf8 (ota_text sha256 version' img') \<longleftrightarrow>
     version = version' \<and> length img = length img' \<and> sha256 img = sha256 img'"
proof -
  have size: "nat_digits m = nat_digits n \<longleftrightarrow> m = n" for m n by (metis digits_value_nat_digits)
  have hash: "b64encode a = b64encode b \<longleftrightarrow> a = b" for a b by (metis b64decode_b64encode option.inject)
  show ?thesis
    unfolding utf8_inj ota_text_def
    using last_field [OF b64encode_no_bar b64encode_no_bar, of "version @ ''|'' @ nat_digits (length img)"
        "sha256 img" "version' @ ''|'' @ nat_digits (length img')" "sha256 img'"]
      last_field [OF digits_no_bar digits_no_bar, of version "length img" version' "length img'"]
    by (auto simp: size hash)
qed

text \<open>
  The manifest that is printed carries the signature over exactly that text, and one is printed
  exactly for an existing image and a key file of 32 base64 encoded bytes.
\<close>

lemma sign_firmware_iff:
  "sign_firmware sha256 ed_sign path content version url key_text = Inr m \<longleftrightarrow>
     (\<exists>img key. content = Some img \<and> b64decode True (py_strip key_text) = Some key \<and> length key = 32 \<and>
        m = [(''version'', JStr version), (''url'', JStr url), (''size'', JInt (int (length img))),
             (''sha256'', JStr (b64encode (sha256 img))),
             (''signature'', JStr (b64encode (ed_sign key (utf8 (ota_text sha256 version img)))))])"
  by (auto simp: sign_firmware_def split: option.splits)

end
