(* ===== verification/Partitions.thy ===== *)
theory Partitions
  imports Audit_Chain
begin

text \<open>
  The monthly partitions of the audit table: \<^verbatim>\<open>backend/db/migrations/004_audit_log.sql\<close> and the first
  statement of the trigger in \<^verbatim>\<open>005_audit_chain.sql\<close>. A month is its number, twelve to a year;
  \<open>month_of\<close> is the calendar month of an instant. PostgreSQL routes a row to its partition first and
  then fires the row triggers of that partition, so a row no partition accepts is an error before
  the trigger runs.
\<close>

record audit_table =
  t_partitions :: "int list"
  t_rows :: "audit_row list"

definition empty_table :: audit_table where
  "empty_table = \<lparr>t_partitions = [], t_rows = []\<rparr>"

definition ensure_audit_partition :: "int \<Rightarrow> audit_table \<Rightarrow> audit_table" where
  "ensure_audit_partition month t =
     (if month \<in> set (t_partitions t) then t else t\<lparr>t_partitions := t_partitions t @ [month]\<rparr>)"

text \<open>\<^verbatim>\<open>FOR i IN 0 .. greatest(p_months - 1, 0)\<close>, with \<open>today\<close> the month of \<^verbatim>\<open>current_date\<close>.\<close>

definition ensure_audit_partitions_ahead :: "int \<Rightarrow> int \<Rightarrow> audit_table \<Rightarrow> audit_table" where
  "ensure_audit_partitions_ahead today p_months t =
     fold (\<lambda>i. ensure_audit_partition (today + i)) [0..max (p_months - 1) 0] t"

definition insert_audit_row ::
  "(instant \<Rightarrow> int) \<Rightarrow> (bytes \<Rightarrow> bytes) \<Rightarrow> pg_text \<Rightarrow> audit_row \<Rightarrow> audit_table \<Rightarrow> exn + audit_table"
where
  "insert_audit_row month_of sha pg new t =
     (if month_of (a_occurred_at new) \<notin> set (t_partitions t)
      then Inl (DatabaseError ''no partition of relation audit_log found for row'')
      else let t' = ensure_audit_partition (month_of (a_occurred_at new)) t
           in Inr (t'\<lparr>t_rows := t_rows t' @ [audit_hash_chain sha pg (t_rows t') new]\<rparr>))"

text \<open>A history of the table: runs of the partition job and inserts, in any order.\<close>

datatype table_event = Partition_job int int | Insert_row audit_row

fun table_step ::
  "(instant \<Rightarrow> int) \<Rightarrow> (bytes \<Rightarrow> bytes) \<Rightarrow> pg_text \<Rightarrow> table_event \<Rightarrow> audit_table \<Rightarrow> audit_table"
where
  "table_step month_of sha pg (Partition_job today months) t = ensure_audit_partitions_ahead today months t"
| "table_step month_of sha pg (Insert_row r) t =
     (case insert_audit_row month_of sha pg r t of Inl _ \<Rightarrow> t | Inr t' \<Rightarrow> t')"

definition table_after ::
  "(instant \<Rightarrow> int) \<Rightarrow> (bytes \<Rightarrow> bytes) \<Rightarrow> pg_text \<Rightarrow> table_event list \<Rightarrow> audit_table"
where
  "table_after month_of sha pg evs = fold (table_step month_of sha pg) evs empty_table"

lemma ensure_partition_set [simp]:
  "set (t_partitions (ensure_audit_partition m t)) = insert m (set (t_partitions t))"
  by (auto simp: ensure_audit_partition_def)

lemma fold_ensure_set:
  "set (t_partitions (fold (\<lambda>i. ensure_audit_partition (k + i)) is t)) = set (t_partitions t) \<union> (+) k ` set is"
  by (induction "is" arbitrary: t) auto

lemma ahead_set:
  "m \<in> set (t_partitions (ensure_audit_partitions_ahead today n t)) \<longleftrightarrow>
     m \<in> set (t_partitions t) \<or> today \<le> m \<and> m < today + max n 1"
proof -
  have "m \<in> (+) today ` {0..max (n - 1) 0} \<longleftrightarrow> today \<le> m \<and> m < today + max n 1" by auto
  then show ?thesis unfolding ensure_audit_partitions_ahead_def fold_ensure_set by auto
qed

lemma insert_keeps_partitions:
  "insert_audit_row month_of sha pg r t = Inr t' \<Longrightarrow> set (t_partitions t') = set (t_partitions t)"
  by (auto simp: insert_audit_row_def Let_def split: if_splits)

lemma step_partitions:
  "m \<in> set (t_partitions (table_step month_of sha pg ev t)) \<longleftrightarrow>
     m \<in> set (t_partitions t) \<or> (\<exists>today n. ev = Partition_job today n \<and> today \<le> m \<and> m < today + max n 1)"
  by (cases ev) (auto simp: ahead_set dest: insert_keeps_partitions split: sum.splits)

lemma fold_partitions:
  "m \<in> set (t_partitions (fold (table_step month_of sha pg) evs t)) \<longleftrightarrow>
     m \<in> set (t_partitions t) \<or> (\<exists>today n. Partition_job today n \<in> set evs \<and> today \<le> m \<and> m < today + max n 1)"
  by (induction evs arbitrary: t) (auto simp: step_partitions)

text \<open>
  Claim C40. Whatever was inserted before, a row of the audit log is accepted exactly when some run of
  the partition job covered its month; a refused row is the database's error and is not stored. So
  creating the partition from the trigger never helps: with the last run of the job (two months
  ahead) in some month, every event from the second month after it on is refused.
\<close>

theorem audit_row_needs_partition_job:
  "(\<exists>t'. insert_audit_row month_of sha pg r (table_after month_of sha pg evs) = Inr t') \<longleftrightarrow>
     (\<exists>today n. Partition_job today n \<in> set evs \<and> today \<le> month_of (a_occurred_at r) \<and>
        month_of (a_occurred_at r) < today + max n 1)"
proof -
  have "(\<exists>t'. insert_audit_row month_of sha pg r t = Inr t') \<longleftrightarrow> month_of (a_occurred_at r) \<in> set (t_partitions t)" for t
    by (simp add: insert_audit_row_def Let_def)
  then show ?thesis by (simp add: table_after_def fold_partitions empty_table_def)
qed

end
