(* ===== verification/Startup.thy ===== *)
theory Startup
  imports Admin
begin

text \<open>
  How the two applications come up and go down: the connection pools
  (\<^verbatim>\<open>backend/app/db/pool.py\<close>), the wiring of the services (\<^verbatim>\<open>Services.build\<close> in
  \<^verbatim>\<open>backend/app/api/deps.py\<close>), the lifespans and the application objects of \<^verbatim>\<open>backend/app/main.py\<close> and
  \<^verbatim>\<open>backend/admin/main.py\<close>, and the cached settings of \<^verbatim>\<open>config.py\<close>. asyncpg is a parameter: which pools
  it opens and which it closes without raising.
\<close>

section \<open>db/pool.py\<close>

record pool_request =
  pq_dsn :: string
  pq_min_size :: int
  pq_max_size :: int
  pq_server_settings :: "(string \<times> string) list"

record driver =
  create_error :: "pool_request \<Rightarrow> exn option"
  close_error :: "nat \<Rightarrow> exn option"

text \<open>
  The process: every pool ever opened (a pool is its position in the list), the pools closed so far,
  the two attributes of the \<^verbatim>\<open>Database\<close> object and what was logged.
\<close>

record process =
  opened :: "pool_request list"
  closed :: "nat list"
  app_pool :: "nat option"
  aud_pool :: "nat option"
  log_lines :: "string list"

type_synonym 'a proc = "(process, exn, 'a) comp"

definition new_process :: process where
  "new_process = \<lparr>opened = [], closed = [], app_pool = None, aud_pool = None, log_lines = []\<rparr>"

definition create_pool :: "driver \<Rightarrow> pool_request \<Rightarrow> nat proc" where
  "create_pool drv rq =
     (case create_error drv rq of
        Some e \<Rightarrow> throw e
      | None \<Rightarrow>
          bindE (gets (\<lambda>p. length (opened p))) (\<lambda>n.
          bindE (puts (\<lambda>p. p\<lparr>opened := opened p @ [rq]\<rparr>)) (\<lambda>_. ret n)))"

definition close_pool :: "driver \<Rightarrow> nat \<Rightarrow> unit proc" where
  "close_pool drv n =
     (case close_error drv n of Some e \<Rightarrow> throw e | None \<Rightarrow> puts (\<lambda>p. p\<lparr>closed := closed p @ [n]\<rparr>))"

definition server_settings :: "settings \<Rightarrow> string \<Rightarrow> (string \<times> string) list" where
  "server_settings st name =
     [(''application_name'', name), (''statement_timeout'', py_str_int (db_statement_timeout st * 1000))]"

definition app_pool_request :: "settings \<Rightarrow> pool_request" where
  "app_pool_request st = \<lparr>pq_dsn = db_dsn st, pq_min_size = db_pool_min st, pq_max_size = db_pool_max st,
     pq_server_settings = server_settings st ''acs-api''\<rparr>"

definition audit_pool_request :: "settings \<Rightarrow> pool_request" where
  "audit_pool_request st = \<lparr>pq_dsn = audit_dsn st, pq_min_size = 1, pq_max_size = max 2 (db_pool_max st div 2),
     pq_server_settings = server_settings st ''acs-audit''\<rparr>"

definition connect :: "driver \<Rightarrow> settings \<Rightarrow> unit proc" where
  "connect drv st =
     bindE (create_pool drv (app_pool_request st)) (\<lambda>a.
     bindE (puts (\<lambda>p. p\<lparr>app_pool := Some a\<rparr>)) (\<lambda>_.
     if audit_dsn st = db_dsn st then puts (\<lambda>p. p\<lparr>aud_pool := app_pool p\<rparr>)
     else bindE (create_pool drv (audit_pool_request st)) (\<lambda>b. puts (\<lambda>p. p\<lparr>aud_pool := Some b\<rparr>))))"

definition close :: "driver \<Rightarrow> unit proc" where
  "close drv =
     bindE (gets (\<lambda>p. (app_pool p, aud_pool p))) (\<lambda>(a, b).
     bindE (case b of Some n \<Rightarrow> if b \<noteq> a then close_pool drv n else ret () | None \<Rightarrow> ret ()) (\<lambda>_.
     bindE (case a of Some n \<Rightarrow> close_pool drv n | None \<Rightarrow> ret ()) (\<lambda>_.
     puts (\<lambda>p. p\<lparr>app_pool := None, aud_pool := None\<rparr>))))"

definition pool_of :: "process \<Rightarrow> exn + nat" where
  "pool_of p = (case app_pool p of None \<Rightarrow> Inl (RuntimeError ''database pool is not connected'') | Some n \<Rightarrow> Inr n)"

definition audit_pool_of :: "process \<Rightarrow> exn + nat" where
  "audit_pool_of p = (case aud_pool p of None \<Rightarrow> Inl (RuntimeError ''audit pool is not connected'') | Some n \<Rightarrow> Inr n)"

section \<open>Services.build\<close>

record signer_client =
  sc_socket_path :: string
  sc_timeout_ms :: int

definition from_settings :: "settings \<Rightarrow> signer_client" where
  "from_settings st = \<lparr>sc_socket_path = signer_socket st, sc_timeout_ms = signer_timeout_ms st\<rparr>"

text \<open>Every repository is the pool it was given; \<open>'h\<close> stands for the controller hub.\<close>

record 'h services =
  sv_settings :: settings
  sv_users :: nat
  sv_devices :: nat
  sv_enrollments :: nat
  sv_doors :: nat
  sv_permissions :: nat
  sv_controllers :: nat
  sv_tokens :: nat
  sv_audit :: nat
  sv_limiter :: nat
  sv_signer :: signer_client
  sv_hub :: 'h

definition build ::
  "'h \<Rightarrow> settings \<Rightarrow> process \<Rightarrow> 'h option \<Rightarrow> signer_client option \<Rightarrow> exn + 'h services"
where
  "build default_hub st db hb signer =
     bindS (pool_of db) (\<lambda>pool.
     bindS (audit_pool_of db) (\<lambda>audit_repo.
     Inr \<lparr>sv_settings = st, sv_users = pool, sv_devices = pool, sv_enrollments = pool, sv_doors = pool,
          sv_permissions = pool, sv_controllers = pool, sv_tokens = pool, sv_audit = audit_repo, sv_limiter = pool,
          sv_signer = (case signer of None \<Rightarrow> from_settings st | Some s \<Rightarrow> s),
          sv_hub = (case hb of None \<Rightarrow> default_hub | Some h \<Rightarrow> h)\<rparr>))"

section \<open>Lifespans\<close>

fun env_text :: "env_name \<Rightarrow> string" where
  "env_text Production = ''production''"
| "env_text Development = ''development''"
| "env_text Test = ''test''"

definition log_line :: "string \<Rightarrow> unit proc" where
  "log_line l = puts (\<lambda>p. p\<lparr>log_lines := log_lines p @ [l]\<rparr>)"

text \<open>
  \<open>served\<close> is how serving ended: normally, or with the exception the server threw into the context
  manager. Connecting and building come before the \<^verbatim>\<open>try\<close>.
\<close>

definition lifespan :: "driver \<Rightarrow> 'h \<Rightarrow> settings \<Rightarrow> ('h services \<Rightarrow> exn + unit) \<Rightarrow> unit proc" where
  "lifespan drv default_hub st served =
     bindE (connect drv st) (\<lambda>_.
     bindE (gets (\<lambda>p. build default_hub st p None None)) (\<lambda>r.
     bindE (liftE r) (\<lambda>services.
     bindE (log_line (''api started, env='' @ env_text (env st))) (\<lambda>_.
     finallyE (liftE (served services)) (close drv)))))"

definition admin_lifespan :: "driver \<Rightarrow> 'h \<Rightarrow> settings \<Rightarrow> ('h services \<Rightarrow> exn + unit) \<Rightarrow> unit proc" where
  "admin_lifespan drv default_hub st served =
     bindE (if \<not> loopback_only st
            then log_line (''admin app is bound to '' @ admin_host st @ '', which is not loopback. '' @
                   ''This app can grant door access and read the whole audit trail.'')
            else ret ()) (\<lambda>_.
     bindE (connect drv st) (\<lambda>_.
     bindE (gets (\<lambda>p. build default_hub st p None None)) (\<lambda>r.
     bindE (liftE r) (\<lambda>services. finallyE (liftE (served services)) (close drv)))))"

section \<open>Application objects\<close>

record application =
  ap_title :: string
  ap_version :: string
  ap_docs_url :: "string option"
  ap_redoc_url :: "string option"
  ap_openapi_url :: "string option"
  ap_routes :: "(string \<times> string) list"

definition auth_routes :: "(string \<times> string) list" where
  "auth_routes = [(''POST'', ''/api/v1/auth/enroll/challenge''), (''POST'', ''/api/v1/auth/enroll''),
     (''POST'', ''/api/v1/auth/login''), (''POST'', ''/api/v1/auth/refresh''), (''POST'', ''/api/v1/auth/logout'')]"

definition doors_routes :: "(string \<times> string) list" where
  "doors_routes = [(''GET'', ''/api/v1/doors''), (''POST'', ''/api/v1/doors/{door_id}/unlock''),
     (''GET'', ''/api/v1/me/access-history'')]"

definition health_routes :: "(string \<times> string) list" where
  "health_routes = [(''GET'', ''/health''), (''GET'', ''/health/ready'')]"

definition controller_routes :: "(string \<times> string) list" where
  "controller_routes = [(''WEBSOCKET'', ''/ws/controller'')]"

definition admin_routes :: "(string \<times> string) list" where
  "admin_routes = [(''GET'', ''/admin/v1/audit''), (''GET'', ''/admin/v1/audit/verify''),
     (''GET'', ''/admin/v1/controllers''), (''POST'', ''/admin/v1/controllers''),
     (''POST'', ''/admin/v1/controllers/{controller_id}/block''), (''POST'', ''/admin/v1/doors''),
     (''POST'', ''/admin/v1/permissions'')]"

definition create_app :: "settings \<Rightarrow> application" where
  "create_app st = \<lparr>ap_title = ''Evtimov Doors Control System'', ap_version = VERSION,
     ap_docs_url = (if env st \<noteq> Production then Some ''/docs'' else None), ap_redoc_url = None,
     ap_openapi_url = (if env st \<noteq> Production then Some ''/openapi.json'' else None),
     ap_routes = auth_routes @ doors_routes @ health_routes @ controller_routes\<rparr>"

text \<open>The body of \<^verbatim>\<open>GET /health\<close>.\<close>

definition health :: "(string \<times> string) list" where
  "health = [(''status'', ''ok'')]"

text \<open>A network in the list that cannot be read makes building the application fail. FastAPI's default for \<^verbatim>\<open>redoc_url\<close> is \<^verbatim>\<open>/redoc\<close>.\<close>

definition create_admin_app :: "settings \<Rightarrow> exn + application" where
  "create_admin_app st =
     bindS (admin_networks st) (\<lambda>_.
     Inr \<lparr>ap_title = ''Evtimov Doors Control System - admin'', ap_version = ''1.0.0'',
       ap_docs_url = Some ''/docs'', ap_redoc_url = Some ''/redoc'', ap_openapi_url = Some ''/openapi.json'',
       ap_routes = admin_routes\<rparr>)"

section \<open>Cached settings\<close>

text \<open>
  \<^verbatim>\<open>lru_cache(maxsize=1)\<close> on a function without arguments: the first result is kept, an exception is not.
  \<open>read\<close> is what \<^verbatim>\<open>Settings()\<close> makes of the environment at the time of the call.
\<close>

definition get_settings :: "exn + settings \<Rightarrow> settings option \<Rightarrow> (exn + settings) \<times> settings option" where
  "get_settings read cache =
     (case cache of
        Some st \<Rightarrow> (Inr st, cache)
      | None \<Rightarrow> (case read of Inl e \<Rightarrow> (Inl e, None) | Inr st \<Rightarrow> (Inr st, Some st)))"

definition reset_settings_cache :: "settings option \<Rightarrow> settings option" where
  "reset_settings_cache cache = None"

section \<open>Wiring and release\<close>

definition released :: "process \<Rightarrow> bool" where
  "released p \<longleftrightarrow> distinct (closed p) \<and> set (closed p) = {..<length (opened p)} \<and> app_pool p = None \<and> aud_pool p = None"

definition pools_available :: "driver \<Rightarrow> settings \<Rightarrow> bool" where
  "pools_available drv st \<longleftrightarrow> create_error drv (app_pool_request st) = None \<and>
     (audit_dsn st \<noteq> db_dsn st \<longrightarrow> create_error drv (audit_pool_request st) = None)"

definition connected :: "settings \<Rightarrow> process \<Rightarrow> process" where
  "connected st p =
     (if audit_dsn st = db_dsn st
      then p\<lparr>opened := opened p @ [app_pool_request st], app_pool := Some (length (opened p)), aud_pool := Some (length (opened p))\<rparr>
      else p\<lparr>opened := opened p @ [app_pool_request st, audit_pool_request st], app_pool := Some (length (opened p)),
             aud_pool := Some (Suc (length (opened p)))\<rparr>)"

lemma connect_run: "pools_available drv st \<Longrightarrow> connect drv st p = (Inr (), connected st p)"
  by (auto simp: pools_available_def connect_def create_pool_def connected_def comp_simps)

definition wired :: "settings \<Rightarrow> process \<Rightarrow> 'h services \<Rightarrow> bool" where
  "wired st p sv \<longleftrightarrow> sv_settings sv = st \<and> sv_signer sv = from_settings st \<and>
     (\<forall>n \<in> {sv_users sv, sv_devices sv, sv_enrollments sv, sv_doors sv, sv_permissions sv, sv_controllers sv,
             sv_tokens sv, sv_limiter sv}. n < length (opened p) \<and> pq_dsn (opened p ! n) = db_dsn st) \<and>
     sv_audit sv < length (opened p) \<and> pq_dsn (opened p ! sv_audit sv) = audit_dsn st"

lemma build_wired: "\<exists>sv. build hb st (connected st p) None None = Inr sv \<and> wired st (connected st p) sv"
  by (auto simp: build_def pool_of_def audit_pool_of_def connected_def wired_def app_pool_request_def audit_pool_request_def
      nth_append)

lemma close_connected:
  assumes "\<And>n. close_error drv n = None"
  shows "\<exists>p'. close drv (connected st new_process\<lparr>log_lines := l\<rparr>) = (Inr (), p') \<and> released p' \<and>
    opened p' = opened (connected st new_process)"
  using assms by (auto simp: close_def connected_def new_process_def close_pool_def comp_simps released_def lessThan_Suc)

text \<open>
  When the driver can open the pools and closes them without an error, the lifespan of the API
  runs its body with every repository on a pool of the application's database role and the audit log on a
  pool of the audit role, and however the body ends, every pool that was opened has been closed exactly
  once and the outcome of the body is passed on.
\<close>

theorem lifespan_releases_pools:
  assumes "pools_available drv st" and "\<And>n. close_error drv n = None"
  shows "\<exists>sv p'. lifespan drv hb st served new_process = (served sv, p') \<and> wired st p' sv \<and> released p'"
proof -
  let ?p = "connected st new_process"
  obtain sv where sv: "build hb st ?p None None = Inr sv" "wired st ?p sv"
    using build_wired [of hb st new_process] by blast
  let ?l = "log_lines ?p @ [''api started, env='' @ env_text (env st)]"
  obtain p' where p': "close drv (?p\<lparr>log_lines := ?l\<rparr>) = (Inr (), p')" "released p'" "opened p' = opened ?p"
    using close_connected [OF assms(2)] by blast
  have "lifespan drv hb st served new_process = (served sv, p')"
    using connect_run [OF assms(1)] sv(1) p'(1) by (simp add: lifespan_def log_line_def comp_simps)
  moreover have "wired st p' sv" using sv(2) p'(3) by (simp add: wired_def)
  ultimately show ?thesis using p'(2) by blast
qed

theorem lifespan_releases_pools_witness:
  "\<exists>(sv :: unit services) p'. lifespan \<lparr>create_error = \<lambda>_. None, close_error = \<lambda>_. None\<rparr> () (default_settings\<lparr>audit_db_dsn := ''audit''\<rparr>)
       (\<lambda>_. Inl TypeError) new_process = (Inl TypeError, p') \<and> wired (default_settings\<lparr>audit_db_dsn := ''audit''\<rparr>) p' sv \<and> released p'"
proof -
  have "pools_available \<lparr>create_error = \<lambda>_. None, close_error = \<lambda>_. None\<rparr> (default_settings\<lparr>audit_db_dsn := ''audit''\<rparr>)"
    by (simp add: pools_available_def)
  from lifespan_releases_pools [OF this, of "()" "\<lambda>_. Inl TypeError"] show ?thesis by auto
qed

text \<open>
  Connecting happens before the \<^verbatim>\<open>try\<close>: when the pool of the audit role cannot be opened, the pool of
  the application stays open and nothing closes it.
\<close>

theorem audit_pool_failure_leaks:
  assumes "create_error drv (app_pool_request st) = None" and "audit_dsn st \<noteq> db_dsn st"
    and "create_error drv (audit_pool_request st) = Some e"
  shows "lifespan drv hb st served new_process =
    (Inl e, new_process\<lparr>opened := [app_pool_request st], app_pool := Some 0\<rparr>)"
  using assms by (simp add: lifespan_def connect_def create_pool_def new_process_def comp_simps)

text \<open>The settings in force are those of the first call until the cache is reset.\<close>

lemma get_settings_cached:
  "get_settings read cache = (Inr st, cache') \<Longrightarrow> get_settings read' cache' = (Inr st, cache')"
  by (auto simp: get_settings_def split: option.splits sum.splits)

text \<open>In production neither the interactive documentation nor the schema is served.\<close>

lemma production_hides_schema:
  "ap_docs_url (create_app st) = None \<and> ap_openapi_url (create_app st) = None \<longleftrightarrow> env st = Production"
  by (simp add: create_app_def)

end
