(* ===== verification/Grants.thy ===== *)
theory Grants
  imports Startup
begin

text \<open>
  Who may do what in the database: the roles and grants of
  \<^verbatim>\<open>backend/db/migrations/006_grants.sql\<close>, the grants on a new monthly partition
  (\<^verbatim>\<open>004_audit_log.sql\<close>), and which privileges every statement of the repositories under
  \<^verbatim>\<open>backend/app/db/repositories\<close> needs. A statement runs with the role its pool logs in as;
  \<open>role_of\<close>, the role a DSN names, is a parameter.
\<close>

section \<open>Privileges\<close>

datatype db_role = Public | Acs_migrate | Acs_app | Acs_audit

datatype db_table = Users | Devices | Enrollment_codes | Controllers | Doors | Permissions | Tokens | Failed_attempts
  | Audit_log | Schema_migrations

datatype db_sequence = Failed_attempts_id_seq | Audit_seq

datatype db_function = Audit_genesis_hash | Audit_chain_lock_key | Audit_payload | Verify_audit_chain | Audit_chain_head
  | Ensure_audit_partition | Ensure_audit_partitions_ahead | Audit_hash_chain | Deny_mutation | Deny_truncate

datatype db_object = Schema_acs | Table db_table | Partition int | Seq db_sequence | Func db_function

datatype privilege = Select | Insert | Update | Delete | Truncate | Usage | Execute | Create

datatype object_set = Only "db_object list" | All_tables | All_sequences | All_functions

fun covers :: "object_set \<Rightarrow> db_object \<Rightarrow> bool" where
  "covers (Only obs) ob = (ob \<in> set obs)"
| "covers All_tables (Table _) = True"
| "covers All_tables (Partition _) = True"
| "covers All_sequences (Seq _) = True"
| "covers All_functions (Func _) = True"
| "covers _ _ = False"

type_synonym acl_entry = "db_role \<times> db_object \<times> privilege"

record privileges =
  acl :: "acl_entry list"
  default_acl :: "(db_role \<times> privilege) list"

datatype acl_statement =
    Grant "privilege list" "db_object list" "db_role list"
  | Revoke "privilege list" object_set "db_role list"
  | Default_grant "privilege list" "db_role list"
  | Default_revoke "privilege list" "db_role list"

definition granted :: "privilege list \<Rightarrow> db_object list \<Rightarrow> db_role list \<Rightarrow> acl_entry list" where
  "granted ps obs rs = concat (map (\<lambda>r. concat (map (\<lambda>ob. map (\<lambda>p. (r, ob, p)) ps) obs)) rs)"

fun revokes :: "acl_statement \<Rightarrow> acl_entry \<Rightarrow> bool" where
  "revokes (Revoke ps obs rs) (r, ob, p) = (r \<in> set rs \<and> covers obs ob \<and> p \<in> set ps)"
| "revokes _ _ = False"

fun apply_entries :: "acl_statement \<Rightarrow> acl_entry list \<Rightarrow> acl_entry list" where
  "apply_entries (Grant ps obs rs) es = es @ granted ps obs rs"
| "apply_entries (Revoke ps obs rs) es = filter (\<lambda>e. \<not> revokes (Revoke ps obs rs) e) es"
| "apply_entries _ es = es"

text \<open>The default privileges are those on tables, for objects the migration role creates later.\<close>

fun apply_defaults :: "acl_statement \<Rightarrow> (db_role \<times> privilege) list \<Rightarrow> (db_role \<times> privilege) list" where
  "apply_defaults (Default_grant ps rs) ds = ds @ concat (map (\<lambda>r. map (Pair r) ps) rs)"
| "apply_defaults (Default_revoke ps rs) ds = filter (\<lambda>(r, p). \<not> (r \<in> set rs \<and> p \<in> set ps)) ds"
| "apply_defaults _ ds = ds"

definition apply_acl :: "acl_statement \<Rightarrow> privileges \<Rightarrow> privileges" where
  "apply_acl s pr = pr\<lparr>acl := apply_entries s (acl pr), default_acl := apply_defaults s (default_acl pr)\<rparr>"

definition every_privilege :: "privilege list" where
  "every_privilege = [Select, Insert, Update, Delete, Truncate, Usage, Execute, Create]"

definition operational_tables :: "db_object list" where
  "operational_tables = map Table [Users, Devices, Enrollment_codes, Controllers, Doors, Permissions, Tokens]"

definition grants_006 :: "acl_statement list" where
  "grants_006 =
     [Revoke every_privilege (Only [Schema_acs]) [Public],
      Grant [Usage] [Schema_acs] [Acs_app, Acs_audit],
      Revoke every_privilege All_tables [Public],
      Revoke every_privilege All_sequences [Public],
      Revoke every_privilege All_functions [Public],
      Grant [Select, Insert, Update] operational_tables [Acs_app],
      Grant [Select, Insert] [Table Failed_attempts] [Acs_app],
      Grant [Usage] [Seq Failed_attempts_id_seq] [Acs_app],
      Grant [Select, Insert] [Table Audit_log] [Acs_app],
      Grant [Usage] [Seq Audit_seq] [Acs_app],
      Grant [Execute] [Func Audit_genesis_hash] [Acs_app, Acs_audit],
      Grant [Execute] [Func Audit_chain_lock_key] [Acs_app, Acs_audit],
      Grant [Execute] [Func Audit_payload] [Acs_app, Acs_audit],
      Grant [Execute] [Func Verify_audit_chain] [Acs_app],
      Grant [Execute] [Func Audit_chain_head] [Acs_app],
      Grant [Execute] [Func Ensure_audit_partition] [Acs_app],
      Grant [Execute] [Func Ensure_audit_partitions_ahead] [Acs_app],
      Grant [Select, Insert] [Table Audit_log] [Acs_audit],
      Grant [Usage] [Seq Audit_seq] [Acs_audit],
      Grant [Execute] [Func Verify_audit_chain] [Acs_audit],
      Grant [Execute] [Func Audit_chain_head] [Acs_audit],
      Grant [Execute] [Func Ensure_audit_partition] [Acs_audit],
      Grant [Execute] [Func Ensure_audit_partitions_ahead] [Acs_audit],
      Revoke [Update, Delete, Truncate] (Only [Table Audit_log]) [Acs_app, Acs_audit],
      Revoke [Delete] All_tables [Acs_app, Acs_audit],
      Revoke [Truncate] All_tables [Acs_app, Acs_audit],
      Default_revoke every_privilege [Public],
      Default_grant [Select, Insert, Update] [Acs_app]]"

definition migrated :: "privileges \<Rightarrow> privileges" where
  "migrated pr = fold apply_acl grants_006 pr"

text \<open>
  The grants of \<^verbatim>\<open>ensure_audit_partition\<close>: a new partition belongs to the migration role and starts
  with its default privileges.
\<close>

definition create_partition :: "int \<Rightarrow> privileges \<Rightarrow> privileges" where
  "create_partition month pr =
     fold apply_acl
       [Revoke [Update, Delete, Truncate] (Only [Partition month]) [Public],
        Grant [Select, Insert] [Partition month] [Acs_app, Acs_audit]]
       (pr\<lparr>acl := acl pr @ map (\<lambda>(r, p). (r, Partition month, p)) (default_acl pr)\<rparr>)"

definition holds :: "privileges \<Rightarrow> db_role \<Rightarrow> db_object \<Rightarrow> privilege \<Rightarrow> bool" where
  "holds pr r ob p \<longleftrightarrow> (r, ob, p) \<in> set (acl pr) \<or> (Public, ob, p) \<in> set (acl pr)"

section \<open>What the statements need\<close>

text \<open>
  Reading a column, also in a WHERE clause or a RETURNING list, needs SELECT. The column default of the
  audit log draws from the sequence; the trigger runs with its owner's rights.
\<close>

type_synonym needs = "(db_object \<times> privilege) list"

definition reads :: "db_table list \<Rightarrow> needs" where
  "reads ts = map (\<lambda>t. (Table t, Select)) ts"

definition inserts :: "db_table \<Rightarrow> needs" where
  "inserts t = [(Table t, Insert), (Table t, Select)]"

definition updates :: "db_table \<Rightarrow> needs" where
  "updates t = [(Table t, Update), (Table t, Select)]"

datatype users_statement = Users_by_username | Users_by_id | Users_create | Users_touch_login | Users_set_active

fun users_needs :: "users_statement \<Rightarrow> needs" where
  "users_needs Users_by_username = reads [Users]"
| "users_needs Users_by_id = reads [Users]"
| "users_needs Users_create = inserts Users"
| "users_needs Users_touch_login = updates Users"
| "users_needs Users_set_active = updates Users"

datatype devices_statement = Devices_by_id | Devices_for_user | Devices_create | Devices_touch_seen | Devices_block

fun devices_needs :: "devices_statement \<Rightarrow> needs" where
  "devices_needs Devices_by_id = reads [Devices]"
| "devices_needs Devices_for_user = reads [Devices]"
| "devices_needs Devices_create = inserts Devices"
| "devices_needs Devices_touch_seen = updates Devices"
| "devices_needs Devices_block = updates Devices"

datatype enrollments_statement = Enrollments_create | Enrollments_claim | Enrollments_attach_device

fun enrollments_needs :: "enrollments_statement \<Rightarrow> needs" where
  "enrollments_needs Enrollments_create = inserts Enrollment_codes"
| "enrollments_needs Enrollments_claim = updates Enrollment_codes"
| "enrollments_needs Enrollments_attach_device = updates Enrollment_codes"

datatype controllers_statement = Controllers_by_code | Controllers_by_id | Controllers_register | Controllers_touch_seen
  | Controllers_block | Controllers_list_all

fun controllers_needs :: "controllers_statement \<Rightarrow> needs" where
  "controllers_needs Controllers_by_code = reads [Controllers]"
| "controllers_needs Controllers_by_id = reads [Controllers]"
| "controllers_needs Controllers_register = inserts Controllers"
| "controllers_needs Controllers_touch_seen = updates Controllers"
| "controllers_needs Controllers_block = updates Controllers"
| "controllers_needs Controllers_list_all = reads [Controllers]"

datatype doors_statement = Doors_by_id | Doors_list_for_user | Doors_create

fun doors_needs :: "doors_statement \<Rightarrow> needs" where
  "doors_needs Doors_by_id = reads [Doors, Controllers]"
| "doors_needs Doors_list_for_user = reads [Permissions, Doors, Controllers]"
| "doors_needs Doors_create = inserts Doors"

datatype permissions_statement = Permissions_effective | Permissions_grant | Permissions_revoke

fun permissions_needs :: "permissions_statement \<Rightarrow> needs" where
  "permissions_needs Permissions_effective = reads [Permissions]"
| "permissions_needs Permissions_grant = inserts Permissions @ updates Permissions"
| "permissions_needs Permissions_revoke = updates Permissions"

datatype tokens_statement = Tokens_insert | Tokens_lookup | Tokens_mark_used | Tokens_revoke | Tokens_revoke_family
  | Tokens_revoke_device_sessions

fun tokens_needs :: "tokens_statement \<Rightarrow> needs" where
  "tokens_needs Tokens_insert = inserts Tokens"
| "tokens_needs Tokens_lookup = reads [Tokens, Users, Devices]"
| "tokens_needs Tokens_mark_used = updates Tokens"
| "tokens_needs Tokens_revoke = updates Tokens"
| "tokens_needs Tokens_revoke_family = updates Tokens"
| "tokens_needs Tokens_revoke_device_sessions = updates Tokens"

datatype rate_statement = Rate_record_failure | Rate_failure_count | Rate_unlock_count

fun rate_needs :: "rate_statement \<Rightarrow> needs" where
  "rate_needs Rate_record_failure = [(Table Failed_attempts, Insert)]"
| "rate_needs Rate_failure_count = reads [Failed_attempts]"
| "rate_needs Rate_unlock_count = reads [Audit_log]"

datatype audit_statement = Audit_append | Audit_recent | Audit_for_user | Audit_verify_chain | Audit_head

fun audit_needs :: "audit_statement \<Rightarrow> needs" where
  "audit_needs Audit_append = (Seq Audit_seq, Usage) # inserts Audit_log"
| "audit_needs Audit_recent = reads [Audit_log]"
| "audit_needs Audit_for_user = reads [Audit_log]"
| "audit_needs Audit_verify_chain =
     [(Func Verify_audit_chain, Execute), (Func Audit_genesis_hash, Execute), (Func Audit_payload, Execute)] @ reads [Audit_log]"
| "audit_needs Audit_head = (Func Audit_chain_head, Execute) # reads [Audit_log]"

datatype statement = Of_users users_statement | Of_devices devices_statement | Of_enrollments enrollments_statement
  | Of_controllers controllers_statement | Of_doors doors_statement | Of_permissions permissions_statement
  | Of_tokens tokens_statement | Of_rate rate_statement | Of_audit audit_statement

fun statement_needs :: "statement \<Rightarrow> needs" where
  "statement_needs (Of_users s) = (Schema_acs, Usage) # users_needs s"
| "statement_needs (Of_devices s) = (Schema_acs, Usage) # devices_needs s"
| "statement_needs (Of_enrollments s) = (Schema_acs, Usage) # enrollments_needs s"
| "statement_needs (Of_controllers s) = (Schema_acs, Usage) # controllers_needs s"
| "statement_needs (Of_doors s) = (Schema_acs, Usage) # doors_needs s"
| "statement_needs (Of_permissions s) = (Schema_acs, Usage) # permissions_needs s"
| "statement_needs (Of_tokens s) = (Schema_acs, Usage) # tokens_needs s"
| "statement_needs (Of_rate s) = (Schema_acs, Usage) # rate_needs s"
| "statement_needs (Of_audit s) = (Schema_acs, Usage) # audit_needs s"

text \<open>The pool \<^verbatim>\<open>Services.build\<close> gave the repository.\<close>

fun statement_pool :: "'h services \<Rightarrow> statement \<Rightarrow> nat" where
  "statement_pool sv (Of_users _) = sv_users sv"
| "statement_pool sv (Of_devices _) = sv_devices sv"
| "statement_pool sv (Of_enrollments _) = sv_enrollments sv"
| "statement_pool sv (Of_controllers _) = sv_controllers sv"
| "statement_pool sv (Of_doors _) = sv_doors sv"
| "statement_pool sv (Of_permissions _) = sv_permissions sv"
| "statement_pool sv (Of_tokens _) = sv_tokens sv"
| "statement_pool sv (Of_rate _) = sv_limiter sv"
| "statement_pool sv (Of_audit _) = sv_audit sv"

definition may_run :: "privileges \<Rightarrow> db_role \<Rightarrow> statement \<Rightarrow> bool" where
  "may_run pr r s \<longleftrightarrow> list_all (\<lambda>(ob, p). holds pr r ob p) (statement_needs s)"

section \<open>What a script leaves\<close>

text \<open>
  An entry is there after a script when it was there before and no statement revoked it, or the script
  itself, run on nothing, leaves it.
\<close>

lemma apply_entries_set:
  "e \<in> set (apply_entries s es) \<longleftrightarrow> e \<in> set es \<and> \<not> revokes s e \<or> e \<in> set (apply_entries s [])"
  by (cases s) auto

lemma script_set:
  "e \<in> set (fold apply_entries sc es) \<longleftrightarrow>
     e \<in> set es \<and> \<not> list_ex (\<lambda>s. revokes s e) sc \<or> e \<in> set (fold apply_entries sc [])"
proof (induction sc arbitrary: es)
  case (Cons s sc)
  show ?case
    using Cons.IH [of "apply_entries s es"] Cons.IH [of "apply_entries s []"] apply_entries_set [of e s es]
    by (auto simp: list_ex_iff)
qed simp

lemma fold_acl:
  "acl (fold apply_acl sc pr) = fold apply_entries sc (acl pr)"
  "default_acl (fold apply_acl sc pr) = fold apply_defaults sc (default_acl pr)"
  by (induction sc arbitrary: pr) (simp_all add: apply_acl_def)

definition no_privileges :: privileges where
  "no_privileges = \<lparr>acl = [], default_acl = []\<rparr>"

lemma migrated_grows: "set (acl (migrated no_privileges)) \<subseteq> set (acl (migrated pr))"
  using script_set [of _ grants_006 "acl pr"] by (auto simp: migrated_def fold_acl no_privileges_def)

lemma may_run_mono: "set (acl pr) \<subseteq> set (acl pr') \<Longrightarrow> may_run pr r s \<Longrightarrow> may_run pr' r s"
  unfolding may_run_def holds_def by (erule list.pred_mono_strong) auto

lemma granted_iff [simp]: "(r, ob, p) \<in> set (granted ps obs rs) \<longleftrightarrow> r \<in> set rs \<and> ob \<in> set obs \<and> p \<in> set ps"
  by (auto simp: granted_def)

text \<open>Run on nothing, the script leaves exactly its grants: no later statement revokes one of them.\<close>

definition grants_only :: "acl_statement list \<Rightarrow> acl_entry list" where
  "grants_only sc = concat (map (\<lambda>s. apply_entries s []) sc)"

lemma fold_grants_only:
  "list_all (\<lambda>s. list_all (\<lambda>e. \<not> revokes s e) es) sc \<Longrightarrow> list_all (\<lambda>s. list_all (\<lambda>e. \<not> revokes s e) (grants_only sc)) sc \<Longrightarrow>
     fold apply_entries sc es = es @ grants_only sc"
proof (induction sc arbitrary: es)
  case (Cons s sc)
  have "apply_entries s es = es @ apply_entries s []"
    using Cons.prems(1) by (cases s) (auto simp: list_all_iff filter_id_conv)
  moreover have "fold apply_entries sc (es @ apply_entries s []) = (es @ apply_entries s []) @ grants_only sc"
    by (rule Cons.IH) (use Cons.prems in \<open>fastforce simp: list_all_iff grants_only_def\<close>)+
  ultimately show ?case by (simp add: grants_only_def)
qed (simp add: grants_only_def)

lemma migrated_entries: "acl (migrated no_privileges) = grants_only grants_006"
proof -
  have "list_all (\<lambda>s. list_all (\<lambda>e. \<not> revokes s e) (grants_only grants_006)) grants_006" by code_simp
  then show ?thesis
    using fold_grants_only [of "[]" grants_006] by (simp add: migrated_def fold_acl no_privileges_def list_all_iff)
qed

lemmas may_run_simps = may_run_def holds_def migrated_entries grants_only_def grants_006_def operational_tables_def
  reads_def inserts_def updates_def

lemma app_may_run: "may_run (migrated no_privileges) Acs_app s"
proof (cases s)
  case (Of_users t) then show ?thesis by (cases t) (simp_all add: may_run_simps)
next
  case (Of_devices t) then show ?thesis by (cases t) (simp_all add: may_run_simps)
next
  case (Of_enrollments t) then show ?thesis by (cases t) (simp_all add: may_run_simps)
next
  case (Of_controllers t) then show ?thesis by (cases t) (simp_all add: may_run_simps)
next
  case (Of_doors t) then show ?thesis by (cases t) (simp_all add: may_run_simps)
next
  case (Of_permissions t) then show ?thesis by (cases t) (simp_all add: may_run_simps)
next
  case (Of_tokens t) then show ?thesis by (cases t) (simp_all add: may_run_simps)
next
  case (Of_rate t) then show ?thesis by (cases t) (simp_all add: may_run_simps)
next
  case (Of_audit t) then show ?thesis by (cases t) (simp_all add: may_run_simps)
qed

lemma audit_may_run: "may_run (migrated no_privileges) Acs_audit (Of_audit t)"
  by (cases t) (simp_all add: may_run_simps)

text \<open>
  Claim C24. The roles suffice and are used as intended: once migration 006 has run, whatever was granted
  before it, every statement of every repository may be run by the role of the pool that
  \<^verbatim>\<open>Services.build\<close> gave the repository, with one DSN for everything or with a DSN of its own for the
  audit log.
\<close>

theorem repositories_have_privileges:
  assumes "wired st p sv" and "role_of (db_dsn st) = Acs_app" and "role_of (audit_dsn st) \<in> {Acs_app, Acs_audit}"
  shows "may_run (migrated pr) (role_of (pq_dsn (opened p ! statement_pool sv s))) s"
proof -
  have "may_run (migrated no_privileges) (role_of (pq_dsn (opened p ! statement_pool sv s))) s"
    using assms app_may_run audit_may_run by (cases s) (auto simp: wired_def)
  then show ?thesis by (rule may_run_mono [OF migrated_grows])
qed

theorem repositories_have_privileges_witness:
  "\<exists>sv :: unit services.
     build () (default_settings\<lparr>audit_db_dsn := ''audit''\<rparr>) (connected (default_settings\<lparr>audit_db_dsn := ''audit''\<rparr>) new_process) None None = Inr sv
     \<and> may_run (migrated no_privileges)
         ((\<lambda>dsn. if dsn = ''audit'' then Acs_audit else Acs_app)
           (pq_dsn (opened (connected (default_settings\<lparr>audit_db_dsn := ''audit''\<rparr>) new_process) ! statement_pool sv (Of_audit Audit_append))))
         (Of_audit Audit_append)"
proof -
  let ?st = "default_settings\<lparr>audit_db_dsn := ''audit''\<rparr>"
  let ?role = "\<lambda>dsn. if dsn = ''audit'' then Acs_audit else Acs_app"
  obtain sv :: "unit services" where sv: "build () ?st (connected ?st new_process) None None = Inr sv"
      "wired ?st (connected ?st new_process) sv"
    using build_wired [of "()" ?st new_process] by blast
  have "?role (db_dsn ?st) = Acs_app" "?role (audit_dsn ?st) \<in> {Acs_app, Acs_audit}"
    by (simp_all add: default_settings_def)
  from repositories_have_privileges [OF sv(2) this, of no_privileges "Of_audit Audit_append"] sv(1) show ?thesis by blast
qed

section \<open>What no role may do\<close>

lemma create_partition_set:
  "e \<in> set (acl (create_partition m pr)) \<longleftrightarrow>
     (e \<in> set (acl pr) \<or> (\<exists>r p. (r, p) \<in> set (default_acl pr) \<and> e = (r, Partition m, p))) \<and>
       \<not> revokes (Revoke [Update, Delete, Truncate] (Only [Partition m]) [Public]) e
     \<or> e \<in> set (granted [Select, Insert] [Partition m] [Acs_app, Acs_audit])"
  unfolding create_partition_def fold_acl by (auto simp del: granted_iff)

lemma create_partition_defaults: "default_acl (create_partition m pr) = default_acl pr"
  unfolding create_partition_def fold_acl by simp

lemma migrated_defaults: "default_acl pr = [] \<Longrightarrow> set (default_acl (migrated pr)) = {Acs_app} \<times> {Select, Insert, Update}"
  unfolding migrated_def fold_acl by (auto simp: grants_006_def)

text \<open>An entry that stays out of the table of privileges when partitions are added.\<close>

definition never_added :: "acl_entry \<Rightarrow> bool" where
  "never_added e \<longleftrightarrow> (case e of (r, ob, p) \<Rightarrow> p \<in> {Delete, Truncate} \<or> p = Update \<and> (\<exists>t. ob = Table t))"

lemma partitions_add_nothing:
  assumes "never_added e" and "set (default_acl pr) \<subseteq> {Acs_app} \<times> {Select, Insert, Update}"
    and "e \<in> set (acl (fold create_partition ms pr))"
  shows "e \<in> set (acl pr)"
  using assms(2,3)
proof (induction ms arbitrary: pr)
  case (Cons m ms)
  then have "e \<in> set (acl (create_partition m pr))" by (simp add: create_partition_defaults)
  with assms(1) Cons.prems(1) show ?case by (auto simp: create_partition_set never_added_def split: prod.splits)
qed simp

lemma migrated_lacks:
  assumes "list_ex (\<lambda>s. revokes s e) grants_006" and "e \<notin> set (grants_only grants_006)"
  shows "e \<notin> set (acl (migrated pr))"
  using assms script_set [of e grants_006 "acl pr"] migrated_entries
  by (simp add: migrated_def fold_acl no_privileges_def)

lemma service_role_lacks:
  assumes "r \<in> {Acs_app, Acs_audit, Public}" and "covers All_tables ob" and "p \<in> {Delete, Truncate} \<or> p = Update \<and> ob = Table Audit_log"
  shows "(r, ob, p) \<notin> set (acl (migrated pr))"
  by (rule migrated_lacks; use assms in \<open>cases ob\<close>)
    (auto simp: grants_006_def every_privilege_def grants_only_def operational_tables_def)

lemma role_never_gains:
  assumes "r \<in> {Acs_app, Acs_audit, Public}" and "default_acl pr = []" and "covers All_tables ob"
    and "p \<in> {Delete, Truncate} \<or> p = Update \<and> ob = Table Audit_log"
  shows "(r, ob, p) \<notin> set (acl (fold create_partition ms (migrated pr)))"
proof
  assume e: "(r, ob, p) \<in> set (acl (fold create_partition ms (migrated pr)))"
  have "never_added (r, ob, p)" using assms(4) by (auto simp: never_added_def)
  from partitions_add_nothing [OF this _ e] have "(r, ob, p) \<in> set (acl (migrated pr))"
    using migrated_defaults [OF assms(2)] by simp
  with service_role_lacks [OF assms(1,3,4)] show False by blast
qed



text \<open>
  The grants do not cover the partitions created later: the default privileges give the API's role
  UPDATE on every new table of the migration role, and \<^verbatim>\<open>ensure_audit_partition\<close> revokes it from PUBLIC
  only. So on each new month's partition, named directly, UPDATE is granted and only the trigger is
  left to refuse it.
\<close>

theorem new_partition_update_granted:
  "holds (create_partition month (migrated pr)) Acs_app (Partition month) Update"
proof -
  have "(Acs_app, Update) \<in> set (default_acl (migrated pr))"
    unfolding migrated_def fold_acl by (simp add: grants_006_def)
  then show ?thesis by (simp add: holds_def create_partition_set)
qed

text \<open>The role of the audit log reaches nothing but the audit log.\<close>

lemma audit_role_sees_only_the_log:
  assumes "holds (migrated no_privileges) Acs_audit (Table t) p"
  shows "t = Audit_log \<and> p \<in> {Select, Insert}"
  using assms by (auto simp: holds_def migrated_entries grants_only_def grants_006_def operational_tables_def)

end
