(* ===== verification/Json_Fuel.thy ===== *)
theory Json_Fuel
  imports Json
begin

text \<open>
  The fuel of the JSON scanner is no restriction: the scanner consumes input with every value, and from two
  units per character on, more fuel changes nothing. So \<open>loads\<close> is the scanner without a bound.
\<close>

section \<open>The scanner consumes its input\<close>

lemma length_skip_ws: "length (skip_ws s) \<le> length s"
  by (induction s) auto

lemma skip_ws_Cons: "skip_ws s = d # r \<Longrightarrow> length r < length s"
  using length_skip_ws [of s] by simp

lemma scan_string_shorter: "scan_string s = Some (t, r) \<Longrightarrow> length r < length s"
proof (induction s arbitrary: t r rule: scan_string.induct)
  case (2 c cs)
  show ?case
  proof (cases "c = CHR 0x22 \<or> c \<noteq> CHR 0x5C")
    case True
    with 2 show ?thesis by (auto simp: cons_fst_def split: if_splits)
  next
    case False
    then obtain e es where cs: "cs = e # es" using 2(4) by (cases cs) auto
    show ?thesis
    proof (cases "e = CHR ''u''")
      case True
      with 2(4) False cs obtain h1 h2 h3 h4 rest where "es = h1 # h2 # h3 # h4 # rest" by (auto split: list.splits)
      with 2 True False cs show ?thesis by (fastforce simp: cons_fst_def split: option.splits if_splits)
    next
      case u: False
      with 2 False cs show ?thesis by (fastforce simp: cons_fst_def split: option.splits)
    qed
  qed
qed simp

lemma literal_shorter: "literal word v s = Some (w, r) \<Longrightarrow> word \<noteq> [] \<Longrightarrow> length r < length s"
  by (cases s) (auto simp: literal_def split: if_splits)

lemma dropWhile_le: "length xs \<le> n \<Longrightarrow> length (dropWhile P xs) \<le> n"
  using length_dropWhile_le [of P xs] by linarith

lemma scan_frac_shorter: "scan_frac s = (fr, r) \<Longrightarrow> length r \<le> length s"
  by (auto simp: scan_frac_def dropWhile_le split: list.splits if_splits)

lemma scan_exp_shorter: "scan_exp s = (ex, r) \<Longrightarrow> length r \<le> length s"
  by (auto simp: scan_exp_def Let_def dropWhile_le split: list.splits if_splits)

lemma scan_number_shorter:
  assumes "scan_number s = Some (v, r)"
  shows "length r < length s"
proof -
  define s1 where "s1 = (if s \<noteq> [] \<and> hd s = CHR ''-'' then tl s else s)"
  obtain fr r2 where fr: "scan_frac (drop (length (int_part s1)) s1) = (fr, r2)" by fastforce
  obtain ex r3 where ex: "scan_exp r2 = (ex, r3)" by fastforce
  have ne: "int_part s1 \<noteq> []" and r: "r = r3"
    using assms fr ex by (auto simp: scan_number_def s1_def [symmetric] Let_def split: if_splits)
  have "length r3 \<le> length s1 - length (int_part s1)"
    using scan_frac_shorter [OF fr] scan_exp_shorter [OF ex] by simp
  moreover have "length s1 \<le> length s" by (simp add: s1_def)
  moreover have "s1 \<noteq> []" using ne by (auto simp: int_part_def)
  ultimately show ?thesis using ne r by (cases "int_part s1"; cases s1) auto
qed

lemma parse_members_step:
  assumes "parse_members (Suc n) s = Some (kvs, r)"
  obtains r0 k r1 r2 v r3 e r4 where "s = CHR 0x22 # r0" "scan_string r0 = Some (k, r1)" "skip_ws r1 = CHR '':'' # r2"
    "parse_value n (skip_ws r2) = Some (v, r3)" "skip_ws r3 = e # r4"
    "r = r4 \<or> e = CHR '','' \<and> (\<exists>kvs'. parse_members n (skip_ws r4) = Some (kvs', r))"
  using assms by (auto simp: cons_fst_def split: list.splits option.splits if_splits)

lemma scanner_shorter:
  "parse_value n s = Some (v, r) \<Longrightarrow> length r < length s"
  "parse_elems n s = Some (js, r) \<Longrightarrow> length r < length s"
  "parse_members n s = Some (kvs, r) \<Longrightarrow> length r < length s"
proof (induction n s and n s and n s arbitrary: v r and js r and kvs r rule: parse_value_parse_elems_parse_members.induct)
  case (3 n c cs)
  consider (str) "c = CHR 0x22" | (obj) "c = CHR ''{''" | (arr) "c = CHR ''[''"
    | (other) "c \<noteq> CHR 0x22" "c \<noteq> CHR ''{''" "c \<noteq> CHR ''[''" by blast
  then show ?case
  proof cases
    case str
    with 3(3) show ?thesis by (auto dest: scan_string_shorter)
  next
    case obj
    with 3 obtain d r' where d: "skip_ws cs = d # r'" by (auto split: list.splits)
    with obj 3 show ?thesis using length_skip_ws [of cs] by (fastforce split: if_splits)
  next
    case arr
    with 3 obtain d r' where d: "skip_ws cs = d # r'" by (auto split: list.splits)
    with arr 3 show ?thesis using length_skip_ws [of cs] by (fastforce split: if_splits)
  next
    case other
    with 3(3) show ?thesis
      by (auto dest: literal_shorter scan_number_shorter split: if_splits option.splits)
  qed
next
  case (5 n s)
  then obtain v r1 d r' where v: "parse_value n s = Some (v, r1)" "skip_ws r1 = d # r'" by (auto split: option.splits list.splits)
  have "length r1 < length s" using 5(1) [OF v(1)] .
  moreover have "length r' < length r1" using skip_ws_Cons [OF v(2)] .
  ultimately show ?case
    using 5(2) [OF v(1) refl v(2)] 5(3) v length_skip_ws [of r'] by (fastforce simp: cons_fst_def split: if_splits)
next
  case (7 n s)
  from 7(3) obtain r0 k r1 r2 v r3 e r4 where m: "s = CHR 0x22 # r0" "scan_string r0 = Some (k, r1)"
    "skip_ws r1 = CHR '':'' # r2" "parse_value n (skip_ws r2) = Some (v, r3)" "skip_ws r3 = e # r4"
    and rest: "r = r4 \<or> e = CHR '','' \<and> (\<exists>kvs'. parse_members n (skip_ws r4) = Some (kvs', r))"
    by (rule parse_members_step)
  have r3: "length r3 < length (skip_ws r2)" by (rule 7(1) [OF m(1) _ m(2) refl m(3) _ m(4)]) simp_all
  have "length r \<le> length r4"
    using rest
  proof
    assume "e = CHR '','' \<and> (\<exists>kvs'. parse_members n (skip_ws r4) = Some (kvs', r))"
    then obtain kvs' where e: "e = CHR '',''" "parse_members n (skip_ws r4) = Some (kvs', r)" by blast
    have "length r < length (skip_ws r4)" by (rule 7(2) [OF m(1) _ m(2) refl m(3) _ m(4) refl m(5) _ e(1) e(2)]) (simp_all add: e(1))
    then show ?thesis using length_skip_ws [of r4] by linarith
  qed simp
  with r3 show ?case
    using m(1) scan_string_shorter [OF m(2)] skip_ws_Cons [OF m(3)] skip_ws_Cons [OF m(5)] length_skip_ws [of r2] by simp
qed simp_all

section \<open>More fuel changes nothing\<close>

lemma elems_same:
  assumes "\<And>t. length t \<le> length s \<Longrightarrow> parse_value n t = parse_value m t"
    and "\<And>t. length t < length s \<Longrightarrow> parse_elems n t = parse_elems m t"
  shows "parse_elems (Suc n) s = parse_elems (Suc m) s"
proof (cases "parse_value n s")
  case None
  then show ?thesis using assms(1) [of s] by simp
next
  case (Some p)
  obtain v r where p: "p = (v, r)" by fastforce
  have r: "length r < length s" by (rule scanner_shorter(1)) (use Some p in simp)
  have "parse_elems n (skip_ws t) = parse_elems m (skip_ws t)" if "skip_ws r = d # t" for d t
    by (rule assms(2)) (use r skip_ws_Cons [OF that] length_skip_ws [of t] in simp)
  then show ?thesis using Some p assms(1) [of s] by (auto split: list.split)
qed

lemma members_same:
  assumes "\<And>t. length t < length s \<Longrightarrow> parse_value n t = parse_value m t"
    and "\<And>t. length t < length s \<Longrightarrow> parse_members n t = parse_members m t"
  shows "parse_members (Suc n) s = parse_members (Suc m) s"
proof (cases "\<exists>r0 k r1 r2. s = CHR 0x22 # r0 \<and> scan_string r0 = Some (k, r1) \<and> skip_ws r1 = CHR '':'' # r2")
  case True
  then obtain r0 k r1 r2 where s: "s = CHR 0x22 # r0" "scan_string r0 = Some (k, r1)" "skip_ws r1 = CHR '':'' # r2" by blast
  have r2: "length (skip_ws r2) < length s"
    using s(1) scan_string_shorter [OF s(2)] skip_ws_Cons [OF s(3)] length_skip_ws [of r2] by simp
  have same: "parse_value n (skip_ws r2) = parse_value m (skip_ws r2)" by (rule assms(1) [OF r2])
  have "parse_members n (skip_ws t) = parse_members m (skip_ws t)"
    if "parse_value m (skip_ws r2) = Some (v, r3)" "skip_ws r3 = e # t" for v r3 e t
    by (rule assms(2)) (use r2 scanner_shorter(1) [OF that(1)] skip_ws_Cons [OF that(2)] length_skip_ws [of t] in simp)
  then show ?thesis using s same by (auto split: option.split list.split)
next
  case False
  then show ?thesis by (auto split: list.splits option.splits)
qed

lemma value_same:
  assumes "\<And>t. length t < length s \<Longrightarrow> parse_elems n t = parse_elems m t"
    and "\<And>t. length t < length s \<Longrightarrow> parse_members n t = parse_members m t"
  shows "parse_value (Suc n) s = parse_value (Suc m) s"
proof (cases s)
  case (Cons c cs)
  have "length (d # t) < length s" if "skip_ws cs = d # t" for d t
    using skip_ws_Cons [OF that] length_skip_ws [of cs] that Cons by simp
  then show ?thesis using assms Cons by (auto split: list.split)
qed simp

lemma enough_fuel:
  "(2 * length s < n \<longrightarrow> 2 * length s < m \<longrightarrow> parse_value n s = parse_value m s) \<and>
   (2 * length s + 1 < n \<longrightarrow> 2 * length s + 1 < m \<longrightarrow> parse_elems n s = parse_elems m s) \<and>
   (2 * length s + 1 < n \<longrightarrow> 2 * length s + 1 < m \<longrightarrow> parse_members n s = parse_members m s)"
proof (induction n arbitrary: m s)
  case (Suc n)
  have tops: ?case if "m = Suc k" for k
  proof (intro conjI impI)
    assume "2 * length s < Suc n" "2 * length s < m"
    then show "parse_value (Suc n) s = parse_value m s"
      unfolding that by (intro value_same) (use Suc.IH in auto)
  next
    assume "2 * length s + 1 < Suc n" "2 * length s + 1 < m"
    then show "parse_elems (Suc n) s = parse_elems m s" "parse_members (Suc n) s = parse_members m s"
      unfolding that by (intro elems_same members_same; use Suc.IH in auto)+
  qed
  then show ?case by (cases m) auto
qed simp

text \<open>
  Reading JSON never fails for want of fuel: with any larger bound the scanner gives the same answer
  on every text, so what \<open>loads\<close> rejects, no run of the scanner accepts.
\<close>

theorem loads_fuel_enough:
  assumes "2 * length s + 2 \<le> n"
  shows "loads s = (case parse_value n (skip_ws s) of None \<Rightarrow> None | Some (v, r) \<Rightarrow> if skip_ws r = [] then Some v else None)"
proof -
  have "parse_value (2 * length s + 2) (skip_ws s) = parse_value n (skip_ws s)"
    using enough_fuel [of "skip_ws s" "2 * length s + 2" n] length_skip_ws [of s] assms by simp
  then show ?thesis by (simp add: loads_def)
qed

theorem loads_fuel_enough_witness:
  "loads ''[1, 2]'' = (case parse_value 1000 (skip_ws ''[1, 2]'') of None \<Rightarrow> None | Some (v, r) \<Rightarrow> if skip_ws r = [] then Some v else None)"
  by (rule loads_fuel_enough) simp

end
