(* ===== verification/Firmware.thy ===== *)
theory Firmware
  imports Provisioning Proximity
begin

text \<open>
  The door controller, \<^verbatim>\<open>firmware/esp32/src\<close>: the relay, the rotating beacon, the link to the backend with
  the verification of a command, and the update check. The libraries the sketch calls (ArduinoJson,
  mbedtls, Ed25519, the HTTP client, \<^verbatim>\<open>Update\<close>) are the parameter \<open>board_lib\<close>; \<^verbatim>\<open>config.h\<close> is the record
  \<open>board_config\<close>; \<^verbatim>\<open>millis()\<close> is a 32-bit word and \<^verbatim>\<open>time(nullptr)\<close> an integer, one reading of each for a
  turn of \<^verbatim>\<open>loop()\<close>.

  An Arduino \<^verbatim>\<open>String\<close> holds the UTF-8 bytes of a text. The code looks at single bytes only where they are
  ASCII, so the model keeps the text and encodes it where bytes are counted or signed. A
  \<^verbatim>\<open>const char *\<close> ends at the first NUL.
\<close>

section \<open>Configuration, libraries, state\<close>

record board_config =
  cfg_controller_code :: string
  cfg_firmware_version :: string
  cfg_private_key :: bytes
  cfg_public_key :: bytes
  cfg_beacon_key :: bytes
  cfg_signer_public_key :: bytes
  cfg_ota_public_key :: bytes
  cfg_relay_max_ms :: "32 word"
  cfg_heartbeat_timeout_s :: "32 word"
  cfg_beacon_rotation_s :: "64 word"
  cfg_max_clock_skew_s :: int
  cfg_ota_manifest_url :: string
  cfg_ota_check_hours :: "32 word"

record board_lib =
  bl_json :: "string \<Rightarrow> json option"
  bl_json_text :: "json \<Rightarrow> string"
  bl_b64_decode :: "string \<Rightarrow> bytes option"
  bl_b64_encode :: "bytes \<Rightarrow> string"
  bl_ed_sign :: "bytes \<Rightarrow> bytes \<Rightarrow> bytes \<Rightarrow> bytes"
  bl_ed_verify :: "bytes \<Rightarrow> bytes \<Rightarrow> bytes \<Rightarrow> bool"
  bl_hmac :: "bytes \<Rightarrow> bytes \<Rightarrow> bytes"
  bl_sha256 :: "bytes \<Rightarrow> bytes"

datatype led_state = Booting | WifiConnecting | ServerConnecting | Online | Rejected | Unlocking

record board =
  b_energised :: bool
  b_off_at_ms :: "32 word"
  b_authenticated :: bool
  b_last_pong_ms :: "32 word"
  b_seen :: "string list"
  b_seen_next :: nat
  b_advertising :: bool
  b_current_slot :: "64 word"
  b_current_id :: string
  b_led :: led_state
  b_led_next_ms :: "32 word"
  b_led_phase :: "8 word"
  b_led_level :: bool
  b_sent :: "string list"
  b_link_started :: bool
  b_tamper_latched :: bool
  b_last_sense_ms :: "32 word"
  b_last_door_closed :: bool
  b_ota_enabled :: bool
  b_ota_next_ms :: "32 word"
  b_image :: "bytes option"

text \<open>
  \<open>b_sent\<close> is the list of the texts handed to the socket, oldest first; \<open>b_image\<close> is the image an update
  restarted the board into, after which this program no longer runs.
\<close>

definition kSeenCapacity :: nat where
  "kSeenCapacity = 16"

text \<open>The state the objects are constructed in.\<close>

definition fresh_board :: board where
  "fresh_board = \<lparr>b_energised = False, b_off_at_ms = 0, b_authenticated = False, b_last_pong_ms = 0,
     b_seen = replicate kSeenCapacity [], b_seen_next = 0, b_advertising = False, b_current_slot = 0,
     b_current_id = [], b_led = Booting, b_led_next_ms = 0, b_led_phase = 0, b_led_level = False, b_sent = [],
     b_link_started = False, b_tamper_latched = False, b_last_sense_ms = 0, b_last_door_closed = True,
     b_ota_enabled = False, b_ota_next_ms = 0, b_image = None\<rparr>"

definition c_str :: "string \<Rightarrow> string" where
  "c_str s = takeWhile (\<lambda>c. c \<noteq> CHR 0x00) s"

text \<open>\<^verbatim>\<open>value["k"] | ""\<close>: the text of a string member, empty when it is missing or no string.\<close>

definition text_member :: "json \<Rightarrow> string \<Rightarrow> string" where
  "text_member j k = (case j of
      JObj kvs \<Rightarrow> (case obj_get kvs k of Some (JStr s) \<Rightarrow> c_str s | _ \<Rightarrow> [])
    | _ \<Rightarrow> [])"

section \<open>acs\_crypto.cpp\<close>

text \<open>Zero bytes written is how both decoding errors and a full buffer show.\<close>

definition base64Decode :: "board_lib \<Rightarrow> string \<Rightarrow> nat \<Rightarrow> bytes" where
  "base64Decode lib input outCapacity =
     (case bl_b64_decode lib input of None \<Rightarrow> [] | Some raw \<Rightarrow> if outCapacity < length raw then [] else raw)"

definition base64Encode :: "board_lib \<Rightarrow> bytes \<Rightarrow> string" where
  "base64Encode lib data =
     (if 128 < 4 * ((length data + 2) div 3) + 1 then [] else bl_b64_encode lib data)"

definition url_char :: "char \<Rightarrow> char" where
  "url_char c = (if c = CHR ''+'' then CHR ''-'' else if c = CHR ''/'' then CHR ''_'' else c)"

definition base64UrlEncodeNoPad :: "board_lib \<Rightarrow> bytes \<Rightarrow> string" where
  "base64UrlEncodeNoPad lib data = rstrip_by (\<lambda>c. c = CHR ''='') (map url_char (base64Encode lib data))"

fun equalsConstantTime :: "bytes \<Rightarrow> bytes \<Rightarrow> byte \<Rightarrow> nat \<Rightarrow> bool" where
  "equalsConstantTime a b difference 0 = (difference = 0)"
| "equalsConstantTime a b difference (Suc n) =
     equalsConstantTime (tl a) (tl b) (or difference (xor (hd a) (hd b))) n"

section \<open>acs\_relay.cpp\<close>

definition relay_pulse :: "board_config \<Rightarrow> 32 word \<Rightarrow> 32 word \<Rightarrow> board \<Rightarrow> 32 word \<times> board" where
  "relay_pulse cfg now_ms requestedMs b =
     (let duration = (if cfg_relay_max_ms cfg < requestedMs then cfg_relay_max_ms cfg else requestedMs)
      in (duration, b\<lparr>b_energised := True, b_off_at_ms := now_ms + duration\<rparr>))"

definition relay_tick :: "32 word \<Rightarrow> board \<Rightarrow> board" where
  "relay_tick now_ms b =
     (if b_energised b \<and> 0 \<le> sint (now_ms - b_off_at_ms b) then b\<lparr>b_energised := False\<rparr> else b)"

section \<open>acs\_status\_led.cpp\<close>

definition led_set :: "32 word \<Rightarrow> led_state \<Rightarrow> board \<Rightarrow> board" where
  "led_set now_ms st b =
     (if b_led b = st then b else b\<lparr>b_led := st, b_led_phase := 0, b_led_next_ms := now_ms\<rparr>)"

definition led_tick :: "32 word \<Rightarrow> board \<Rightarrow> board" where
  "led_tick now b =
     (if sint (now - b_led_next_ms b) < 0 then b
      else case b_led b of
        Booting \<Rightarrow> b\<lparr>b_led_level := \<not> b_led_level b, b_led_next_ms := now + 100\<rparr>
      | WifiConnecting \<Rightarrow> b\<lparr>b_led_level := \<not> b_led_level b, b_led_next_ms := now + 100\<rparr>
      | ServerConnecting \<Rightarrow> b\<lparr>b_led_level := \<not> b_led_level b, b_led_next_ms := now + 500\<rparr>
      | Online \<Rightarrow> b\<lparr>b_led_level := True, b_led_next_ms := now + 1000\<rparr>
      | Unlocking \<Rightarrow> b\<lparr>b_led_level := True, b_led_next_ms := now + 3000\<rparr>
      | Rejected \<Rightarrow>
          (let b' = b\<lparr>b_led_level := \<not> b_led_level b, b_led_phase := b_led_phase b + 1, b_led_next_ms := now + 120\<rparr>
           in if 6 \<le> b_led_phase b' then b'\<lparr>b_led := Online, b_led_level := True\<rparr> else b'))"

section \<open>acs\_beacon.cpp\<close>

definition kClockSane :: int where
  "kClockSane = 1704067200"

text \<open>The 13 bytes of the domain and the slot, most significant byte first.\<close>

definition beacon_message :: "64 word \<Rightarrow> bytes" where
  "beacon_message slot =
     utf8 ''acs-beacon:v1'' @ map (\<lambda>i. ucast (and (drop_bit (56 - 8 * i) slot) 0xFF)) [0..<8]"

definition updateAdvertisement :: "board_lib \<Rightarrow> board_config \<Rightarrow> 64 word \<Rightarrow> board \<Rightarrow> board" where
  "updateAdvertisement lib cfg slot b =
     (let mac = bl_hmac lib (cfg_beacon_key cfg) (beacon_message slot)
      in b\<lparr>b_current_slot := slot, b_current_id := base64UrlEncodeNoPad lib (take 16 mac), b_advertising := True\<rparr>)"

definition beacon_tick :: "board_lib \<Rightarrow> board_config \<Rightarrow> int \<Rightarrow> board \<Rightarrow> board" where
  "beacon_tick lib cfg now b =
     (if now < kClockSane then b\<lparr>b_advertising := False\<rparr>
      else let slot = (of_int now :: 64 word) div cfg_beacon_rotation_s cfg
           in if b_advertising b \<and> slot = b_current_slot b then b else updateAdvertisement lib cfg slot b)"

section \<open>acs\_command.cpp\<close>

record UnlockCommand =
  commandId :: string
  controllerCode :: string
  doorCode :: string
  durationMs :: "32 word"
  relayChannel :: "32 word"
  issuedAt :: int
  expiresAt :: int
  cmdNonce :: string

definition fw_escape :: "char \<Rightarrow> string" where
  "fw_escape c = (let n = (of_char c :: nat) in
     if c = CHR 0x22 \<or> c = CHR 0x5C then [CHR 0x5C, c]
     else if n < 32 then CHR 0x5C # ''u00'' @ [hex_digit (n div 16), hex_digit (n mod 16)]
     else [c])"

definition appendJsonString :: "string \<Rightarrow> string" where
  "appendJsonString value = [CHR 0x22] @ concat (map fw_escape value) @ [CHR 0x22]"

definition is_text :: "json option \<Rightarrow> string option" where
  "is_text j = (case j of Some (JStr s) \<Rightarrow> Some (c_str s) | _ \<Rightarrow> None)"

definition is_uint32 :: "json option \<Rightarrow> 32 word option" where
  "is_uint32 j = (case j of Some (JInt i) \<Rightarrow> if 0 \<le> i \<and> i < 2 ^ 32 then Some (of_int i) else None | _ \<Rightarrow> None)"

definition is_int64 :: "json option \<Rightarrow> int option" where
  "is_int64 j = (case j of Some (JInt i) \<Rightarrow> if - (2 ^ 63) \<le> i \<and> i < 2 ^ 63 then Some i else None | _ \<Rightarrow> None)"

definition parseUnlockCommand :: "json option \<Rightarrow> UnlockCommand option" where
  "parseUnlockCommand payload =
     (let f = (case payload of Some (JObj kvs) \<Rightarrow> obj_get kvs | _ \<Rightarrow> (\<lambda>_. None)) in
      (case (is_text (f ''command_id''), is_text (f ''cmd''), is_text (f ''controller_code''), is_text (f ''door_code''),
             is_text (f ''nonce''), is_uint32 (f ''duration_ms''), is_uint32 (f ''relay_channel''),
             is_int64 (f ''issued_at''), is_int64 (f ''expires_at'')) of
         (Some cid, Some cmd, Some code, Some door, Some nonce, Some duration, Some channel, Some issued, Some expires) \<Rightarrow>
           if cmd \<noteq> ''unlock'' then None
           else Some \<lparr>commandId = cid, controllerCode = code, doorCode = door, durationMs = duration,
                      relayChannel = channel, issuedAt = issued, expiresAt = expires, cmdNonce = nonce\<rparr>
       | _ \<Rightarrow> None))"

definition command_text :: "UnlockCommand \<Rightarrow> string" where
  "command_text c =
     ''{'' @ quote_str False ''cmd'' @ '':'' @ quote_str False ''unlock'' @ '','' @
     quote_str False ''command_id'' @ '':'' @ appendJsonString (commandId c) @ '','' @
     quote_str False ''controller_code'' @ '':'' @ appendJsonString (controllerCode c) @ '','' @
     quote_str False ''door_code'' @ '':'' @ appendJsonString (doorCode c) @ '','' @
     quote_str False ''duration_ms'' @ '':'' @ nat_digits (unat (durationMs c)) @ '','' @
     quote_str False ''expires_at'' @ '':'' @ py_str_int (expiresAt c) @ '','' @
     quote_str False ''issued_at'' @ '':'' @ py_str_int (issuedAt c) @ '','' @
     quote_str False ''nonce'' @ '':'' @ appendJsonString (cmdNonce c) @ '','' @
     quote_str False ''relay_channel'' @ '':'' @ nat_digits (unat (relayChannel c)) @ ''}''"

text \<open>\<open>[]\<close> is the return value 0: the buffer is too small.\<close>

definition canonicalCommandBytes :: "UnlockCommand \<Rightarrow> nat \<Rightarrow> bytes" where
  "canonicalCommandBytes c capacity =
     (let all = utf8 ''acs-command:v1'' @ [0] @ utf8 (command_text c)
      in if capacity < length all then [] else all)"

section \<open>acs\_ws.cpp\<close>

definition kMaxCanonical :: nat where
  "kMaxCanonical = 512"

definition send_text :: "string \<Rightarrow> board \<Rightarrow> board" where
  "send_text t b = b\<lparr>b_sent := b_sent b @ [t]\<rparr>"

definition sendAck :: "board_lib \<Rightarrow> 32 word \<Rightarrow> string \<Rightarrow> string \<Rightarrow> string \<Rightarrow> 32 word \<Rightarrow> board \<Rightarrow> board" where
  "sendAck lib now_ms cid result detail relayMs b =
     send_text (bl_json_text lib (JObj [(''type'', JStr ''ack''), (''command_id'', JStr cid), (''result'', JStr result),
       (''detail'', JStr detail), (''relay_ms'', JInt (uint relayMs)), (''uptime_ms'', JInt (uint now_ms))])) b"

definition reject :: "board_lib \<Rightarrow> 32 word \<Rightarrow> string \<Rightarrow> string \<Rightarrow> board \<Rightarrow> board" where
  "reject lib now_ms cid detail b = led_set now_ms Rejected (sendAck lib now_ms cid ''rejected'' detail 0 b)"

definition commandAlreadySeen :: "string \<Rightarrow> board \<Rightarrow> bool" where
  "commandAlreadySeen cid b = list_ex (\<lambda>s. s \<noteq> [] \<and> s = cid) (b_seen b)"

definition rememberCommand :: "string \<Rightarrow> board \<Rightarrow> board" where
  "rememberCommand cid b =
     b\<lparr>b_seen := (b_seen b)[b_seen_next b := cid], b_seen_next := (b_seen_next b + 1) mod kSeenCapacity\<rparr>"

text \<open>\<^verbatim>\<open>document["payload"]\<close>.\<close>

definition json_member :: "json \<Rightarrow> string \<Rightarrow> json option" where
  "json_member j k = (case j of JObj kvs \<Rightarrow> obj_get kvs k | _ \<Rightarrow> None)"

text \<open>
  The checks in their order. \<open>Inl\<close> is the detail of the refusal, \<open>None\<close> a message without a command, which
  is not answered.
\<close>

definition command_verdict ::
  "board_lib \<Rightarrow> board_config \<Rightarrow> int \<Rightarrow> board \<Rightarrow> json \<Rightarrow> UnlockCommand \<Rightarrow> string option"
where
  "command_verdict lib cfg now b document c =
     (if controllerCode c \<noteq> cfg_controller_code cfg then Some ''wrong_controller''
      else let signature = base64Decode lib (text_member document ''signature'') 64 in
      if length signature \<noteq> 64 then Some ''bad_signature_encoding''
      else let canonical = canonicalCommandBytes c kMaxCanonical in
      if canonical = [] then Some ''command_too_large''
      else if \<not> bl_ed_verify lib (cfg_signer_public_key cfg) signature canonical then Some ''bad_signature''
      else if now < kClockSane then Some ''clock_not_synced''
      else if expiresAt c < now - cfg_max_clock_skew_s cfg then Some ''expired''
      else if now + cfg_max_clock_skew_s cfg < issuedAt c then Some ''issued_in_the_future''
      else if commandAlreadySeen (commandId c) b then Some ''replayed''
      else None)"

definition handleCommand ::
  "board_lib \<Rightarrow> board_config \<Rightarrow> 32 word \<Rightarrow> int \<Rightarrow> string \<Rightarrow> board \<Rightarrow> board"
where
  "handleCommand lib cfg now_ms now text b =
     (case bl_json lib text of
        None \<Rightarrow> b
      | Some document \<Rightarrow>
          (case parseUnlockCommand (json_member document ''payload'') of
             None \<Rightarrow> led_set now_ms Rejected b
           | Some c \<Rightarrow>
               (case command_verdict lib cfg now b document c of
                  Some detail \<Rightarrow> reject lib now_ms (commandId c) detail b
                | None \<Rightarrow>
                    (let (relayMs, b') = relay_pulse cfg now_ms (durationMs c) (rememberCommand (commandId c) b)
                     in sendAck lib now_ms (commandId c) ''opened'' ''ok'' relayMs (led_set now_ms Unlocking b')))))"

definition kAuthDomain :: bytes where
  "kAuthDomain = utf8 ''acs-controller-auth:v1'' @ [0]"

definition handleChallenge :: "board_lib \<Rightarrow> board_config \<Rightarrow> string \<Rightarrow> board \<Rightarrow> board" where
  "handleChallenge lib cfg nonceB64 b =
     (let nonce = base64Decode lib nonceB64 64;
          message = kAuthDomain @ utf8 (cfg_controller_code cfg) @ [0] @ nonce
      in if nonce = [] then b
         else if 128 < length message then b
         else send_text (bl_json_text lib (JObj [(''type'', JStr ''auth''),
                (''controller_code'', JStr (cfg_controller_code cfg)),
                (''signature'', JStr (base64Encode lib (bl_ed_sign lib (cfg_private_key cfg) (cfg_public_key cfg) message))),
                (''firmware_version'', JStr (cfg_firmware_version cfg))])) b)"

definition handleText :: "board_lib \<Rightarrow> board_config \<Rightarrow> 32 word \<Rightarrow> int \<Rightarrow> string \<Rightarrow> board \<Rightarrow> board" where
  "handleText lib cfg now_ms now text b =
     (case bl_json lib text of
        None \<Rightarrow> b
      | Some document \<Rightarrow>
          (let type = text_member document ''type'' in
           if type = ''challenge'' then handleChallenge lib cfg (text_member document ''nonce'') b
           else if type = ''auth_ok'' then led_set now_ms Online (b\<lparr>b_authenticated := True, b_last_pong_ms := now_ms\<rparr>)
           else if type = ''ping'' then send_text (dumps False False (JObj [(''type'', JStr ''pong'')])) b
           else if type = ''command'' then handleCommand lib cfg now_ms now text b
           else b))"

datatype ws_event = Ws_connected | Ws_disconnected | Ws_text string | Ws_pong | Ws_other

fun handleEvent :: "board_lib \<Rightarrow> board_config \<Rightarrow> 32 word \<Rightarrow> int \<Rightarrow> ws_event \<Rightarrow> board \<Rightarrow> board" where
  "handleEvent lib cfg now_ms now Ws_connected b =
     led_set now_ms ServerConnecting (b\<lparr>b_authenticated := False, b_last_pong_ms := now_ms\<rparr>)"
| "handleEvent lib cfg now_ms now Ws_disconnected b =
     led_set now_ms ServerConnecting (b\<lparr>b_authenticated := False\<rparr>)"
| "handleEvent lib cfg now_ms now (Ws_text t) b = handleText lib cfg now_ms now t (b\<lparr>b_last_pong_ms := now_ms\<rparr>)"
| "handleEvent lib cfg now_ms now Ws_pong b = b\<lparr>b_last_pong_ms := now_ms\<rparr>"
| "handleEvent lib cfg now_ms now Ws_other b = b"

text \<open>\<^verbatim>\<open>tick\<close> after \<^verbatim>\<open>socketClient.loop()\<close>: a link that has been silent too long is dropped.\<close>

definition ws_tick :: "board_config \<Rightarrow> 32 word \<Rightarrow> board \<Rightarrow> board" where
  "ws_tick cfg now_ms b =
     (if b_authenticated b \<and> cfg_heartbeat_timeout_s cfg * 1000 < now_ms - b_last_pong_ms b
      then led_set now_ms ServerConnecting (b\<lparr>b_authenticated := False\<rparr>) else b)"

definition sendEvent :: "string \<Rightarrow> string \<Rightarrow> string \<Rightarrow> board \<Rightarrow> board" where
  "sendEvent event outcome detailJson b =
     (if \<not> b_authenticated b then b
      else send_text (''{'' @ quote_str False ''type'' @ '':'' @ quote_str False ''event'' @ '','' @
             quote_str False ''event'' @ '':'' @ [CHR 0x22] @ event @ [CHR 0x22] @ '','' @
             quote_str False ''outcome'' @ '':'' @ [CHR 0x22] @ outcome @ [CHR 0x22] @ '','' @
             quote_str False ''detail'' @ '':'' @ (if detailJson = [] then ''{}'' else detailJson) @ ''}'') b)"

section \<open>acs\_ota.cpp\<close>

record ota_plan =
  op_url :: string
  op_sha :: bytes
  op_size :: nat
  op_version :: string

datatype manifest_verdict = Ota_nothing | Ota_bad_signature | Ota_apply ota_plan

text \<open>\<^verbatim>\<open>manifest["size"] | 0\<close>: the default is an \<^verbatim>\<open>int\<close>, so the member is read as one and then made a \<^verbatim>\<open>size_t\<close>.\<close>

definition size_member :: "json \<Rightarrow> nat" where
  "size_member j = (case json_member j ''size'' of
      Some (JInt i) \<Rightarrow> if - (2 ^ 31) \<le> i \<and> i < 2 ^ 31 then unat (of_int i :: 32 word) else 0
    | _ \<Rightarrow> 0)"

definition ota_signed_text :: "string \<Rightarrow> nat \<Rightarrow> string \<Rightarrow> string" where
  "ota_signed_text version len shaB64 = ''acs-ota:v1|'' @ version @ ''|'' @ nat_digits len @ ''|'' @ shaB64"

text \<open>\<open>fetched\<close> is the body of the manifest, \<open>None\<close> when it could not be fetched.\<close>

definition check_manifest :: "board_lib \<Rightarrow> board_config \<Rightarrow> string option \<Rightarrow> manifest_verdict" where
  "check_manifest lib cfg fetched =
     (case fetched of None \<Rightarrow> Ota_nothing | Some text \<Rightarrow>
      (case bl_json lib text of None \<Rightarrow> Ota_nothing | Some manifest \<Rightarrow>
      (let version = text_member manifest ''version''; url = text_member manifest ''url''; len = size_member manifest;
           shaB64 = text_member manifest ''sha256'';
           expectedSha = base64Decode lib shaB64 32;
           signature = base64Decode lib (text_member manifest ''signature'') 64
       in if version = [] \<or> version = cfg_firmware_version cfg then Ota_nothing
          else if url = [] \<or> len = 0 then Ota_nothing
          else if length expectedSha \<noteq> 32 then Ota_nothing
          else if length signature \<noteq> 64 then Ota_nothing
          else if \<not> bl_ed_verify lib (cfg_ota_public_key cfg) signature (utf8 (ota_signed_text version len shaB64))
            then Ota_bad_signature
          else Ota_apply \<lparr>op_url = url, op_sha = expectedSha, op_size = len, op_version = version\<rparr>)))"

text \<open>
  The loop of \<^verbatim>\<open>applyUpdate\<close>: the chunks the stream delivers, at most 1024 bytes each, are hashed and written
  until the announced size is reached, the connection ends, nothing is read or \<open>flash\<close> does not take a chunk.
  The result is what was hashed and the number of bytes counted as received.
\<close>

fun ota_download :: "(bytes \<Rightarrow> bool) \<Rightarrow> nat \<Rightarrow> bytes \<Rightarrow> bytes list \<Rightarrow> bytes \<times> nat" where
  "ota_download flash imageSize hashed [] = (hashed, length hashed)"
| "ota_download flash imageSize hashed (chunk # chunks) =
     (if imageSize \<le> length hashed then (hashed, length hashed)
      else if chunk = [] then (hashed, length hashed)
      else if \<not> flash chunk then (hashed @ chunk, length hashed)
      else ota_download flash imageSize (hashed @ chunk) chunks)"

datatype image_verdict = Ota_not_started | Ota_hash_mismatch | Ota_flash_failed | Ota_restart bytes

text \<open>
  What the network and the flash do during one check: the manifest, the image's chunks at a URL
  (\<open>None\<close> when it cannot be fetched), and what \<^verbatim>\<open>Update\<close> answers.
\<close>

record ota_world =
  ow_manifest :: "string option"
  ow_chunks :: "string \<Rightarrow> bytes list option"
  ow_begin :: bool
  ow_write :: "bytes \<Rightarrow> bool"
  ow_end :: bool

definition check_image :: "board_lib \<Rightarrow> ota_world \<Rightarrow> ota_plan \<Rightarrow> image_verdict" where
  "check_image lib w plan =
     (case ow_chunks w (op_url plan) of
        None \<Rightarrow> Ota_not_started
      | Some chunks \<Rightarrow>
          if \<not> ow_begin w then Ota_not_started
          else let (hashed, received) = ota_download (ow_write w) (op_size plan) [] chunks in
          if received \<noteq> op_size plan \<or> \<not> equalsConstantTime (bl_sha256 lib hashed) (op_sha plan) 0 32
            then Ota_hash_mismatch
          else if \<not> ow_end w then Ota_flash_failed
          else Ota_restart hashed)"

definition reason_detail :: "string \<Rightarrow> string" where
  "reason_detail reason = dumps False False (JObj [(''reason'', JStr reason)])"

definition applyUpdate :: "board_lib \<Rightarrow> ota_world \<Rightarrow> ota_plan \<Rightarrow> board \<Rightarrow> board" where
  "applyUpdate lib w plan b =
     (case check_image lib w plan of
        Ota_not_started \<Rightarrow> b
      | Ota_hash_mismatch \<Rightarrow> sendEvent ''ota_rejected'' ''failure'' (reason_detail ''hash_mismatch'') b
      | Ota_flash_failed \<Rightarrow> sendEvent ''ota_rejected'' ''failure'' (reason_detail ''flash_failed'') b
      | Ota_restart img \<Rightarrow>
          (sendEvent ''ota_applied'' ''success''
             (''{'' @ quote_str False ''version'' @ '':'' @ [CHR 0x22] @ op_version plan @ [CHR 0x22] @ ''}'') b)
          \<lparr>b_image := Some img\<rparr>)"

definition ota_checkNow :: "board_lib \<Rightarrow> board_config \<Rightarrow> ota_world \<Rightarrow> board \<Rightarrow> board" where
  "ota_checkNow lib cfg w b =
     (case check_manifest lib cfg (ow_manifest w) of
        Ota_nothing \<Rightarrow> b
      | Ota_bad_signature \<Rightarrow> sendEvent ''ota_rejected'' ''failure'' (reason_detail ''bad_manifest_signature'') b
      | Ota_apply plan \<Rightarrow> applyUpdate lib w plan b)"

definition ota_begin :: "board_config \<Rightarrow> 32 word \<Rightarrow> board \<Rightarrow> board" where
  "ota_begin cfg now_ms b = b\<lparr>b_ota_enabled := (cfg_ota_manifest_url cfg \<noteq> []), b_ota_next_ms := now_ms + 60 * 1000\<rparr>"

definition ota_tick :: "board_lib \<Rightarrow> board_config \<Rightarrow> 32 word \<Rightarrow> ota_world \<Rightarrow> board \<Rightarrow> board" where
  "ota_tick lib cfg now_ms w b =
     (if \<not> b_ota_enabled b then b
      else if sint (now_ms - b_ota_next_ms b) < 0 then b
      else ota_checkNow lib cfg w (b\<lparr>b_ota_next_ms := now_ms + cfg_ota_check_hours cfg * 3600 * 1000\<rparr>))"

section \<open>main.cpp\<close>

definition state_detail :: "bool \<Rightarrow> string" where
  "state_detail closed = dumps False False (JObj [(''state'', JStr (if closed then ''closed'' else ''open''))])"

definition readInputs :: "32 word \<Rightarrow> bool \<Rightarrow> bool \<Rightarrow> board \<Rightarrow> board" where
  "readInputs now_ms tamperOpen doorClosed b =
     (if now_ms - b_last_sense_ms b < 1000 then b
      else let b1 = b\<lparr>b_last_sense_ms := now_ms\<rparr>;
               b2 = (if tamperOpen \<and> \<not> b_tamper_latched b1
                     then sendEvent ''tamper'' ''failure'' (state_detail False) (b1\<lparr>b_tamper_latched := True\<rparr>) else b1)
           in if doorClosed \<noteq> b_last_door_closed b2
              then sendEvent ''door_sense'' ''success'' (state_detail doorClosed) (b2\<lparr>b_last_door_closed := doorClosed\<rparr>) else b2)"

definition ws_begin :: "32 word \<Rightarrow> board \<Rightarrow> board" where
  "ws_begin now_ms b = led_set now_ms ServerConnecting (b\<lparr>b_last_pong_ms := now_ms\<rparr>)"

text \<open>\<^verbatim>\<open>setup()\<close>: the relay is driven off, the LED shows the Wi-Fi being joined, the first update check is a minute away.\<close>

definition board_setup :: "board_config \<Rightarrow> 32 word \<Rightarrow> board" where
  "board_setup cfg now_ms =
     ota_begin cfg now_ms (led_set now_ms WifiConnecting (fresh_board\<lparr>b_energised := False\<rparr>))"

text \<open>
  One turn of \<^verbatim>\<open>loop()\<close>: whether Wi-Fi is up, the two input pins, the events \<^verbatim>\<open>socketClient.loop()\<close> hands to
  the callback, and what an update check would meet.
\<close>

record turn =
  tn_ms :: "32 word"
  tn_time :: int
  tn_wifi :: bool
  tn_events :: "ws_event list"
  tn_tamper_open :: bool
  tn_door_closed :: bool
  tn_ota :: ota_world

text \<open>The part of the turn before the socket is served, and the part from there on.\<close>

definition loop_head :: "board_lib \<Rightarrow> board_config \<Rightarrow> turn \<Rightarrow> board \<Rightarrow> board" where
  "loop_head lib cfg tn b =
     (let now_ms = tn_ms tn;
          b1 = (if tn_wifi tn
                then (if \<not> b_link_started b then (ws_begin now_ms b)\<lparr>b_link_started := True\<rparr> else b)
                else led_set now_ms WifiConnecting b)
      in beacon_tick lib cfg (tn_time tn) (led_tick now_ms (relay_tick now_ms b1)))"

definition ws_loop_tick :: "board_lib \<Rightarrow> board_config \<Rightarrow> turn \<Rightarrow> board \<Rightarrow> board" where
  "ws_loop_tick lib cfg tn b =
     ws_tick cfg (tn_ms tn) (fold (handleEvent lib cfg (tn_ms tn) (tn_time tn)) (tn_events tn) b)"

definition board_loop :: "board_lib \<Rightarrow> board_config \<Rightarrow> turn \<Rightarrow> board \<Rightarrow> board" where
  "board_loop lib cfg tn b =
     (if b_image b \<noteq> None then b
      else let b2 = loop_head lib cfg tn b
           in if \<not> b_link_started b2 then b2
              else let b4 = ota_tick lib cfg (tn_ms tn) (tn_ota tn) (ws_loop_tick lib cfg tn b2)
                   in if b_image b4 \<noteq> None then b4
                      else readInputs (tn_ms tn) (tn_tamper_open tn) (tn_door_closed tn) b4)"

definition board_run :: "board_lib \<Rightarrow> board_config \<Rightarrow> turn list \<Rightarrow> board \<Rightarrow> board" where
  "board_run lib cfg turns b = fold (board_loop lib cfg) turns b"

end
