(* ===== verification/Firmware_Correct.thy ===== *)
theory Firmware_Correct
  imports Firmware
begin

text \<open>
  What the door controller guarantees, by itself and together with the backend.
\<close>

section \<open>The signed text\<close>

text \<open>The text the board writes is read back as the command's fields, whatever characters they hold.\<close>

lemma scan_fw_escape: "scan_string (fw_escape c @ t) = map_option (cons_fst c) (scan_string t)"
proof (cases "c \<in> {CHR 0x22, CHR 0x5C}")
  case True
  then show ?thesis by (auto simp: fw_escape_def unescape_def Let_def)
next
  case False
  let ?n = "of_char c :: nat"
  show ?thesis
  proof (cases "?n < 32")
    case True
    with False have esc: "fw_escape c = CHR 0x5C # ''u00'' @ [hex_digit (?n div 16), hex_digit (?n mod 16)]"
      by (simp add: fw_escape_def Let_def)
    show ?thesis unfolding esc by (simp add: hex4_escape del: hex4.simps)
  next
    case large: False
    with False have esc: "fw_escape c = [c]" by (simp add: fw_escape_def Let_def)
    show ?thesis unfolding esc using False large by simp
  qed
qed

lemma scan_appended: "scan_string (concat (map fw_escape s) @ CHR 0x22 # r) = Some (s, r)"
  by (induction s) (simp_all add: scan_fw_escape cons_fst_def del: scan_string.simps(2), simp)

lemma denotes_text: "denotes (appendJsonString s) (JStr s)"
  unfolding denotes_def
proof (intro conjI allI impI)
  show "starts_value (appendJsonString s)" by (simp add: appendJsonString_def starts_value_def)
  fix fuel r
  assume "2 * length (appendJsonString s) < fuel"
  then obtain n where "fuel = Suc n" by (cases fuel) auto
  then show "parse_value fuel (appendJsonString s @ r) = Some (JStr s, r)"
    by (simp add: appendJsonString_def scan_appended)
qed

lemma denotes_int: "denotes (py_str_int i) (JInt i)"
  using denotes_dumps [OF parses_all, of "JInt i" False] by simp

lemma denotes_nat: "denotes (nat_digits n) (JInt (int n))"
  using denotes_int [of "int n"] by (simp add: py_str_int_def)

lemma denotes_quoted: "denotes (quote_str False s) (JStr s)"
  using denotes_dumps [OF parses_all, of "JStr s" False] by simp

definition command_entries :: "UnlockCommand \<Rightarrow> (string \<times> string \<times> json) list" where
  "command_entries c =
     [(''cmd'', quote_str False ''unlock'', JStr ''unlock''),
      (''command_id'', appendJsonString (commandId c), JStr (commandId c)),
      (''controller_code'', appendJsonString (controllerCode c), JStr (controllerCode c)),
      (''door_code'', appendJsonString (doorCode c), JStr (doorCode c)),
      (''duration_ms'', nat_digits (unat (durationMs c)), JInt (uint (durationMs c))),
      (''expires_at'', py_str_int (expiresAt c), JInt (expiresAt c)),
      (''issued_at'', py_str_int (issuedAt c), JInt (issuedAt c)),
      (''nonce'', appendJsonString (cmdNonce c), JStr (cmdNonce c)),
      (''relay_channel'', nat_digits (unat (relayChannel c)), JInt (uint (relayChannel c)))]"

definition command_fields :: "UnlockCommand \<Rightarrow> obj" where
  "command_fields c = map entry_member (command_entries c)"

lemma command_text_entries:
  "command_text c = CHR ''{'' # py_join '','' (map (entry_text False) (command_entries c)) @ ''}''"
  by (simp add: command_text_def command_entries_def)

lemma loads_command_text: "loads (command_text c) = Some (JObj (command_fields c))"
proof -
  have "denotes (fst (snd e)) (snd (snd e))" if "e \<in> set (command_entries c)" for e
    using that denotes_nat [of "unat (durationMs c)"] denotes_nat [of "unat (relayChannel c)"]
    by (auto simp: command_entries_def denotes_text denotes_int denotes_quoted)
  moreover have "distinct (map fst (command_entries c))" by (simp add: command_entries_def)
  ultimately have "denotes (command_text c) (JObj (command_fields c))"
    unfolding command_text_entries command_fields_def by (rule parse_object)
  from loads_denotes [OF this, of "[]"] show ?thesis by simp
qed

lemma canon_scalar: "canon j = JInt i \<longleftrightarrow> j = JInt i" "canon j = JStr s \<longleftrightarrow> j = JStr s"
  by (cases j; simp)+

text \<open>
  A command whose bytes are those of a payload has the payload's fields: the signature fixes all that
  the board acts on.
\<close>

lemma canonical_agrees:
  assumes "json_ok (JObj p)" and "canonicalCommandBytes c n = canonical_bytes p"
  shows "obj_get p k = obj_get (command_fields c) k"
proof -
  have "canonicalCommandBytes c n \<noteq> []"
    unfolding assms(2) by (simp add: canonical_bytes_def COMMAND_DOMAIN_def)
  then have "utf8 (command_text c) = utf8 (dumps True False (JObj p))"
    using assms(2) by (simp add: canonicalCommandBytes_def canonical_bytes_def COMMAND_DOMAIN_def Let_def
        split: if_splits del: dumps.simps)
  then have "dumps False False (canon (JObj p)) = command_text c" by (simp only: utf8_inj dumps_sorted)
  then have "Some (canon (JObj p)) = Some (JObj (command_fields c))"
    using loads_dumps [OF canon_ok [OF assms(1)], of False] loads_command_text by simp
  then have "command_fields c = sort_keys (map (\<lambda>kv. (fst kv, canon (snd kv))) p)" by simp
  moreover have "distinct (map fst (map (\<lambda>kv. (fst kv, canon (snd kv))) p))" using assms(1) by (simp add: comp_def)
  ultimately have eq: "map_option canon (obj_get p k) = obj_get (command_fields c) k"
    by (simp add: obj_get_sort_keys obj_get_map)
  have "\<exists>i s. v = JInt i \<or> v = JStr s" if "obj_get (command_fields c) k = Some v" for v
    using that by (auto simp: obj_get_def command_fields_def command_entries_def split: if_splits)
  with eq show ?thesis
    by (cases "obj_get p k"; cases "obj_get (command_fields c) k") (auto simp: canon_scalar)
qed

lemma command_field_values [simp]:
  "obj_get (command_fields c) ''cmd'' = Some (JStr ''unlock'')"
  "obj_get (command_fields c) ''command_id'' = Some (JStr (commandId c))"
  "obj_get (command_fields c) ''controller_code'' = Some (JStr (controllerCode c))"
  "obj_get (command_fields c) ''door_code'' = Some (JStr (doorCode c))"
  "obj_get (command_fields c) ''duration_ms'' = Some (JInt (uint (durationMs c)))"
  "obj_get (command_fields c) ''expires_at'' = Some (JInt (expiresAt c))"
  "obj_get (command_fields c) ''issued_at'' = Some (JInt (issuedAt c))"
  "obj_get (command_fields c) ''nonce'' = Some (JStr (cmdNonce c))"
  "obj_get (command_fields c) ''relay_channel'' = Some (JInt (uint (relayChannel c)))"
  by (simp_all add: obj_get_def command_fields_def command_entries_def)


lemma signed_fields:
  assumes "json_ok (JObj p)" and "canonicalCommandBytes c n = canonical_bytes p"
  shows "obj_get p ''controller_code'' = Some (JStr (controllerCode c))"
    "obj_get p ''command_id'' = Some (JStr (commandId c))"
    "obj_get p ''duration_ms'' = Some (JInt (uint (durationMs c)))"
    "obj_get p ''issued_at'' = Some (JInt (issuedAt c))" "obj_get p ''expires_at'' = Some (JInt (expiresAt c))"
  by (simp_all add: canonical_agrees [OF assms])

section \<open>Who moves the relay\<close>

text \<open>The relay's two fields, and the ring of honoured commands.\<close>

abbreviation relay_of :: "board \<Rightarrow> bool \<times> 32 word" where
  "relay_of b \<equiv> (b_energised b, b_off_at_ms b)"

abbreviation ring_of :: "board \<Rightarrow> string list \<times> nat" where
  "ring_of b \<equiv> (b_seen b, b_seen_next b)"

definition same_door :: "board \<Rightarrow> board \<Rightarrow> bool" where
  "same_door b b' \<longleftrightarrow> relay_of b' = relay_of b \<and> ring_of b' = ring_of b"

named_theorems door_frame

lemma same_door_refl [door_frame]: "same_door b b"
  by (simp add: same_door_def)

lemma same_door_trans: "same_door b b' \<Longrightarrow> same_door b' b'' \<Longrightarrow> same_door b b''"
  by (simp add: same_door_def)

lemma same_door_led [door_frame]: "same_door b (led_set t st b)" "same_door b (led_tick t b)"
  by (simp_all add: same_door_def led_set_def led_tick_def Let_def split: led_state.split)

lemma same_door_sent [door_frame]:
  "same_door b (send_text t b)" "same_door b (sendAck lib now_ms cid result detail ms b)"
  "same_door b (reject lib now_ms cid detail b)" "same_door b (sendEvent e o' d b)"
  "same_door b (handleChallenge lib cfg nonce b)"
  by (simp_all add: same_door_def send_text_def sendAck_def reject_def led_set_def sendEvent_def handleChallenge_def Let_def)

lemma same_door_beacon [door_frame]: "same_door b (beacon_tick lib cfg now b)"
  by (simp add: same_door_def beacon_tick_def updateAdvertisement_def Let_def)

lemma same_door_ws [door_frame]: "same_door b (ws_tick cfg now_ms b)" "same_door b (ws_begin now_ms b)"
  by (simp_all add: same_door_def ws_tick_def ws_begin_def led_set_def)

lemma same_door_inputs [door_frame]: "same_door b (readInputs now_ms tamper closed b)"
  by (simp add: same_door_def readInputs_def sendEvent_def send_text_def Let_def)

lemma same_door_ota [door_frame]: "same_door b (ota_tick lib cfg now_ms w b)"
  by (simp add: same_door_def ota_tick_def ota_checkNow_def applyUpdate_def sendEvent_def send_text_def
      split: manifest_verdict.split image_verdict.split)

text \<open>A message changes the relay or the ring only by honouring a command.\<close>

definition honoured_command ::
  "board_lib \<Rightarrow> board_config \<Rightarrow> int \<Rightarrow> board \<Rightarrow> ws_event \<Rightarrow> UnlockCommand option"
where
  "honoured_command lib cfg now b ev =
     (case ev of
        Ws_text t \<Rightarrow>
          (case bl_json lib t of
             Some document \<Rightarrow>
               (if text_member document ''type'' = ''command'' then
                  (case parseUnlockCommand (json_member document ''payload'') of
                     Some c \<Rightarrow> if command_verdict lib cfg now b document c = None then Some c else None
                   | None \<Rightarrow> None)
                else None)
           | None \<Rightarrow> None)
      | _ \<Rightarrow> None)"

lemma honoured_command_Some:
  "honoured_command lib cfg now b ev = Some c \<Longrightarrow>
     \<exists>document. parseUnlockCommand (json_member document ''payload'') = Some c \<and>
       command_verdict lib cfg now b document c = None"
  by (auto simp: honoured_command_def split: ws_event.splits option.splits if_splits)

definition opened_by :: "board_config \<Rightarrow> 32 word \<Rightarrow> UnlockCommand \<Rightarrow> board \<Rightarrow> board \<Rightarrow> bool" where
  "opened_by cfg now_ms c b b' \<longleftrightarrow>
     relay_of b' = (True, now_ms + min (durationMs c) (cfg_relay_max_ms cfg)) \<and>
     ring_of b' = ((b_seen b)[b_seen_next b := commandId c], (b_seen_next b + 1) mod kSeenCapacity)"

lemma clamp_min: "(if m < r then m else r) = min r (m :: 32 word)"
  by (auto simp: min_def)

lemma handleEvent_door:
  "case honoured_command lib cfg now b ev of
     Some c \<Rightarrow> opened_by cfg now_ms c b (handleEvent lib cfg now_ms now ev b)
   | None \<Rightarrow> same_door b (handleEvent lib cfg now_ms now ev b)"
proof (cases ev)
  case (Ws_text t)
  let ?b = "b\<lparr>b_last_pong_ms := now_ms\<rparr>"
  have pong: "same_door b ?b" by (simp add: same_door_def)
  have seen: "command_verdict lib cfg now ?b d c = command_verdict lib cfg now b d c" for d c
    by (simp add: command_verdict_def commandAlreadySeen_def Let_def)
  note frame = same_door_trans [OF pong]
  show ?thesis
  proof (cases "bl_json lib t")
    case None
    then show ?thesis using Ws_text pong by (simp add: handleText_def honoured_command_def)
  next
    case (Some document)
    show ?thesis
    proof (cases "text_member document ''type'' = ''command''")
      case False
      have "same_door ?b (handleText lib cfg now_ms now t ?b)"
        using Some False by (auto simp: handleText_def Let_def same_door_sent same_door_refl)
          (simp add: same_door_def led_set_def)
      then show ?thesis using Ws_text Some False frame by (simp add: honoured_command_def)
    next
      case True
      have run: "handleEvent lib cfg now_ms now ev b = handleCommand lib cfg now_ms now t ?b"
        using Ws_text Some True by (simp add: handleText_def)
      show ?thesis
      proof (cases "parseUnlockCommand (json_member document ''payload'')")
        case None
        then show ?thesis
          unfolding run using Ws_text Some True frame
          by (simp add: honoured_command_def handleCommand_def door_frame)
      next
        case c: (Some c)
        show ?thesis
          unfolding run using Ws_text Some True c frame
          by (cases "command_verdict lib cfg now b document c")
            (simp_all add: honoured_command_def handleCommand_def seen opened_by_def sendAck_def send_text_def led_set_def
              relay_pulse_def rememberCommand_def clamp_min door_frame Let_def)
      qed
    qed
  qed
qed (simp_all add: honoured_command_def same_door_def led_set_def)

section \<open>Runs\<close>

fun honoured_ids ::
  "board_lib \<Rightarrow> board_config \<Rightarrow> 32 word \<Rightarrow> int \<Rightarrow> ws_event list \<Rightarrow> board \<Rightarrow> string list"
where
  "honoured_ids lib cfg now_ms now [] b = []"
| "honoured_ids lib cfg now_ms now (ev # evs) b =
     (case honoured_command lib cfg now b ev of Some c \<Rightarrow> [commandId c] | None \<Rightarrow> []) @
     honoured_ids lib cfg now_ms now evs (handleEvent lib cfg now_ms now ev b)"

text \<open>The identifiers of the commands honoured in a turn and in a run, in their order.\<close>

definition turn_honoured :: "board_lib \<Rightarrow> board_config \<Rightarrow> turn \<Rightarrow> board \<Rightarrow> string list" where
  "turn_honoured lib cfg tn b =
     (if b_image b \<noteq> None \<or> \<not> b_link_started (loop_head lib cfg tn b) then []
      else honoured_ids lib cfg (tn_ms tn) (tn_time tn) (tn_events tn) (loop_head lib cfg tn b))"

fun run_honoured :: "board_lib \<Rightarrow> board_config \<Rightarrow> turn list \<Rightarrow> board \<Rightarrow> string list" where
  "run_honoured lib cfg [] b = []"
| "run_honoured lib cfg (tn # tns) b =
     turn_honoured lib cfg tn b @ run_honoured lib cfg tns (board_loop lib cfg tn b)"

lemma board_run_Cons: "board_run lib cfg (tn # tns) b = board_run lib cfg tns (board_loop lib cfg tn b)"
  by (simp add: board_run_def)

lemma board_run_snoc: "board_run lib cfg (tns @ [tn]) b = board_loop lib cfg tn (board_run lib cfg tns b)"
  by (simp add: board_run_def)

text \<open>What a turn does to the door: the head may switch the relay off, the events may honour commands.\<close>

lemma loop_head_door:
  "ring_of (loop_head lib cfg tn b) = ring_of b"
  "b_off_at_ms (loop_head lib cfg tn b) = b_off_at_ms b"
  "b_energised (loop_head lib cfg tn b) \<longleftrightarrow> b_energised b \<and> sint (tn_ms tn - b_off_at_ms b) < 0"
proof -
  define b1 where "b1 = (if tn_wifi tn
      then (if \<not> b_link_started b then (ws_begin (tn_ms tn) b)\<lparr>b_link_started := True\<rparr> else b)
      else led_set (tn_ms tn) WifiConnecting b)"
  have b1: "same_door b b1"
    by (simp add: b1_def same_door_def ws_begin_def led_set_def)
  have "same_door (relay_tick (tn_ms tn) b1) (loop_head lib cfg tn b)"
    unfolding loop_head_def Let_def b1_def [symmetric]
    by (rule same_door_trans [OF same_door_led(2) same_door_beacon])
  with b1 show "ring_of (loop_head lib cfg tn b) = ring_of b" "b_off_at_ms (loop_head lib cfg tn b) = b_off_at_ms b"
    "b_energised (loop_head lib cfg tn b) \<longleftrightarrow> b_energised b \<and> sint (tn_ms tn - b_off_at_ms b) < 0"
    by (auto simp: same_door_def relay_tick_def)
qed

lemma loop_head_started: "b_link_started (loop_head lib cfg tn b) \<longleftrightarrow> b_link_started b \<or> tn_wifi tn"
  by (simp add: loop_head_def beacon_tick_def updateAdvertisement_def led_tick_def relay_tick_def ws_begin_def led_set_def
      Let_def split: led_state.split)

lemma board_loop_door:
  assumes "b_image b = None" and "b_link_started (loop_head lib cfg tn b)"
  shows "same_door (fold (handleEvent lib cfg (tn_ms tn) (tn_time tn)) (tn_events tn) (loop_head lib cfg tn b))
    (board_loop lib cfg tn b)"
proof -
  let ?b3 = "ws_loop_tick lib cfg tn (loop_head lib cfg tn b)"
  let ?b4 = "ota_tick lib cfg (tn_ms tn) (tn_ota tn) ?b3"
  have "same_door (fold (handleEvent lib cfg (tn_ms tn) (tn_time tn)) (tn_events tn) (loop_head lib cfg tn b)) ?b3"
    unfolding ws_loop_tick_def by (rule same_door_ws)
  then have "same_door (fold (handleEvent lib cfg (tn_ms tn) (tn_time tn)) (tn_events tn) (loop_head lib cfg tn b)) ?b4"
    by (rule same_door_trans [OF _ same_door_ota])
  then show ?thesis
    using assms same_door_trans [OF _ same_door_inputs [of ?b4]] by (simp add: board_loop_def Let_def)
qed

lemma board_loop_idle:
  assumes "b_image b \<noteq> None \<or> \<not> b_link_started (loop_head lib cfg tn b)"
  shows "board_loop lib cfg tn b = (if b_image b \<noteq> None then b else loop_head lib cfg tn b)"
  using assms by (auto simp: board_loop_def Let_def)

section \<open>The ring of honoured commands\<close>

text \<open>After honouring the commands of \<open>log\<close>, the ring holds the last sixteen of them, each at its place.\<close>

definition ring_holds :: "string list \<Rightarrow> board \<Rightarrow> bool" where
  "ring_holds log b \<longleftrightarrow> length (b_seen b) = kSeenCapacity \<and> b_seen_next b = length log mod kSeenCapacity \<and>
     (\<forall>i < length log. length log \<le> i + kSeenCapacity \<longrightarrow> b_seen b ! (i mod kSeenCapacity) = log ! i)"

definition spaced :: "string list \<Rightarrow> bool" where
  "spaced log \<longleftrightarrow> (\<forall>i j. i < j \<and> j < length log \<and> log ! i = log ! j \<and> log ! i \<noteq> [] \<longrightarrow> i + kSeenCapacity < j)"

lemma ring_same_door: "same_door b b' \<Longrightarrow> ring_holds log b' = ring_holds log b"
  by (simp add: same_door_def ring_holds_def)

lemma ring_opened:
  assumes "ring_holds log b" and "opened_by cfg now_ms c b b'"
  shows "ring_holds (log @ [commandId c]) b'"
proof -
  have slot: "i mod 16 \<noteq> n mod 16" if "i < n" "n < i + 16" for i n :: nat
  proof
    assume "i mod 16 = n mod 16"
    then have "16 dvd n - i" using that(1) by (metis less_imp_le mod_eq_dvd_iff_nat)
    then show False using that by (auto dest: dvd_imp_le)
  qed
  have len: "length (b_seen b) = 16" "b_seen_next b = length log mod 16"
    and old: "\<And>i. i < length log \<Longrightarrow> length log \<le> i + 16 \<Longrightarrow> b_seen b ! (i mod 16) = log ! i"
    using assms(1) by (simp_all add: ring_holds_def kSeenCapacity_def)
  have new: "b_seen b' = (b_seen b)[length log mod 16 := commandId c]" "b_seen_next b' = Suc (length log) mod 16"
    using assms(2) len by (simp_all add: opened_by_def kSeenCapacity_def mod_Suc_eq)
  have "b_seen b' ! (i mod 16) = (log @ [commandId c]) ! i" if "i < Suc (length log)" "Suc (length log) \<le> i + 16" for i
  proof (cases "i = length log")
    case True
    then show ?thesis by (simp add: new len)
  next
    case False
    with that have "i < length log" "length log < i + 16" by simp_all
    then show ?thesis using slot [of i "length log"] old [of i] by (simp add: new nth_append)
  qed
  then show ?thesis by (simp add: ring_holds_def kSeenCapacity_def new len)
qed

lemma honoured_not_recent:
  assumes "honoured_command lib cfg now b ev = Some c" and "ring_holds log b"
    and "i < length log" and "log ! i = commandId c" and "log ! i \<noteq> []"
  shows "i + kSeenCapacity < length log"
proof (rule ccontr)
  assume near: "\<not> i + kSeenCapacity < length log"
  from honoured_command_Some [OF assms(1)] obtain document
    where "command_verdict lib cfg now b document c = None" by blast
  then have "\<not> commandAlreadySeen (commandId c) b" by (auto simp: command_verdict_def Let_def split: if_splits)
  moreover have "b_seen b ! (i mod kSeenCapacity) = log ! i" "i mod kSeenCapacity < length (b_seen b)"
    using near assms(2,3) by (simp_all add: ring_holds_def kSeenCapacity_def)
  then have "log ! i \<in> set (b_seen b)" by (metis nth_mem)
  ultimately show False using assms(4,5) by (auto simp: commandAlreadySeen_def list_ex_iff)
qed

lemma spaced_snoc:
  assumes "spaced log" and "\<And>i. i < length log \<Longrightarrow> log ! i = x \<Longrightarrow> x \<noteq> [] \<Longrightarrow> i + kSeenCapacity < length log"
  shows "spaced (log @ [x])"
  using assms unfolding spaced_def by (auto simp: nth_append less_Suc_eq)

lemma events_ring:
  assumes "ring_holds log b" and "spaced log"
  shows "ring_holds (log @ honoured_ids lib cfg now_ms now evs b) (fold (handleEvent lib cfg now_ms now) evs b)
    \<and> spaced (log @ honoured_ids lib cfg now_ms now evs b)"
  using assms
proof (induction evs arbitrary: log b)
  case Nil
  then show ?case by simp
next
  case (Cons ev evs)
  note step = handleEvent_door [where lib = lib and cfg = cfg and now = now and b = b and ev = ev and now_ms = now_ms]
  show ?case
  proof (cases "honoured_command lib cfg now b ev")
    case None
    with step have "ring_holds log (handleEvent lib cfg now_ms now ev b)"
      using Cons.prems(1) by (simp add: ring_same_door)
    from Cons.IH [OF this Cons.prems(2)] None show ?thesis by simp
  next
    case (Some c)
    with step have "ring_holds (log @ [commandId c]) (handleEvent lib cfg now_ms now ev b)"
      using Cons.prems(1) ring_opened by fastforce
    moreover have "spaced (log @ [commandId c])"
      using honoured_not_recent [OF Some Cons.prems(1)] by (intro spaced_snoc Cons.prems) auto
    ultimately show ?thesis using Cons.IH [of "log @ [commandId c]"] Some by simp
  qed
qed

lemma turn_ring:
  assumes "ring_holds log b" and "spaced log"
  shows "ring_holds (log @ turn_honoured lib cfg tn b) (board_loop lib cfg tn b) \<and> spaced (log @ turn_honoured lib cfg tn b)"
proof -
  have head: "ring_holds log (loop_head lib cfg tn b)" using assms(1) loop_head_door(1) [of lib cfg tn b] by (simp add: ring_holds_def)
  show ?thesis
  proof (cases "b_image b \<noteq> None \<or> \<not> b_link_started (loop_head lib cfg tn b)")
    case True
    then show ?thesis using assms head by (auto simp: turn_honoured_def board_loop_idle)
  next
    case False
    then show ?thesis
      using events_ring [OF head assms(2)] ring_same_door [OF board_loop_door] by (simp add: turn_honoured_def)
  qed
qed

lemma run_ring:
  assumes "ring_holds log b" and "spaced log"
  shows "ring_holds (log @ run_honoured lib cfg tns b) (board_run lib cfg tns b) \<and> spaced (log @ run_honoured lib cfg tns b)"
  using assms
proof (induction tns arbitrary: log b)
  case Nil
  then show ?case by (simp add: board_run_def)
next
  case (Cons tn tns)
  from turn_ring [OF Cons.prems, of lib cfg tn] Cons.IH [of "log @ turn_honoured lib cfg tn b" "board_loop lib cfg tn b"]
  show ?case by (simp add: board_run_Cons)
qed

lemma setup_ring: "ring_holds [] (board_setup cfg ms) \<and> spaced []"
  by (simp add: ring_holds_def spaced_def board_setup_def ota_begin_def led_set_def fresh_board_def)


section \<open>What an opening rests on\<close>

text \<open>A command that would pass every check but the ring's in some state at \<open>now\<close>.\<close>

definition lawful :: "board_lib \<Rightarrow> board_config \<Rightarrow> int \<Rightarrow> UnlockCommand \<Rightarrow> bool" where
  "lawful lib cfg now c \<longleftrightarrow>
     controllerCode c = cfg_controller_code cfg \<and>
     (\<exists>signature. bl_ed_verify lib (cfg_signer_public_key cfg) signature (canonicalCommandBytes c kMaxCanonical)) \<and>
     kClockSane \<le> now \<and> now \<le> expiresAt c + cfg_max_clock_skew_s cfg \<and> issuedAt c \<le> now + cfg_max_clock_skew_s cfg"

lemma honoured_lawful: "honoured_command lib cfg now b ev = Some c \<Longrightarrow> lawful lib cfg now c"
  by (auto dest!: honoured_command_Some simp: command_verdict_def lawful_def Let_def not_less split: if_splits)

lemma events_relay:
  "relay_of (fold (handleEvent lib cfg now_ms now) evs b) = relay_of b \<or>
   (\<exists>c. lawful lib cfg now c \<and>
     relay_of (fold (handleEvent lib cfg now_ms now) evs b) = (True, now_ms + min (durationMs c) (cfg_relay_max_ms cfg)))"
proof (induction evs arbitrary: b)
  case (Cons ev evs)
  note step = handleEvent_door [where lib = lib and cfg = cfg and now = now and b = b and ev = ev and now_ms = now_ms]
  show ?case
  proof (cases "honoured_command lib cfg now b ev")
    case None
    with step show ?thesis using Cons [of "handleEvent lib cfg now_ms now ev b"] by (simp add: same_door_def)
  next
    case (Some c)
    with step show ?thesis
      using Cons [of "handleEvent lib cfg now_ms now ev b"] honoured_lawful [OF Some]
      by (auto simp: opened_by_def)
  qed
qed simp

text \<open>While the relay is energised, some turn of the run honoured a command, and set the time it ends.\<close>

definition accounted :: "board_lib \<Rightarrow> board_config \<Rightarrow> turn list \<Rightarrow> board \<Rightarrow> bool" where
  "accounted lib cfg turns b \<longleftrightarrow> (b_energised b \<longrightarrow>
     (\<exists>tn \<in> set turns. \<exists>c. lawful lib cfg (tn_time tn) c \<and>
        b_off_at_ms b = tn_ms tn + min (durationMs c) (cfg_relay_max_ms cfg)))"

lemma accounted_cong: "relay_of b' = relay_of b \<Longrightarrow> accounted lib cfg turns b' = accounted lib cfg turns b"
  by (simp add: accounted_def)

lemma accounted_more: "accounted lib cfg turns b \<Longrightarrow> accounted lib cfg (turns @ ts) b"
  unfolding accounted_def set_append by blast

lemma accounted_turn:
  assumes "accounted lib cfg turns b"
  shows "accounted lib cfg (turns @ [tn]) (board_loop lib cfg tn b)"
proof -
  let ?b2 = "loop_head lib cfg tn b"
  have head: "accounted lib cfg turns ?b2" using assms by (auto simp: accounted_def loop_head_door)
  show ?thesis
  proof (cases "b_image b \<noteq> None \<or> \<not> b_link_started ?b2")
    case True
    then show ?thesis using assms head by (auto simp: accounted_def board_loop_idle)
  next
    case False
    then have "same_door (fold (handleEvent lib cfg (tn_ms tn) (tn_time tn)) (tn_events tn) ?b2) (board_loop lib cfg tn b)"
      by (intro board_loop_door) auto
    then have relay: "relay_of (board_loop lib cfg tn b) =
        relay_of (fold (handleEvent lib cfg (tn_ms tn) (tn_time tn)) (tn_events tn) ?b2)" by (simp add: same_door_def)
    from events_relay [of lib cfg "tn_ms tn" "tn_time tn" "tn_events tn" ?b2] show ?thesis
    proof
      assume "relay_of (fold (handleEvent lib cfg (tn_ms tn) (tn_time tn)) (tn_events tn) ?b2) = relay_of ?b2"
      with relay have "relay_of (board_loop lib cfg tn b) = relay_of ?b2" by simp
      from accounted_cong [OF this] accounted_more [OF head] show ?thesis by simp
    next
      assume "\<exists>c. lawful lib cfg (tn_time tn) c \<and>
        relay_of (fold (handleEvent lib cfg (tn_ms tn) (tn_time tn)) (tn_events tn) ?b2) =
          (True, tn_ms tn + min (durationMs c) (cfg_relay_max_ms cfg))"
      with relay show ?thesis by (auto simp: accounted_def)
    qed
  qed
qed

lemma accounted_run:
  "\<not> b_energised b \<Longrightarrow> accounted lib cfg turns (board_run lib cfg turns b)"
proof (induction turns rule: rev_induct)
  case Nil
  then show ?case by (simp add: accounted_def board_run_def)
next
  case (snoc tn turns)
  then show ?case by (simp add: board_run_snoc accounted_turn)
qed

lemma setup_off: "\<not> b_energised (board_setup cfg ms)"
  by (simp add: board_setup_def ota_begin_def led_set_def fresh_board_def)

lemma setup_parts: "b_image (board_setup cfg ms) = None" "b_seen (board_setup cfg ms) = replicate kSeenCapacity []"
  by (simp_all add: board_setup_def ota_begin_def led_set_def fresh_board_def)

text \<open>The fields of a lawful command, when only bytes the signer signed verify.\<close>

lemma lawful_signed:
  assumes "lawful lib cfg now c"
    and "\<And>s m. bl_ed_verify lib (cfg_signer_public_key cfg) s m \<Longrightarrow> \<exists>p \<in> asked. m = canonical_bytes p \<and>
      (\<exists>r. sign_command (signer_socket_of ed_public ed_sign svc) p = Inr r)"
    and "\<And>p. p \<in> asked \<Longrightarrow> json_ok (JObj p)"
  obtains p where "p \<in> asked" and "within_limits p"
    and "obj_get p ''controller_code'' = Some (JStr (cfg_controller_code cfg))"
    and "obj_get p ''duration_ms'' = Some (JInt (uint (durationMs c)))"
    and "obj_get p ''issued_at'' = Some (JInt (issuedAt c))" and "obj_get p ''expires_at'' = Some (JInt (expiresAt c))"
proof -
  from assms(1) obtain s where "bl_ed_verify lib (cfg_signer_public_key cfg) s (canonicalCommandBytes c kMaxCanonical)"
    and code: "controllerCode c = cfg_controller_code cfg" by (auto simp: lawful_def)
  then obtain p r where p: "p \<in> asked" and eq: "canonicalCommandBytes c kMaxCanonical = canonical_bytes p"
    and sign: "sign_command (signer_socket_of ed_public ed_sign svc) p = Inr r"
    using assms(2) by blast
  have "within_limits p"
    using sign sign_command_signer [OF assms(3) [OF p]] validate_command_iff [of p]
    by (auto split: if_splits sum.splits)
  then show thesis using that p signed_fields [OF assms(3) [OF p] eq] code by metis
qed


section \<open>No command twice\<close>

lemma distinct_filter_nth:
  assumes "\<And>i j. i < j \<Longrightarrow> j < length xs \<Longrightarrow> P (xs ! i) \<Longrightarrow> xs ! i \<noteq> xs ! j"
  shows "distinct (filter P xs)"
  using assms
proof (induction xs)
  case (Cons x xs)
  have "x \<noteq> y" if "P x" "y \<in> set xs" for y
    using that Cons.prems [of 0] by (force simp: in_set_conv_nth)
  moreover have "distinct (filter P xs)"
    using Cons.prems [of "Suc i" "Suc j" for i j] by (intro Cons.IH) simp
  ultimately show ?case by auto
qed simp



section \<open>Inputs\<close>

text \<open>
  An enclosure opened while the board is not authenticated is latched without a report, and once latched the
  switch is never reported again, in this connection or a later one.
\<close>

lemma tamper_report_lost:
  assumes "\<not> b_authenticated b" and "\<not> now_ms - b_last_sense_ms b < 1000"
  shows "b_sent (readInputs now_ms True closed b) = b_sent b" and "b_tamper_latched (readInputs now_ms True closed b)"
  using assms by (simp_all add: readInputs_def sendEvent_def Let_def)

lemma tamper_latched_silent:
  "b_tamper_latched b \<Longrightarrow> readInputs now_ms tamper closed b = readInputs now_ms False closed b \<and>
     b_tamper_latched (readInputs now_ms tamper closed b)"
  by (simp add: readInputs_def sendEvent_def send_text_def Let_def)

end
