(* ===== verification/Firmware_Link.thy ===== *)
theory Firmware_Link
  imports Firmware_Correct Unlock_Correct Controller_Ws Schemas
begin

text \<open>
  The controller and the backend together: the bytes both sides compute, the message the API sends and
  the answer the board gives, the handshake, the beacon and the update manifest.
\<close>

section \<open>The libraries of the board\<close>

text \<open>
  What the sketch relies on: ArduinoJson reads what \<^verbatim>\<open>json.dumps\<close> writes and writes what \<^verbatim>\<open>json.loads\<close>
  reads, and mbedtls' base64 is the standard one, which refuses a character outside its alphabet.
\<close>

locale board_libs =
  fixes lib :: board_lib
  assumes reads: "json_ok j \<Longrightarrow> bl_json lib (dumps False True j) = Some j"
    and writes: "json_ok j \<Longrightarrow> loads (bl_json_text lib j) = Some j"
    and decodes: "bl_b64_decode lib (b64encode bs) = Some bs"
    and encodes: "bl_b64_encode lib bs = b64encode bs"
    and alphabet: "bl_b64_decode lib s = Some bs \<Longrightarrow> CHR ''|'' \<notin> set s"
begin

lemma decode_signature: "length bs \<le> n \<Longrightarrow> base64Decode lib (b64encode bs) n = bs"
  by (simp add: base64Decode_def decodes)

lemma encode_short: "length bs \<le> 93 \<Longrightarrow> base64Encode lib bs = b64encode bs"
proof -
  assume "length bs \<le> 93"
  then have "(length bs + 2) div 3 \<le> 95 div 3" by (intro div_le_mono) simp
  then show ?thesis by (simp add: base64Encode_def encodes)
qed

end

text \<open>The codecs of the backend's model satisfy the contract, whatever the cryptography.\<close>

definition reference_lib ::
  "(bytes \<Rightarrow> bytes \<Rightarrow> bytes \<Rightarrow> bytes) \<Rightarrow> (bytes \<Rightarrow> bytes \<Rightarrow> bytes \<Rightarrow> bool) \<Rightarrow> (bytes \<Rightarrow> bytes) \<Rightarrow> board_lib"
where
  "reference_lib sign verify h = \<lparr>bl_json = loads, bl_json_text = dumps False False, bl_b64_decode = b64decode True,
     bl_b64_encode = b64encode, bl_ed_sign = sign, bl_ed_verify = verify, bl_hmac = hmac_digest h, bl_sha256 = h\<rparr>"

lemma strict_characters:
  "a2b_base64 val True quad left pads padding s = Some bs \<Longrightarrow> c \<in> set s \<Longrightarrow> c = b64_pad \<or> val c \<noteq> None"
proof (induction s arbitrary: quad left pads padding bs)
  case (Cons d s)
  show ?case
  proof (cases "c = d")
    case True
    then show ?thesis using Cons.prems(1) by (auto split: option.splits if_splits)
  next
    case False
    then have c: "c \<in> set s" using Cons.prems(2) by simp
    show ?thesis
      using Cons.prems(1) Cons.IH [OF _ c] c by (auto split: option.splits if_splits)
  qed
qed simp

lemma b64decode_no_bar: "b64decode True s = Some bs \<Longrightarrow> CHR ''|'' \<notin> set s"
proof
  assume dec: "b64decode True s = Some bs" and "CHR ''|'' \<in> set s"
  then have "b64_std_value (CHR ''|'') \<noteq> None"
    using strict_characters by (fastforce simp: b64decode_def split: if_splits)
  then show False by (simp add: b64_std_value_def b64_value_def)
qed

interpretation reference: board_libs "reference_lib sign verify h" for sign verify h
proof (unfold_locales, goal_cases)
  case (1 j)
  then show ?case by (simp only: reference_lib_def board_lib.simps loads_dumps)
next
  case (2 j)
  then show ?case by (simp only: reference_lib_def board_lib.simps loads_dumps)
next
  case (3 bs)
  then show ?case by (simp only: reference_lib_def board_lib.simps b64decode_b64encode)
next
  case (4 bs)
  then show ?case by (simp only: reference_lib_def board_lib.simps)
next
  case (5 s bs)
  then show ?case using b64decode_no_bar by (simp add: reference_lib_def)
qed

section \<open>The text both sides sign\<close>

definition plain :: "string \<Rightarrow> bool" where
  "plain s = list_all (\<lambda>c. 32 \<le> (of_char c :: nat)) s"

lemma plain_c_str: "plain s \<Longrightarrow> c_str s = s"
proof -
  assume "plain s"
  then have "c \<noteq> CHR 0x00" if "c \<in> set s" for c
    using that by (auto simp: plain_def list_all_iff)
  then show "c_str s = s" by (simp add: c_str_def takeWhile_eq_all_conv)
qed

lemma plain_escape: "32 \<le> (of_char c :: nat) \<Longrightarrow> fw_escape c = escape_char False c"
proof -
  assume "32 \<le> (of_char c :: nat)"
  then have "c \<notin> {CHR 0x0A, CHR 0x0D, CHR 0x09, CHR 0x0C, CHR 0x08}" "\<not> (of_char c :: nat) < 32" by auto
  then show ?thesis by (simp add: fw_escape_def escape_char_def special_codes Let_def)
qed

lemma plain_quote: "plain s \<Longrightarrow> appendJsonString s = quote_str False s"
proof -
  assume "plain s"
  then have "map fw_escape s = map (escape_char False) s"
    by (simp add: plain_def list_all_iff plain_escape)
  then show ?thesis by (simp only: appendJsonString_def quote_str_def)
qed

lemma plain_nopad: "plain (urlsafe_nopad bs)"
  using urlsafe_nopad_graph by (fastforce simp: plain_def list_all_iff)

lemma b64_plain: "plain (b64encode bs)"
proof -
  have "43 \<le> (of_char (b64_std k) :: nat)" if "k < 64" for k
    using that unfolding b64_std_def by (subst b64_char_of_code) auto
  then have "32 \<le> (of_char c :: nat)" if "c \<in> insert b64_pad (b64_std ` {..<64})" for c
    using that by fastforce
  then show ?thesis
    using std.encode_chars [of bs] by (auto simp: plain_def list_all_iff b64encode_def)
qed

definition unlock_command_of :: "settings \<Rightarrow> door_row \<Rightarrow> string \<Rightarrow> uuid \<Rightarrow> int \<Rightarrow> bytes \<Rightarrow> UnlockCommand" where
  "unlock_command_of st door code cid t nonce =
     \<lparr>commandId = cid, controllerCode = code, doorCode = dr_code door,
      durationMs = of_int (dr_unlock_seconds door * 1000), relayChannel = of_int (dr_relay_channel door),
      issuedAt = t, expiresAt = t + command_ttl_seconds st, cmdNonce = urlsafe_nopad nonce\<rparr>"

definition int64_range :: "int \<Rightarrow> bool" where
  "int64_range i \<longleftrightarrow> - (2 ^ 63) \<le> i \<and> i < 2 ^ 63"

lemma parse_unlock_payload:
  assumes "door_checks door" and "plain cid" and "plain code" and "plain (dr_code door)"
    and "int64_range t" and "int64_range (t + command_ttl_seconds st)"
  shows "parseUnlockCommand (Some (JObj (unlock_payload st door code cid t nonce))) =
    Some (unlock_command_of st door code cid t nonce)"
  using assms
  by (simp add: parseUnlockCommand_def unlock_payload_def obj_get_def is_text_def is_uint32_def is_int64_def plain_c_str
      plain_nopad int64_range_def door_checks_def unlock_command_of_def c_str_def [of "''unlock''"])

lemma unlock_fields:
  assumes "door_checks door"
  shows "command_fields (unlock_command_of st door code cid t nonce) = sort_keys (unlock_payload st door code cid t nonce)"
proof -
  have w: "uint (of_int i :: 32 word) = i" if "0 \<le> i" "i \<le> 10000" for i
    using that by (simp add: uint_word_of_int_eq take_bit_int_eq_self)
  have "uint (of_int (dr_unlock_seconds door * 1000) :: 32 word) = dr_unlock_seconds door * 1000"
    "uint (of_int (dr_relay_channel door) :: 32 word) = dr_relay_channel door"
    using assms by (intro w; simp add: door_checks_def)+
  then show ?thesis
    by (simp add: command_fields_def command_entries_def unlock_command_of_def unlock_payload_def sort_keys_def
        del: of_int_mult)
qed

lemma command_text_plain:
  assumes "plain (commandId c)" and "plain (controllerCode c)" and "plain (doorCode c)" and "plain (cmdNonce c)"
  shows "command_text c = dumps False False (JObj (command_fields c))"
  using assms
  by (simp add: command_text_def command_fields_def command_entries_def plain_quote Let_def py_str_int_def)

lemma canonical_of_unlock:
  assumes "door_checks door" and "plain cid" and "plain code" and "plain (dr_code door)"
  shows "canonicalCommandBytes (unlock_command_of st door code cid t nonce) n =
    (if n < length (canonical_bytes (unlock_payload st door code cid t nonce)) then []
     else canonical_bytes (unlock_payload st door code cid t nonce))"
proof -
  let ?c = "unlock_command_of st door code cid t nonce"
  have "command_text ?c = dumps False False (JObj (command_fields ?c))"
    using assms by (intro command_text_plain) (simp_all add: unlock_command_of_def plain_nopad)
  also have "\<dots> = dumps True False (JObj (unlock_payload st door code cid t nonce))"
    unfolding dumps_sorted unlock_fields [OF assms(1)] by (simp add: unlock_payload_def del: dumps.simps)
  finally show ?thesis
    by (simp add: canonicalCommandBytes_def canonical_bytes_def COMMAND_DOMAIN_def Let_def del: dumps.simps)
qed


section \<open>The buffer is large enough\<close>

lemma length_nat_digits: "n < 10 ^ k \<Longrightarrow> 0 < k \<Longrightarrow> length (nat_digits n) \<le> k"
proof (induction k arbitrary: n)
  case (Suc k)
  show ?case
  proof (cases "n < 10")
    case True
    then show ?thesis by (subst nat_digits.simps) simp
  next
    case False
    with Suc.prems have "n div 10 < 10 ^ k" "0 < k" by (auto simp: less_mult_imp_div_less intro: gr0I)
    from Suc.IH [OF this] False show ?thesis by (subst nat_digits.simps) simp
  qed
qed simp

lemma length_utf8_ascii: "list_all (\<lambda>c. (of_char c :: nat) < 128) s \<Longrightarrow> length (utf8 s) = length s"
  by (induction s) (simp_all add: utf8_Cons utf8_char_def)

definition safe_name :: "nat \<Rightarrow> string \<Rightarrow> bool" where
  "safe_name k s \<longleftrightarrow> length s \<le> k \<and>
     list_all (\<lambda>c. 32 \<le> (of_char c :: nat) \<and> (of_char c :: nat) < 127 \<and> c \<noteq> CHR 0x22 \<and> c \<noteq> CHR 0x5C) s"

lemma safe_quoted: "safe_name k s \<Longrightarrow> quote_str ascii s = [CHR 0x22] @ s @ [CHR 0x22]"
proof -
  assume s: "safe_name k s"
  have "escape_char ascii c = [c]" if "c \<in> set s" for c
  proof -
    have "32 \<le> (of_char c :: nat)" "(of_char c :: nat) < 127" "c \<noteq> CHR 0x22" "c \<noteq> CHR 0x5C" using s that by (simp_all add: safe_name_def list_all_iff)
    then have "c \<notin> {CHR 0x22, CHR 0x5C, CHR 0x0A, CHR 0x0D, CHR 0x09, CHR 0x0C, CHR 0x08}" "\<not> (of_char c :: nat) < 32"
      "\<not> 126 < (of_char c :: nat)" by auto
    then show ?thesis by (simp add: escape_char_def special_codes Let_def)
  qed
  then have "map (escape_char ascii) s = map (\<lambda>c. [c]) s" by (intro map_cong) simp_all
  then show ?thesis by (simp only: quote_str_def concat_map_singleton map_ident)
qed

definition ascii_within :: "nat \<Rightarrow> string \<Rightarrow> bool" where
  "ascii_within k s \<longleftrightarrow> length s \<le> k \<and> list_all (\<lambda>c. (of_char c :: nat) < 128) s"

lemma ascii_append: "ascii_within j s \<Longrightarrow> ascii_within k t \<Longrightarrow> ascii_within (j + k) (s @ t)"
  by (simp add: ascii_within_def)

lemma ascii_digits:
  assumes "0 \<le> i" and "i < 10 ^ k" and "0 < k"
  shows "ascii_within k (py_str_int i)"
proof -
  have "nat i < 10 ^ k" using assms(1,2) by (simp add: nat_less_iff)
  then show ?thesis
    using assms length_nat_digits [of "nat i" k] nat_digits_digit [of _ "nat i"]
    by (fastforce simp: ascii_within_def py_str_int_def list_all_iff is_digit_def)
qed


lemma ascii_quoted:
  assumes "safe_name k s"
  shows "ascii_within (k + 2) (quote_str ascii s)"
proof -
  have "list_all (\<lambda>c. (of_char c :: nat) < 128) s"
    using assms unfolding safe_name_def by (elim conjE) (erule list.pred_mono_strong, linarith)
  then show ?thesis
    using assms unfolding safe_quoted [OF assms] by (simp add: ascii_within_def safe_name_def)
qed

lemma safe_plain: "safe_name k s \<Longrightarrow> plain s"
  by (simp add: safe_name_def plain_def list_all_iff)

lemma length_rstrip_by: "length (rstrip_by P xs) \<le> length xs"
  unfolding rstrip_by_def using length_dropWhile_le [of P "rev xs"] by simp

lemma nopad_char:
  assumes "c \<in> set (urlsafe_nopad bs)"
  shows "32 \<le> (of_char c :: nat) \<and> (of_char c :: nat) < 127 \<and> c \<noteq> CHR 0x22 \<and> c \<noteq> CHR 0x5C"
proof -
  obtain ds where d: "\<forall>d \<in> set ds. d < 64" and "urlsafe_nopad bs = map b64_url ds"
    unfolding urlsafe_nopad_def urlsafe_b64encode_def using url.nopad_shape by blast
  with assms obtain k where "k \<in> set ds" and c: "c = b64_url k" by auto
  with d have "b64_url_value c = Some k" using url.val_al by simp
  moreover have "b64_url_value (CHR 0x22) = None" "b64_url_value (CHR 0x5C) = None"
    by (simp_all add: b64_url_value_def b64_value_def)
  ultimately have "c \<noteq> CHR 0x22" "c \<noteq> CHR 0x5C" by (metis option.distinct(1))+
  with urlsafe_nopad_graph [OF assms] show ?thesis by simp
qed

lemma safe_nopad:
  assumes "length bs = 16"
  shows "safe_name 24 (urlsafe_nopad bs)"
proof -
  have "length (b64_encode b64_url bs) = 24" using assms by (simp add: length_b64_encode)
  then have "length (urlsafe_nopad bs) \<le> 24"
    unfolding urlsafe_nopad_def urlsafe_b64encode_def using length_rstrip_by by metis
  then show ?thesis using nopad_char by (simp add: safe_name_def list_all_iff)
qed

text \<open>The identifiers as the API makes them: codes of \<^verbatim>\<open>schemas.py\<close>, a UUID, 16 random bytes.\<close>

lemma canonical_fits:
  assumes "door_checks door" and "safe_name 36 cid" and "safe_name 64 code" and "safe_name 64 (dr_code door)"
    and "length nonce = 16" and "0 \<le> t" and "t + command_ttl_seconds st < 10 ^ 12" and "0 \<le> command_ttl_seconds st"
  shows "length (canonical_bytes (unlock_payload st door code cid t nonce)) \<le> kMaxCanonical"
proof -
  have num: "ascii_within 12 (py_str_int t)" "ascii_within 12 (py_str_int (t + command_ttl_seconds st))"
    "ascii_within 5 (py_str_int (dr_unlock_seconds door * 1000))" "ascii_within 1 (py_str_int (dr_relay_channel door))"
    using assms by (intro ascii_digits; simp add: door_checks_def)+
  note quoted = assms(2-4) [THEN ascii_quoted [where ascii = False]] ascii_quoted [OF safe_nopad [OF assms(5)], of False]
  let ?t = "dumps True False (JObj (unlock_payload st door code cid t nonce))"
  have "?t = ''{'' @ quote_str False ''cmd'' @ '':'' @ quote_str False ''unlock'' @ '','' @
     quote_str False ''command_id'' @ '':'' @ quote_str False cid @ '','' @
     quote_str False ''controller_code'' @ '':'' @ quote_str False code @ '','' @
     quote_str False ''door_code'' @ '':'' @ quote_str False (dr_code door) @ '','' @
     quote_str False ''duration_ms'' @ '':'' @ py_str_int (dr_unlock_seconds door * 1000) @ '','' @
     quote_str False ''expires_at'' @ '':'' @ py_str_int (t + command_ttl_seconds st) @ '','' @
     quote_str False ''issued_at'' @ '':'' @ py_str_int t @ '','' @
     quote_str False ''nonce'' @ '':'' @ quote_str False (urlsafe_nopad nonce) @ '','' @
     quote_str False ''relay_channel'' @ '':'' @ py_str_int (dr_relay_channel door) @ ''}''"
    unfolding unlock_payload_def by (simp add: sort_keys_def)
  then have "length ?t \<le> 400 \<and> list_all (\<lambda>c. (of_char c :: nat) < 128) ?t"
    using num quoted by (simp add: ascii_within_def safe_quoted quote_str_def escape_char_def)
  then have "length (utf8 ?t) \<le> 400" using length_utf8_ascii [of ?t] by simp
  then show ?thesis
    by (simp add: canonical_bytes_def COMMAND_DOMAIN_def kMaxCanonical_def utf8_Cons utf8_char_def del: dumps.simps)
qed

text \<open>The codes the admin application admits are such names.\<close>

lemma code_pattern_safe: "code_pattern s \<Longrightarrow> length s \<le> 64 \<Longrightarrow> safe_name 64 s"
  unfolding safe_name_def code_pattern_def
  by (elim conjE, intro conjI, assumption) (erule list.pred_mono_strong, auto simp: Let_def)

lemma admitted_codes_safe:
  "ControllerCreate_ok cc \<Longrightarrow> safe_name 64 (cc_code cc)" "DoorCreate_ok dc \<Longrightarrow> safe_name 64 (dc_code dc)"
  by (simp_all add: ControllerCreate_ok_def DoorCreate_ok_def text_field_def code_pattern_safe)

text \<open>Nor is the signer's limit on a request line ever reached.\<close>

lemma request_fits:
  assumes "door_checks door" and "safe_name 36 cid" and "safe_name 64 code" and "safe_name 64 (dr_code door)"
    and "length nonce = 16" and "0 \<le> t" and "t + command_ttl_seconds st < 10 ^ 12" and "0 \<le> command_ttl_seconds st"
  shows "length (encode_request (sign_request (unlock_payload st door code cid t nonce))) \<le> MAX_LINE_BYTES"
proof -
  have num: "ascii_within 12 (py_str_int t)" "ascii_within 12 (py_str_int (t + command_ttl_seconds st))"
    "ascii_within 5 (py_str_int (dr_unlock_seconds door * 1000))" "ascii_within 1 (py_str_int (dr_relay_channel door))"
    using assms by (intro ascii_digits; simp add: door_checks_def)+
  note quoted = assms(2-4) [THEN ascii_quoted [where ascii = True]] ascii_quoted [OF safe_nopad [OF assms(5)], of True]
  let ?t = "dumps False True (JObj (sign_request (unlock_payload st door code cid t nonce)))"
  have "length ?t \<le> 500 \<and> list_all (\<lambda>c. (of_char c :: nat) < 128) ?t"
    unfolding sign_request_def unlock_payload_def
    using num quoted by (simp add: ascii_within_def quote_str_def escape_char_def)
  then have "length (utf8 ?t) \<le> 500" using length_utf8_ascii [of ?t] by simp
  then show ?thesis by (simp add: encode_request_def MAX_LINE_BYTES_def del: dumps.simps)
qed

section \<open>A command of the API at the board\<close>

text \<open>The message \<open>send_command\<close> puts on the socket, and the answer of the board.\<close>

abbreviation command_line :: "settings \<Rightarrow> door_row \<Rightarrow> string \<Rightarrow> uuid \<Rightarrow> int \<Rightarrow> bytes \<Rightarrow> bytes \<Rightarrow> json \<Rightarrow> string" where
  "command_line st door code cid t nonce sg kid \<equiv>
     dumps False True (JObj (unlock_envelope (unlock_payload st door code cid t nonce) sg kid))"

definition opened_ack :: "string \<Rightarrow> 32 word \<Rightarrow> 32 word \<Rightarrow> obj" where
  "opened_ack cid relayMs now_ms =
     [(''type'', JStr ''ack''), (''command_id'', JStr cid), (''result'', JStr ''opened''),
      (''detail'', JStr ''ok''), (''relay_ms'', JInt (uint relayMs)), (''uptime_ms'', JInt (uint now_ms))]"

text \<open>What the board needs to see: its own code, the installed signer's key, a synchronised clock.\<close>

definition board_accepts ::
  "board_lib \<Rightarrow> board_config \<Rightarrow> int \<Rightarrow> board \<Rightarrow> settings \<Rightarrow> obj \<Rightarrow> uuid \<Rightarrow> int \<Rightarrow> bytes \<Rightarrow> bool"
where
  "board_accepts lib cfg now b st payload cid t sg \<longleftrightarrow>
     length sg = 64 \<and> bl_ed_verify lib (cfg_signer_public_key cfg) sg (canonical_bytes payload) \<and>
     length (canonical_bytes payload) \<le> kMaxCanonical \<and>
     int64_range t \<and> int64_range (t + command_ttl_seconds st) \<and>
     kClockSane \<le> now \<and> now \<le> t + command_ttl_seconds st + cfg_max_clock_skew_s cfg \<and>
     t \<le> now + cfg_max_clock_skew_s cfg \<and> \<not> commandAlreadySeen cid b"

definition plain_names :: "board_config \<Rightarrow> door_row \<Rightarrow> uuid \<Rightarrow> bool" where
  "plain_names cfg door cid \<longleftrightarrow> plain (cfg_controller_code cfg) \<and> plain (dr_code door) \<and> plain cid"

context board_libs
begin

lemma command_opens:
  fixes now_ms :: "32 word"
  assumes "door_checks door" and "plain_names cfg door cid" and "json_ok kid"
    and "board_accepts lib cfg now b st (unlock_payload st door (cfg_controller_code cfg) cid t nonce) cid t sg"
  defines "d \<equiv> min (of_int (dr_unlock_seconds door * 1000)) (cfg_relay_max_ms cfg)"
    and "b' \<equiv> handleEvent lib cfg now_ms now
      (Ws_text (command_line st door (cfg_controller_code cfg) cid t nonce sg kid)) b"
  shows "relay_of b' = (True, now_ms + d) \<and>
    b_sent b' = b_sent b @ [bl_json_text lib (JObj (opened_ack cid d now_ms))]"
proof -
  let ?code = "cfg_controller_code cfg"
  let ?p = "unlock_payload st door ?code cid t nonce"
  let ?c = "unlock_command_of st door ?code cid t nonce"
  let ?doc = "JObj (unlock_envelope ?p sg kid)"
  let ?b = "b\<lparr>b_last_pong_ms := now_ms\<rparr>"
  have names: "plain ?code" "plain (dr_code door)" "plain cid" using assms(2) by (simp_all add: plain_names_def)
  have acc: "length sg = 64" "bl_ed_verify lib (cfg_signer_public_key cfg) sg (canonical_bytes ?p)"
      "length (canonical_bytes ?p) \<le> kMaxCanonical" "int64_range t" "int64_range (t + command_ttl_seconds st)"
      "kClockSane \<le> now" "now \<le> t + command_ttl_seconds st + cfg_max_clock_skew_s cfg"
      "t \<le> now + cfg_max_clock_skew_s cfg" "\<not> commandAlreadySeen cid b"
    using assms(4) by (simp_all add: board_accepts_def)
  have doc: "bl_json lib (dumps False True ?doc) = Some ?doc"
    using assms(3) payload_json_ok [of st door ?code cid t nonce] by (intro reads) (simp add: unlock_envelope_def)
  have fields: "text_member ?doc ''type'' = ''command''" "json_member ?doc ''payload'' = Some (JObj ?p)"
    by (simp_all add: unlock_envelope_def text_member_def json_member_def obj_get_def c_str_def)
  have sig: "text_member ?doc ''signature'' = b64encode sg"
    using plain_c_str [OF b64_plain] by (simp add: unlock_envelope_def text_member_def obj_get_def)
  have parsed: "parseUnlockCommand (Some (JObj ?p)) = Some ?c"
    using assms(1) names acc(4,5) by (intro parse_unlock_payload)
  have bytes: "canonicalCommandBytes ?c kMaxCanonical = canonical_bytes ?p"
    using canonical_of_unlock [OF assms(1) names(3,1,2)] acc(3) by simp
  have some: "canonical_bytes ?p \<noteq> []" by (simp add: canonical_bytes_def COMMAND_DOMAIN_def)
  have parts: "controllerCode ?c = ?code" "commandId ?c = cid" "issuedAt ?c = t"
      "expiresAt ?c = t + command_ttl_seconds st" "durationMs ?c = of_int (dr_unlock_seconds door * 1000)"
    by (simp_all add: unlock_command_of_def)
  have seen: "commandAlreadySeen cid ?b = commandAlreadySeen cid b" by (simp add: commandAlreadySeen_def)
  have verdict: "command_verdict lib cfg now ?b ?doc ?c = None"
    using acc some
    by (simp add: command_verdict_def parts sig decode_signature bytes seen not_less del: dumps.simps)
  have "b' = handleCommand lib cfg now_ms now (dumps False True ?doc) ?b"
    by (simp add: b'_def handleText_def doc fields del: dumps.simps)
  also have "\<dots> = (let (relayMs, b'') = relay_pulse cfg now_ms (durationMs ?c) (rememberCommand (commandId ?c) ?b)
      in sendAck lib now_ms (commandId ?c) ''opened'' ''ok'' relayMs (led_set now_ms Unlocking b''))"
    by (simp add: handleCommand_def doc fields parsed verdict del: dumps.simps)
  finally show ?thesis
    by (simp add: parts relay_pulse_def rememberCommand_def sendAck_def send_text_def led_set_def opened_ack_def d_def
        clamp_min Let_def del: of_int_mult)
qed

lemma ack_read: "loads (bl_json_text lib (JObj (opened_ack cid d now_ms))) = Some (JObj (opened_ack cid d now_ms))"
  by (rule writes) (simp add: opened_ack_def)

end

lemma opened_ack_fields:
  "message_command_id (opened_ack cid d now_ms) = cid"
  "obj_get (opened_ack cid d now_ms) ''result'' = Some (JStr ''opened'')"
  by (simp_all add: opened_ack_def message_command_id_def obj_get_def py_str_def)


section \<open>A concrete installation\<close>

text \<open>The sample world at a time the board's clock is past its sanity bound, with a board for its controller.\<close>

definition link_seconds :: int where
  "link_seconds = 1704067320"

definition link_world :: world where
  "link_world = sample_world\<lparr>w_now := link_seconds * 1000000\<rparr>"

definition link_signature :: bytes where
  "link_signature = replicate 64 7"

definition link_payload :: obj where
  "link_payload = unlock_payload sample_settings sample_door ''ctrl-1'' ''id-0'' link_seconds (replicate 16 1)"

definition link_ext :: ext where
  "link_ext = sample_ext\<lparr>
     signer_io := (\<lambda>_. Reply (encode_request [(''ok'', JBool True), (''signature'', JStr (b64encode link_signature)),
       (''key_id'', JStr ''signer-1'')])),
     controller_io := (\<lambda>code line. Inr (7, [Message (opened_ack ''id-0'' 3000 5000)]))\<rparr>"

definition link_lib :: board_lib where
  "link_lib = reference_lib (\<lambda>k _ m. replicate 64 0) (\<lambda>k s m. s = link_signature \<and> m = canonical_bytes link_payload) sample_hash"

definition link_config :: board_config where
  "link_config = \<lparr>cfg_controller_code = ''ctrl-1'', cfg_firmware_version = ''1.0.0'', cfg_private_key = replicate 32 1,
     cfg_public_key = replicate 32 6, cfg_beacon_key = replicate 32 9, cfg_signer_public_key = replicate 32 2,
     cfg_ota_public_key = replicate 32 3, cfg_relay_max_ms = 3000, cfg_heartbeat_timeout_s = 60,
     cfg_beacon_rotation_s = 30, cfg_max_clock_skew_s = 5, cfg_ota_manifest_url = [], cfg_ota_check_hours = 12\<rparr>"

abbreviation link_line :: string where
  "link_line \<equiv> command_line sample_settings sample_door ''ctrl-1'' ''id-0'' link_seconds (replicate 16 1) link_signature (JStr ''signer-1'')"

lemma link_libs: "board_libs link_lib"
  unfolding link_lib_def by (rule reference.board_libs_axioms)

lemma link_settings: "command_ttl_seconds sample_settings = 10" "beacon_rotation_seconds sample_settings = 30"
  "proximity_max_age_seconds sample_settings = 60"
  by (simp_all add: sample_settings_def default_settings_def)

lemma link_names: "plain_names link_config sample_door ''id-0''"
  by (simp add: plain_names_def link_config_def sample_door_def plain_def)

lemma link_door: "door_checks sample_door"
  by (simp add: door_checks_def sample_door_def)

lemma link_payload_short: "length (canonical_bytes link_payload) \<le> kMaxCanonical"
proof -
  have "safe_name 36 ''id-0''" "safe_name 64 ''ctrl-1''" "safe_name 64 (dr_code sample_door)"
    by (simp_all add: safe_name_def sample_door_def)
  then show ?thesis
    unfolding link_payload_def by (intro canonical_fits link_door) (simp_all add: link_seconds_def link_settings)
qed

lemma link_accepts:
  assumes "b_seen b = replicate kSeenCapacity []" and "link_seconds \<le> now" and "now \<le> link_seconds + 15"
  shows "board_accepts link_lib link_config now b sample_settings link_payload ''id-0'' link_seconds link_signature"
  using assms link_payload_short
  by (simp add: board_accepts_def link_lib_def reference_lib_def link_signature_def int64_range_def link_settings
      kClockSane_def link_config_def commandAlreadySeen_def list_ex_iff link_seconds_def)

text \<open>The board opens on the command of the sample.\<close>

lemma link_opens:
  assumes "b_seen b = replicate kSeenCapacity []"
  shows "relay_of (handleEvent link_lib link_config 5000 link_seconds (Ws_text link_line) b) = (True, 8000)
    \<and> b_sent (handleEvent link_lib link_config 5000 link_seconds (Ws_text link_line) b) =
      b_sent b @ [bl_json_text link_lib (JObj (opened_ack ''id-0'' 3000 5000))]"
proof -
  have c: "cfg_controller_code link_config = ''ctrl-1''" "cfg_relay_max_ms link_config = 3000"
    "dr_unlock_seconds sample_door = 3" by (simp_all add: link_config_def sample_door_def)
  show ?thesis
    using board_libs.command_opens [OF link_libs link_door link_names _ link_accepts
        [unfolded link_payload_def, folded c(1), OF assms, of link_seconds], of "JStr ''signer-1''" 5000]
    by (simp add: c)
qed


definition link_turn :: turn where
  "link_turn = \<lparr>tn_ms = 5000, tn_time = link_seconds, tn_wifi = True, tn_events = [Ws_text link_line],
     tn_tamper_open = False, tn_door_closed = True,
     tn_ota = \<lparr>ow_manifest = None, ow_chunks = (\<lambda>_. None), ow_begin = False, ow_write = (\<lambda>_. False), ow_end = False\<rparr>\<rparr>"

lemma link_run: "relay_of (board_run link_lib link_config [link_turn] (board_setup link_config 0)) = (True, 8000)"
proof -
  let ?b = "board_setup link_config 0"
  let ?b2 = "loop_head link_lib link_config link_turn ?b"
  have turn: "tn_ms link_turn = 5000" "tn_time link_turn = link_seconds" "tn_events link_turn = [Ws_text link_line]"
    "tn_wifi link_turn" by (simp_all add: link_turn_def)
  have "b_seen ?b2 = replicate kSeenCapacity []"
    using loop_head_door(1) [of link_lib link_config link_turn ?b] by (simp add: setup_parts)
  moreover have "same_door (handleEvent link_lib link_config 5000 link_seconds (Ws_text link_line) ?b2)
      (board_loop link_lib link_config link_turn ?b)"
    using board_loop_door [of ?b link_lib link_config link_turn]
    by (simp add: setup_parts loop_head_started turn del: handleEvent.simps dumps.simps)
  ultimately show ?thesis using link_opens [of ?b2] by (simp add: same_door_def board_run_def del: handleEvent.simps dumps.simps)
qed

lemma link_signed: "\<exists>r. sign_command (signer_socket_of ed_public ed_sign svc) link_payload = Inr r"
proof -
  have "within_limits link_payload"
    unfolding link_payload_def using payload_limits [OF link_door] by (simp add: link_settings)
  then have "validate_command link_payload = Inr ()" by (simp add: validate_command_iff)
  moreover have "length (encode_request (sign_request link_payload)) \<le> MAX_LINE_BYTES"
    unfolding link_payload_def
    by (intro request_fits link_door) (simp_all add: safe_name_def sample_door_def link_seconds_def link_settings)
  moreover have "json_ok (JObj link_payload)" unfolding link_payload_def by (rule payload_json_ok)
  ultimately show ?thesis by (simp add: sign_command_signer del: json_ok.simps)
qed

section \<open>Properties of the link\<close>

text \<open>
  Claim C15. The bytes the board rebuilds from the command it parsed are, for every command the API
  makes, exactly the bytes the signer signed, and they always fit the board's buffer.
\<close>

theorem firmware_canonical_agrees:
  assumes "door_checks door" and "safe_name 36 cid" and "safe_name 64 code" and "safe_name 64 (dr_code door)"
    and "length nonce = 16" and "0 \<le> t" and "0 \<le> command_ttl_seconds st" and "t + command_ttl_seconds st < 10 ^ 12"
  shows "\<exists>c. parseUnlockCommand (Some (JObj (unlock_payload st door code cid t nonce))) = Some c
    \<and> canonicalCommandBytes c kMaxCanonical = canonical_bytes (unlock_payload st door code cid t nonce)"
proof -
  have range: "int64_range t" "int64_range (t + command_ttl_seconds st)"
    using assms(6-8) by (simp_all add: int64_range_def)
  show ?thesis
    using parse_unlock_payload [OF assms(1) assms(2-4) [THEN safe_plain] range]
      canonical_of_unlock [OF assms(1) assms(2-4) [THEN safe_plain]]
      canonical_fits [OF assms(1-5,6,8,7)] by simp
qed

theorem firmware_canonical_agrees_witness:
  "\<exists>c. parseUnlockCommand (Some (JObj link_payload)) = Some c
    \<and> canonicalCommandBytes c kMaxCanonical = canonical_bytes link_payload"
  unfolding link_payload_def
  by (rule firmware_canonical_agrees)
    (simp_all add: door_checks_def sample_door_def safe_name_def link_seconds_def link_settings)


text \<open>The sample installation at that time, with the phone reporting the identifier of the current slot.\<close>

abbreviation link_presented :: string where
  "link_presented \<equiv> beacon_id sample_hash (replicate 32 9) (slot_at (link_seconds * 1000000) 30)"

lemma link_now: "w_now link_world = link_seconds * 1000000" "w_draws link_world = 0"
  by (simp_all add: link_world_def sample_world_def)

lemma link_inv: "db_inv link_ext link_world"
proof -
  have "hub_inv online_hub" by (rule hub_inv_reachable [OF online_hub_reachable])
  then show ?thesis
    by (simp add: db_inv_defs link_world_def link_ext_def sample_world_def sample_rows permission_checks_def
        door_checks_def chained_def seq_sorted_def link_seconds_def)
qed

lemma link_near: "\<exists>a. verify_proximity (sha256 link_ext) (c_beacon_key sample_controller) link_presented
    (beacon_rotation_seconds sample_settings) (proximity_max_age_seconds sample_settings) (w_now link_world) = Inr (True, Some a)"
proof -
  have "beacon_config (replicate 32 9) 30 60 (link_seconds * 1000000)"
    by (simp add: beacon_config_def window_span_def slot_at_def link_seconds_def)
  from verify_proximity_complete [where h = sample_hash, OF this length_sample_hash, of "link_seconds * 1000000"] show ?thesis
    by (auto simp: link_ext_def sample_ext_def sample_controller_def link_settings link_now)
qed

lemma link_grant: "grant_open link_ext link_world ''u1'' ''o1''"
  by (simp add: grant_open_def link_world_def link_ext_def sample_world_def sample_rows in_force_def sample_ext_def
      within_window_def link_seconds_def)

lemma link_draws: "rand_uuid link_ext (w_draws link_world) = ''id-0''" "rand_bytes link_ext (w_draws link_world + 1) 16 = replicate 16 1"
  using sample_uuid by (simp_all add: link_ext_def link_now) (simp_all add: sample_ext_def sample_world_def)

lemma link_sign: "sign_command (signer_io link_ext) cmd = Inr (link_signature, JStr ''signer-1'')"
  by (simp add: sign_command_def client_request_def link_ext_def encode_request_nonempty decode_encode_line
      response_ok_def response_pair_def obj_get_def b64decode_b64encode)


text \<open>
  Claim C2. Whatever arrives on the socket in whatever order, and whatever payloads (free of floating-point
  numbers) a compromised backend asked the signer for: while the relay of a board that came up from reset is energised, some turn honoured a
  command the signer signed for this very controller, an unlock of at most ten seconds and of at most
  thirty seconds' validity, in force by the board's clock up to the allowed skew; and the relay goes off
  after at most the board's own maximum. Only bytes the signer signed are assumed to verify.
\<close>

theorem door_opens_only_signed:
  assumes "\<And>s m. bl_ed_verify lib (cfg_signer_public_key cfg) s m \<Longrightarrow> \<exists>p \<in> asked. m = canonical_bytes p \<and>
      (\<exists>r. sign_command (signer_socket_of ed_public ed_sign svc) p = Inr r)"
    and "\<And>p. p \<in> asked \<Longrightarrow> json_ok (JObj p)"
    and "b_energised (board_run lib cfg turns (board_setup cfg boot_ms))"
  shows "\<exists>tn \<in> set turns. \<exists>p \<in> asked. \<exists>d issued expires.
     within_limits p \<and> obj_get p ''controller_code'' = Some (JStr (cfg_controller_code cfg)) \<and>
     obj_get p ''duration_ms'' = Some (JInt d) \<and> 0 < d \<and> d \<le> 10000 \<and>
     obj_get p ''issued_at'' = Some (JInt issued) \<and> obj_get p ''expires_at'' = Some (JInt expires) \<and>
     expires \<le> issued + 30 \<and> kClockSane \<le> tn_time tn \<and>
     issued \<le> tn_time tn + cfg_max_clock_skew_s cfg \<and> tn_time tn \<le> expires + cfg_max_clock_skew_s cfg \<and>
     b_off_at_ms (board_run lib cfg turns (board_setup cfg boot_ms)) =
       tn_ms tn + min (of_int d) (cfg_relay_max_ms cfg)"
proof -
  obtain tn c where tn: "tn \<in> set turns" and law: "lawful lib cfg (tn_time tn) c"
    and off: "b_off_at_ms (board_run lib cfg turns (board_setup cfg boot_ms)) = tn_ms tn + min (durationMs c) (cfg_relay_max_ms cfg)"
    using accounted_run [OF setup_off] assms(3) unfolding accounted_def by blast
  from lawful_signed [OF law assms(1,2)] obtain p where p: "p \<in> asked" "within_limits p"
    "obj_get p ''controller_code'' = Some (JStr (cfg_controller_code cfg))"
    "obj_get p ''duration_ms'' = Some (JInt (uint (durationMs c)))"
    "obj_get p ''issued_at'' = Some (JInt (issuedAt c))" "obj_get p ''expires_at'' = Some (JInt (expiresAt c))" .
  have "0 < uint (durationMs c) \<and> uint (durationMs c) \<le> 10000" "expiresAt c \<le> issuedAt c + 30"
    using p(2-6) by (simp_all add: within_limits_def field_def)
  moreover have "(of_int (uint (durationMs c)) :: 32 word) = durationMs c" by simp
  ultimately show ?thesis
    using tn p law off by (intro bexI [of _ tn] bexI [of _ p] exI [of _ "uint (durationMs c)"] exI [of _ "issuedAt c"]
        exI [of _ "expiresAt c"]) (auto simp: lawful_def)
qed


theorem door_opens_only_signed_witness:
  "\<exists>p issued expires. within_limits p \<and> obj_get p ''controller_code'' = Some (JStr ''ctrl-1'') \<and>
     obj_get p ''issued_at'' = Some (JInt issued) \<and> obj_get p ''expires_at'' = Some (JInt expires) \<and>
     issued \<le> link_seconds + 5 \<and> link_seconds \<le> expires + 5"
proof -
  have code: "cfg_controller_code link_config = ''ctrl-1''" "cfg_max_clock_skew_s link_config = 5"
    "tn_time link_turn = link_seconds" by (simp_all add: link_config_def link_turn_def)
  have "\<exists>tn \<in> set [link_turn]. \<exists>p \<in> {link_payload}. \<exists>d issued expires.
     within_limits p \<and> obj_get p ''controller_code'' = Some (JStr (cfg_controller_code link_config)) \<and>
     obj_get p ''duration_ms'' = Some (JInt d) \<and> 0 < d \<and> d \<le> 10000 \<and>
     obj_get p ''issued_at'' = Some (JInt issued) \<and> obj_get p ''expires_at'' = Some (JInt expires) \<and>
     expires \<le> issued + 30 \<and> kClockSane \<le> tn_time tn \<and>
     issued \<le> tn_time tn + cfg_max_clock_skew_s link_config \<and> tn_time tn \<le> expires + cfg_max_clock_skew_s link_config \<and>
     b_off_at_ms (board_run link_lib link_config [link_turn] (board_setup link_config 0)) =
       tn_ms tn + min (of_int d) (cfg_relay_max_ms link_config)"
  proof (rule door_opens_only_signed [where ed_public = id and ed_sign = "\<lambda>k m. k" and svc = sample_service])
    fix s m assume "bl_ed_verify link_lib (cfg_signer_public_key link_config) s m"
    then have "m = canonical_bytes link_payload" by (simp add: link_lib_def reference_lib_def)
    then show "\<exists>p \<in> {link_payload}. m = canonical_bytes p \<and>
        (\<exists>r. sign_command (signer_socket_of id (\<lambda>k m. k) sample_service) p = Inr r)" using link_signed by blast
  next
    fix p assume "p \<in> {link_payload}"
    then show "json_ok (JObj p)" by (simp add: link_payload_def payload_json_ok del: json_ok.simps)
  next
    show "b_energised (board_run link_lib link_config [link_turn] (board_setup link_config 0))" using link_run by simp
  qed
  then show ?thesis unfolding code by (auto simp: code)
qed

end
