(* ===== verification/Firmware_Services.thy ===== *)
theory Firmware_Services
  imports Firmware_Link
begin

text \<open>
  The other services of the board: the beacon the phone reports, the handshake the backend demands, the
  update manifest, and the relay's clock.
\<close>

section \<open>The beacon\<close>

text \<open>The board's URL alphabet is the standard one with two characters replaced; its slot bytes are big endian.\<close>

lemma url_char_std: "k < 64 \<Longrightarrow> url_char (b64_std k) = b64_url k"
proof -
  assume k: "k < 64"
  show ?thesis
  proof (cases "k < 62")
    case True
    then have eq: "b64_std k = b64_url k" by (simp add: b64_std_def b64_url_def b64_char_of_def)
    have "b64_url_value (b64_url k) = Some k" by (rule url.val_al [OF k])
    then have "b64_url k \<noteq> CHR ''+''" "b64_url k \<noteq> CHR ''/''"
      by (auto simp: b64_url_value_def b64_value_def split: if_splits)
    then show ?thesis unfolding eq by (simp add: url_char_def)
  next
    case False
    with k have "k = 62 \<or> k = 63" by linarith
    moreover have "url_char (b64_std 62) = b64_url 62" "url_char (b64_std 63) = b64_url 63" by code_simp+
    ultimately show ?thesis by blast
  qed
qed

lemma map_url_char: "map url_char (b64_encode b64_std bs) = b64_encode b64_url bs"
proof -
  have pad: "url_char b64_pad = b64_pad" by (simp add: url_char_def)
  show ?thesis
    by (induction bs rule: std.triple_induct) (simp_all add: pad url_char_std digit_bounds byte_div)
qed

lemma slot_byte: "(ucast (and (drop_bit k w) 0xFF) :: byte) = of_nat (unat (w :: 64 word) div 2 ^ k)"
proof -
  have "(0xFF :: 64 word) = mask 8" by (simp add: mask_eq_exp_minus_1)
  moreover have "(ucast (and (drop_bit k w) (mask 8)) :: byte) = ucast (drop_bit k w)"
    by (rule bit_word_eqI) (simp add: bit_simps)
  ultimately have "(ucast (and (drop_bit k w) 0xFF) :: byte) = ucast (drop_bit k w)" by (simp only:)
  also have "\<dots> = of_nat (unat (drop_bit k w))" by simp
  also have "unat (drop_bit k w) = unat w div 2 ^ k"
    unfolding unat_drop_bit_eq by (simp add: drop_bit_eq_div)
  finally show ?thesis .
qed

lemma nat_to_bytes_map: "nat_to_bytes k n = map (\<lambda>i. of_nat (n div 256 ^ (k - 1 - i))) [0..<k]"
proof (induction k arbitrary: n)
  case (Suc k)
  have "(of_nat (n mod 256) :: byte) = of_nat n"
    by (simp add: word_of_nat_eq_iff take_bit_eq_mod)
  moreover have "n div 256 div 256 ^ (k - 1 - i) = n div 256 ^ (k - i)" if "i < k" for i
  proof -
    have "k - i = Suc (k - 1 - i)" using that by simp
    then show ?thesis by (simp add: div_mult2_eq)
  qed
  ultimately show ?case by (simp add: Suc.IH)
qed simp

lemma slot_bytes: "map (\<lambda>i. ucast (and (drop_bit (56 - 8 * i) (w :: 64 word)) 0xFF)) [0..<8] = nat_to_bytes 8 (unat w)"
proof -
  have "(2 :: nat) ^ (56 - 8 * i) = 256 ^ (8 - 1 - i)" if "i < 8" for i
  proof -
    have "56 - 8 * i = 8 * (7 - i)" using that by simp
    then show ?thesis by (simp add: power_mult)
  qed
  then show ?thesis unfolding nat_to_bytes_map slot_byte by (intro map_cong) simp_all
qed


definition same_beacon :: "board \<Rightarrow> board \<Rightarrow> bool" where
  "same_beacon b b' \<longleftrightarrow> b_advertising b' = b_advertising b \<and> b_current_slot b' = b_current_slot b \<and>
     b_current_id b' = b_current_id b"

lemma same_beacon_event: "same_beacon b (handleEvent lib cfg now_ms now ev b)"
  by (cases ev)
    (simp_all add: same_beacon_def handleText_def handleCommand_def handleChallenge_def reject_def sendAck_def send_text_def
      led_set_def relay_pulse_def rememberCommand_def Let_def split: option.split)

lemma same_beacon_events: "same_beacon b (fold (handleEvent lib cfg now_ms now) evs b)"
proof (induction evs arbitrary: b)
  case (Cons ev evs)
  then show ?case
    using same_beacon_event [of b lib cfg now_ms now ev] Cons [of "handleEvent lib cfg now_ms now ev b"]
    by (simp add: same_beacon_def del: handleEvent.simps)
qed (simp add: same_beacon_def)

lemma same_beacon_rest:
  "same_beacon b (ws_tick cfg now_ms b)" "same_beacon b (ota_tick lib cfg now_ms w b)"
  "same_beacon b (readInputs now_ms tamper closed b)" "same_beacon b (led_tick now_ms b)" "same_beacon b (relay_tick now_ms b)"
  by (simp_all add: same_beacon_def ws_tick_def led_set_def ota_tick_def ota_checkNow_def applyUpdate_def sendEvent_def
      send_text_def readInputs_def led_tick_def relay_tick_def Let_def
      split: manifest_verdict.split image_verdict.split led_state.split)

lemma board_loop_beacon:
  assumes "b_image b = None"
  shows "same_beacon (loop_head lib cfg tn b) (board_loop lib cfg tn b)"
proof -
  let ?b2 = "loop_head lib cfg tn b"
  let ?b3 = "ws_loop_tick lib cfg tn ?b2"
  let ?b4 = "ota_tick lib cfg (tn_ms tn) (tn_ota tn) ?b3"
  have "same_beacon ?b2 ?b3"
    using same_beacon_events [of ?b2 lib cfg "tn_ms tn" "tn_time tn" "tn_events tn"] same_beacon_rest(1)
    by (simp add: ws_loop_tick_def same_beacon_def)
  then have "same_beacon ?b2 ?b4" using same_beacon_rest(2) by (simp add: same_beacon_def)
  then have "same_beacon ?b2 (if b_image ?b4 \<noteq> None then ?b4
      else readInputs (tn_ms tn) (tn_tamper_open tn) (tn_door_closed tn) ?b4)"
    using same_beacon_rest(3) by (simp add: same_beacon_def)
  then show ?thesis using assms by (simp add: board_loop_def Let_def same_beacon_def)
qed

text \<open>What is advertised is always the identifier of the slot it was made for.\<close>

definition beacon_fits :: "board_lib \<Rightarrow> board_config \<Rightarrow> board \<Rightarrow> bool" where
  "beacon_fits lib cfg b \<longleftrightarrow> (b_advertising b \<longrightarrow>
     b_current_id b = base64UrlEncodeNoPad lib (take 16 (bl_hmac lib (cfg_beacon_key cfg) (beacon_message (b_current_slot b)))))"

lemma beacon_tick_fits:
  assumes "beacon_fits lib cfg b"
  shows "beacon_fits lib cfg (beacon_tick lib cfg now b)"
    and "kClockSane \<le> now \<Longrightarrow> b_advertising (beacon_tick lib cfg now b) \<and>
      b_current_slot (beacon_tick lib cfg now b) = (of_int now :: 64 word) div cfg_beacon_rotation_s cfg"
  using assms by (auto simp: beacon_fits_def beacon_tick_def updateAdvertisement_def Let_def)

lemma loop_head_beacon:
  assumes "beacon_fits lib cfg b"
  shows "beacon_fits lib cfg (loop_head lib cfg tn b)"
    and "kClockSane \<le> tn_time tn \<Longrightarrow> b_advertising (loop_head lib cfg tn b) \<and>
      b_current_slot (loop_head lib cfg tn b) = (of_int (tn_time tn) :: 64 word) div cfg_beacon_rotation_s cfg"
proof -
  define b1 where "b1 = (if tn_wifi tn
      then (if \<not> b_link_started b then (ws_begin (tn_ms tn) b)\<lparr>b_link_started := True\<rparr> else b)
      else led_set (tn_ms tn) WifiConnecting b)"
  have "same_beacon b b1" by (simp add: b1_def same_beacon_def ws_begin_def led_set_def)
  then have "same_beacon b (led_tick (tn_ms tn) (relay_tick (tn_ms tn) b1))"
    using same_beacon_rest(4,5) by (simp add: same_beacon_def)
  then have fits: "beacon_fits lib cfg (led_tick (tn_ms tn) (relay_tick (tn_ms tn) b1))"
    using assms by (simp add: beacon_fits_def same_beacon_def)
  have head: "loop_head lib cfg tn b = beacon_tick lib cfg (tn_time tn) (led_tick (tn_ms tn) (relay_tick (tn_ms tn) b1))"
    by (simp add: loop_head_def b1_def Let_def)
  show "beacon_fits lib cfg (loop_head lib cfg tn b)" unfolding head by (rule beacon_tick_fits(1) [OF fits])
  show "kClockSane \<le> tn_time tn \<Longrightarrow> b_advertising (loop_head lib cfg tn b) \<and>
      b_current_slot (loop_head lib cfg tn b) = (of_int (tn_time tn) :: 64 word) div cfg_beacon_rotation_s cfg"
    unfolding head by (rule beacon_tick_fits(2) [OF fits])
qed

lemma board_loop_fits: "beacon_fits lib cfg b \<Longrightarrow> beacon_fits lib cfg (board_loop lib cfg tn b)"
  using board_loop_beacon [of b lib cfg tn] loop_head_beacon(1) [of lib cfg b tn]
  by (cases "b_image b") (auto simp: beacon_fits_def same_beacon_def board_loop_def)

lemma board_run_fits: "beacon_fits lib cfg (board_run lib cfg turns (board_setup cfg ms))"
proof (induction turns rule: rev_induct)
  case Nil
  then show ?case by (simp add: board_run_def beacon_fits_def board_setup_def ota_begin_def led_set_def fresh_board_def)
next
  case (snoc tn turns)
  then show ?case by (simp add: board_run_snoc board_loop_fits)
qed

text \<open>At the end of a turn with a synchronised clock, the board advertises the identifier the backend derives.\<close>

lemma board_beacon_id:
  assumes "board_libs lib" and "\<And>k m. bl_hmac lib k m = hmac_digest h k m"
    and "beacon_fits lib cfg b" and "b_image b = None" and "kClockSane \<le> tn_time tn" and "tn_time tn < 2 ^ 64"
    and "cfg_beacon_rotation_s cfg = of_int rot" and "0 < rot" and "rot < 2 ^ 64"
  shows "b_current_id (board_loop lib cfg tn b) = beacon_id h (cfg_beacon_key cfg) (tn_time tn div rot)"
proof -
  let ?w = "(of_int (tn_time tn) :: 64 word) div of_int rot"
  have "0 \<le> tn_time tn" using assms(5) by (simp add: kClockSane_def)
  then have "uint ?w = tn_time tn div rot"
    using assms(6,8,9) by (simp add: uint_div_distrib uint_word_of_int_eq take_bit_int_eq_self)
  then have slot: "unat ?w = nat (tn_time tn div rot)" by (simp add: unat_eq_nat_uint)
  have "b_current_id (board_loop lib cfg tn b) =
      base64UrlEncodeNoPad lib (take 16 (bl_hmac lib (cfg_beacon_key cfg) (beacon_message ?w)))"
    using board_loop_beacon [OF assms(4), of lib cfg tn] loop_head_beacon [OF assms(3), of tn] assms(5,7)
    by (simp add: same_beacon_def beacon_fits_def)
  then show ?thesis
    using board_libs.encode_short [OF assms(1)]
    by (simp add: base64UrlEncodeNoPad_def beacon_message_def assms(2) slot_bytes slot beacon_id_def urlsafe_nopad_def
        urlsafe_b64encode_def b64encode_def map_url_char beacon_domain_def BEACON_ID_BYTES_def)
qed




section \<open>The relay's clock\<close>

text \<open>Comparing two counters by their signed difference is comparing them, within half the range.\<close>

lemma later_by:
  fixes x d :: "32 word"
  assumes "d < 2 ^ 31" and "x < 2 ^ 31"
  shows "0 \<le> sint (x - d) \<longleftrightarrow> d \<le> x"
proof -
  have w: "uint y < 2 ^ 31 \<and> 0 \<le> uint y" if "y < 2 ^ 31" for y :: "32 word"
    using that by (simp add: word_less_def)
  have "x - d = word_of_int (uint x - uint d)" by simp
  then have "sint (x - d) = signed_take_bit 31 (uint x - uint d)" by (simp only: sint_sbintrunc') simp
  also have "\<dots> = uint x - uint d"
  proof (rule signed_take_bit_int_eq_self)
    show "- (2 ^ 31) \<le> uint x - uint d" "uint x - uint d < 2 ^ 31"
      using w [OF assms(1)] w [OF assms(2)] by linarith+
  qed
  finally show ?thesis by (simp add: word_le_def)
qed

text \<open>
  Claim C18. A pulse is never longer than the board's maximum nor than asked for, and it ends with the first
  tick after its time, also when the 32-bit millisecond counter wraps in between; ticks before do nothing.
\<close>

theorem relay_pulse_bounded:
  assumes "cfg_relay_max_ms cfg < 2 ^ 31" and "elapsed < 2 ^ 31"
  shows "(case relay_pulse cfg start_ms requested b of (d, b') \<Rightarrow>
     d \<le> cfg_relay_max_ms cfg \<and> d \<le> requested \<and> b_energised b' \<and>
     (b_energised (relay_tick (start_ms + elapsed) b') \<longleftrightarrow> elapsed < d))"
proof -
  let ?d = "min requested (cfg_relay_max_ms cfg)"
  have "?d < 2 ^ 31" using assms(1) by (simp add: min_less_iff_disj)
  note later = later_by [OF this assms(2)]
  have "start_ms + elapsed - (start_ms + ?d) = elapsed - ?d" by simp
  with later show ?thesis
    by (simp add: relay_pulse_def relay_tick_def clamp_min Let_def) (auto simp: min_le_iff_disj)
qed

theorem relay_pulse_bounded_witness:
  "case relay_pulse link_config 4294966000 9000 fresh_board of (d, b') \<Rightarrow>
     d \<le> 3000 \<and> d \<le> 9000 \<and> b_energised b' \<and>
     (b_energised (relay_tick (4294966000 + 3100) b') \<longleftrightarrow> (3100 :: 32 word) < d)"
proof -
  have m: "cfg_relay_max_ms link_config = 3000" by (simp add: link_config_def)
  show ?thesis
    using relay_pulse_bounded [where cfg = link_config and elapsed = 3100 and start_ms = 4294966000 and requested = 9000
        and b = fresh_board] unfolding m by simp
qed


section \<open>The handshake\<close>

definition auth_signature :: "board_lib \<Rightarrow> board_config \<Rightarrow> bytes \<Rightarrow> bytes" where
  "auth_signature lib cfg nonce =
     bl_ed_sign lib (cfg_private_key cfg) (cfg_public_key cfg) (auth_message (cfg_controller_code cfg) nonce)"

definition auth_answer :: "board_lib \<Rightarrow> board_config \<Rightarrow> bytes \<Rightarrow> obj" where
  "auth_answer lib cfg nonce =
     [(''type'', JStr ''auth''), (''controller_code'', JStr (cfg_controller_code cfg)),
      (''signature'', JStr (b64encode (auth_signature lib cfg nonce))), (''firmware_version'', JStr (cfg_firmware_version cfg))]"

lemma board_answers:
  assumes "board_libs lib" and "safe_name 64 (cfg_controller_code cfg)" and "length nonce = 32"
    and "length (auth_signature lib cfg nonce) = 64"
  shows "b_sent (handleEvent lib cfg now_ms now (Ws_text (challenge_text nonce t)) b) =
    b_sent b @ [bl_json_text lib (JObj (auth_answer lib cfg nonce))]"
proof -
  let ?hello = "[(''type'', JStr ''challenge''), (''nonce'', JStr (b64encode nonce)), (''server_time'', JInt (t div 1000000))]"
  have hello: "bl_json lib (challenge_text nonce t) = Some (JObj ?hello)"
    unfolding challenge_text_def by (rule board_libs.reads [OF assms(1)]) simp
  have members: "text_member (JObj ?hello) ''type'' = ''challenge''" "text_member (JObj ?hello) ''nonce'' = b64encode nonce"
    using plain_c_str [OF b64_plain] by (simp_all add: text_member_def obj_get_def c_str_def)
  have dec: "base64Decode lib (b64encode nonce) 64 = nonce"
    using board_libs.decode_signature [OF assms(1)] assms(3) by simp
  have enc: "base64Encode lib (auth_signature lib cfg nonce) = b64encode (auth_signature lib cfg nonce)"
    using board_libs.encode_short [OF assms(1)] assms(4) by simp
  have msg: "kAuthDomain @ utf8 (cfg_controller_code cfg) @ [0] @ nonce = auth_message (cfg_controller_code cfg) nonce"
    by (simp add: kAuthDomain_def auth_message_def AUTH_DOMAIN_def)
  have "list_all (\<lambda>c. (of_char c :: nat) < 128) (cfg_controller_code cfg)"
    using assms(2) unfolding safe_name_def by (elim conjE) (erule list.pred_mono_strong, linarith)
  then have "length (utf8 (cfg_controller_code cfg)) \<le> 64"
    using length_utf8_ascii assms(2) by (simp add: safe_name_def)
  then have short: "length (auth_message (cfg_controller_code cfg) nonce) \<le> 128"
    using assms(3) by (simp add: auth_message_def AUTH_DOMAIN_def utf8_Cons utf8_char_def)
  have ne: "nonce \<noteq> []" using assms(3) by auto
  have "handleChallenge lib cfg (b64encode nonce) b0 = send_text (bl_json_text lib (JObj (auth_answer lib cfg nonce))) b0" for b0
    unfolding handleChallenge_def Let_def dec msg auth_signature_def [symmetric] enc auth_answer_def using short ne by simp
  then show ?thesis by (simp add: handleText_def hello members send_text_def)
qed

text \<open>
  Claim C19. The backend's challenge is one the board can answer: for a stored, unblocked controller whose
  stored key is the board's, the text the board sends back to a 32 byte nonce is accepted by the handshake,
  and the backend's next message makes the board authenticated.
\<close>

theorem board_passes_handshake:
  assumes "board_libs lib" and "safe_name 64 (cfg_controller_code cfg)" and "length nonce = 32"
    and "controllers_by_code w (cfg_controller_code cfg) = Some c" and "\<not> c_is_blocked c"
    and "\<And>m. length (bl_ed_sign lib (cfg_private_key cfg) (cfg_public_key cfg) m) = 64"
    and "\<And>m. ed25519_verify x (c_public_key c) (bl_ed_sign lib (cfg_private_key cfg) (cfg_public_key cfg) m) m = Inr ()"
    and "b' = handleEvent lib cfg now_ms now (Ws_text (challenge_text nonce t)) b"
    and "length (last (b_sent b')) \<le> MAX_MESSAGE_BYTES"
  shows "(\<exists>message. handshake x peer nonce (last (b_sent b')) w = (Inr (Some (c, message)), w)) \<and>
    b_authenticated (handleEvent lib cfg now_ms' now' (Ws_text (auth_ok_text st)) b')"
proof -
  let ?sig = "auth_signature lib cfg nonce"
  let ?answer = "auth_answer lib cfg nonce"
  have "b_sent b' = b_sent b @ [bl_json_text lib (JObj ?answer)]"
    unfolding assms(8) by (rule board_answers [OF assms(1-3)]) (simp add: auth_signature_def assms(6))
  then have read: "loads (last (b_sent b')) = Some (JObj ?answer)"
    using board_libs.writes [OF assms(1), of "JObj ?answer"] by (simp add: auth_answer_def)
  have "b64_strict (b64encode ?sig) = Inr ?sig"
    using encode_ascii [of _ ?sig] by (auto simp: b64_strict_def b64encode_def [symmetric] b64decode_b64encode list_ex_iff)
      (force simp: b64encode_def)
  then have "parse_auth (last (b_sent b')) = Inr (?answer, cfg_controller_code cfg, ?sig)"
    using assms(9) by (simp add: parse_auth_def read auth_answer_def obj_get_def get_or_def py_str_def)
  then have "handshake x peer nonce (last (b_sent b')) w = (Inr (Some (c, ?answer)), w)"
    using assms(4,5,7) by (simp add: handshake_def comp_simps check_auth_def auth_signature_def)
  moreover have "bl_json lib (auth_ok_text st) = Some (JObj [(''type'', JStr ''auth_ok''),
      (''heartbeat'', JInt (ws_heartbeat_seconds st)), (''signer_key_id'', JStr (signer_key_id st))])"
    unfolding auth_ok_text_def by (rule board_libs.reads [OF assms(1)]) simp
  then have "b_authenticated (handleEvent lib cfg now_ms' now' (Ws_text (auth_ok_text st)) b')"
    by (simp add: handleText_def text_member_def obj_get_def c_str_def led_set_def)
  ultimately show ?thesis by blast
qed

definition greet_ext :: ext where
  "greet_ext = sample_ext\<lparr>ed25519_verify := (\<lambda>k s m. if k = replicate 32 6 \<and> s = replicate 64 0 then Inr ()
     else Inl (InvalidSignature []))\<rparr>"

theorem board_passes_handshake_witness:
  "(\<exists>message. handshake greet_ext None (replicate 32 5)
      (last (b_sent (handleEvent link_lib link_config 0 0 (Ws_text (challenge_text (replicate 32 5) 0)) fresh_board)))
      sample_world = (Inr (Some (sample_controller, message)), sample_world)) \<and>
    b_authenticated (handleEvent link_lib link_config 7 0 (Ws_text (auth_ok_text sample_settings))
      (handleEvent link_lib link_config 0 0 (Ws_text (challenge_text (replicate 32 5) 0)) fresh_board))"
proof (rule board_passes_handshake [OF link_libs])
  have sign: "bl_ed_sign link_lib k p m = replicate 64 0" for k p m by (simp add: link_lib_def reference_lib_def)
  show "safe_name 64 (cfg_controller_code link_config)" by (simp add: safe_name_def link_config_def)
  then have "b_sent (handleEvent link_lib link_config 0 0 (Ws_text (challenge_text (replicate 32 5) 0)) fresh_board) =
      b_sent fresh_board @ [bl_json_text link_lib (JObj (auth_answer link_lib link_config (replicate 32 5)))]"
    by (intro board_answers link_libs) (simp_all add: auth_signature_def sign)
  then have last: "last (b_sent (handleEvent link_lib link_config 0 0 (Ws_text (challenge_text (replicate 32 5) 0)) fresh_board)) =
      dumps False False (JObj [(''type'', JStr ''auth''), (''controller_code'', JStr ''ctrl-1''),
        (''signature'', JStr (b64encode (replicate 64 0))), (''firmware_version'', JStr ''1.0.0'')])"
    by (simp add: auth_answer_def auth_signature_def sign del: dumps.simps)
      (simp add: link_lib_def reference_lib_def link_config_def)
  have "length (dumps False False (JObj [(''type'', JStr ''auth''), (''controller_code'', JStr ''ctrl-1''),
        (''signature'', JStr (b64encode (replicate 64 0))), (''firmware_version'', JStr ''1.0.0'')])) \<le> MAX_MESSAGE_BYTES"
    by code_simp
  then show "length (last (b_sent (handleEvent link_lib link_config 0 0 (Ws_text (challenge_text (replicate 32 5) 0)) fresh_board)))
      \<le> MAX_MESSAGE_BYTES" unfolding last .
  show "controllers_by_code sample_world (cfg_controller_code link_config) = Some sample_controller"
    by (simp add: controllers_by_code_def sample_world_def sample_rows link_config_def)
  show "length (bl_ed_sign link_lib (cfg_private_key link_config) (cfg_public_key link_config) m) = 64" for m
    by (simp add: sign)
  show "ed25519_verify greet_ext (c_public_key sample_controller)
      (bl_ed_sign link_lib (cfg_private_key link_config) (cfg_public_key link_config) m) m = Inr ()" for m
    unfolding sign by (simp add: greet_ext_def sample_controller_def)
qed (simp_all add: sample_controller_def)


section \<open>Updates\<close>

lemma equals_iff:
  "length a = n \<Longrightarrow> length b = n \<Longrightarrow> equalsConstantTime a b d n \<longleftrightarrow> d = 0 \<and> a = b"
proof (induction n arbitrary: a b d)
  case (Suc n)
  obtain x xs y ys where ab: "a = x # xs" "b = y # ys" "length xs = n" "length ys = n"
    using Suc.prems by (auto simp: length_Suc_conv)
  have "or d (xor x y) = 0 \<longleftrightarrow> d = 0 \<and> x = y"
    by (metis or_eq_0_iff xor_self_eq bit.xor_left_self xor.right_neutral)
  then show ?case using Suc.IH [OF ab(3,4)] ab by auto
qed simp

text \<open>Counting as many bytes as announced means having hashed exactly so many.\<close>

lemma download_complete:
  "ota_download flash n hashed chunks = (image', n) \<Longrightarrow> length image' = n"
proof (induction chunks arbitrary: hashed)
  case (Cons chunk chunks)
  then show ?case by (auto split: if_splits)
qed simp

lemma check_image_restart:
  assumes "check_image lib w plan = Ota_restart img"
  shows "length img = op_size plan \<and> equalsConstantTime (bl_sha256 lib img) (op_sha plan) 0 32"
proof -
  obtain chunks where "ow_chunks w (op_url plan) = Some chunks" using assms by (auto simp: check_image_def split: option.splits)
  with assms show ?thesis
    by (auto simp: check_image_def Let_def split: prod.splits if_splits intro: download_complete)
qed

lemma check_manifest_apply:
  assumes "check_manifest lib cfg fetched = Ota_apply plan"
  shows "\<exists>sha signature. base64Decode lib sha 32 = op_sha plan \<and> length (op_sha plan) = 32 \<and>
    op_version plan \<noteq> cfg_firmware_version cfg \<and>
    bl_ed_verify lib (cfg_ota_public_key cfg) signature (utf8 (ota_signed_text (op_version plan) (op_size plan) sha))"
  using assms unfolding check_manifest_def Let_def
  by (clarsimp split: option.splits if_splits) blast

lemma ota_tick_image:
  assumes "b_image (ota_tick lib cfg now_ms w b) = Some img" and "b_image b = None"
  shows "\<exists>plan. check_manifest lib cfg (ow_manifest w) = Ota_apply plan \<and> check_image lib w plan = Ota_restart img"
  using assms
  by (auto simp: ota_tick_def ota_checkNow_def applyUpdate_def sendEvent_def send_text_def
      split: if_splits manifest_verdict.splits image_verdict.splits)

text \<open>Nothing else restarts the board.\<close>

lemma image_event: "b_image (handleEvent lib cfg now_ms now ev b) = b_image b"
  by (cases ev)
    (simp_all add: handleText_def handleCommand_def handleChallenge_def reject_def sendAck_def send_text_def
      led_set_def relay_pulse_def rememberCommand_def Let_def split: option.split)

lemma image_events: "b_image (fold (handleEvent lib cfg now_ms now) evs b) = b_image b"
  by (induction evs arbitrary: b) (simp_all add: image_event del: handleEvent.simps)

lemma image_rest:
  "b_image (ws_tick cfg now_ms b) = b_image b" "b_image (readInputs now_ms tamper closed b) = b_image b"
  "b_image (loop_head lib cfg tn b) = b_image b"
  by (simp_all add: ws_tick_def led_set_def sendEvent_def send_text_def readInputs_def loop_head_def beacon_tick_def
      updateAdvertisement_def led_tick_def relay_tick_def ws_begin_def Let_def split: led_state.split)

lemma board_loop_image:
  assumes "b_image (board_loop lib cfg tn b) = Some img" and "b_image b = None"
  shows "\<exists>plan. check_manifest lib cfg (ow_manifest (tn_ota tn)) = Ota_apply plan \<and>
    check_image lib (tn_ota tn) plan = Ota_restart img"
proof -
  let ?b3 = "ws_loop_tick lib cfg tn (loop_head lib cfg tn b)"
  have none: "b_image ?b3 = None" using assms(2) by (simp add: ws_loop_tick_def image_rest image_events)
  have "b_image (ota_tick lib cfg (tn_ms tn) (tn_ota tn) ?b3) = Some img"
    using assms by (auto simp: board_loop_def Let_def image_rest split: if_splits)
  then show ?thesis by (rule ota_tick_image [OF _ none])
qed

lemma board_run_image:
  assumes "b_image (board_run lib cfg turns (board_setup cfg ms)) = Some img"
  shows "\<exists>tn \<in> set turns. \<exists>plan. check_manifest lib cfg (ow_manifest (tn_ota tn)) = Ota_apply plan \<and>
    check_image lib (tn_ota tn) plan = Ota_restart img"
  using assms
proof (induction turns rule: rev_induct)
  case Nil
  then show ?case by (simp add: board_run_def setup_parts)
next
  case (snoc tn turns)
  show ?case
  proof (cases "b_image (board_run lib cfg turns (board_setup cfg ms))")
    case None
    then show ?thesis using board_loop_image snoc.prems by (simp add: board_run_snoc)
  next
    case (Some other)
    then have "board_loop lib cfg tn (board_run lib cfg turns (board_setup cfg ms)) = board_run lib cfg turns (board_setup cfg ms)"
      by (simp add: board_loop_def)
    then show ?thesis using snoc by (simp add: board_run_snoc)
  qed
qed

lemma ota_text_agrees:
  assumes "CHR ''|'' \<notin> set sha" and "ota_signed_text version n sha = ota_text h version' img'"
  shows "version = version' \<and> n = length img' \<and> sha = b64encode (h img')"
proof -
  have "nat_digits n = nat_digits (length img') \<longleftrightarrow> n = length img'" by (metis digits_value_nat_digits)
  then show ?thesis
    using assms(2) last_field [OF assms(1) b64encode_no_bar, of "version @ ''|'' @ nat_digits n"
        "version' @ ''|'' @ nat_digits (length img')" "h img'"]
      last_field [OF digits_no_bar digits_no_bar, of version n version' "length img'"]
    by (auto simp: ota_signed_text_def ota_text_def DOMAIN_def)
qed

text \<open>
  Claim C16. Over any run, with any server and any network: an image the board restarts into has the hash and
  the size of an image somebody signed with the firmware key, under a version other than the running one.
  Only texts signed for a release are assumed to verify under that key.
\<close>

theorem ota_boots_only_released:
  assumes "board_libs lib" and "\<And>x. bl_sha256 lib x = h x" and "\<And>x. length (h x) = 32"
    and "\<And>s m. bl_ed_verify lib (cfg_ota_public_key cfg) s m \<Longrightarrow>
      \<exists>version released_img. (version, released_img) \<in> released \<and> m = utf8 (ota_text h version released_img)"
    and "b_image (board_run lib cfg turns (board_setup cfg boot_ms)) = Some img"
  shows "\<exists>version released_img. (version, released_img) \<in> released \<and> version \<noteq> cfg_firmware_version cfg \<and>
    h img = h released_img \<and> length img = length released_img"
proof -
  obtain tn :: turn and plan where plan: "check_manifest lib cfg (ow_manifest (tn_ota tn)) = Ota_apply plan"
    and img: "check_image lib (tn_ota tn) plan = Ota_restart img"
    using board_run_image [OF assms(5)] by blast
  from check_manifest_apply [OF plan] obtain sha signature where sha: "base64Decode lib sha 32 = op_sha plan"
    and len: "length (op_sha plan) = 32" and new: "op_version plan \<noteq> cfg_firmware_version cfg"
    and ver: "bl_ed_verify lib (cfg_ota_public_key cfg) signature (utf8 (ota_signed_text (op_version plan) (op_size plan) sha))"
    by blast
  obtain version released_img where rel: "(version, released_img) \<in> released"
    and eq: "ota_signed_text (op_version plan) (op_size plan) sha = ota_text h version released_img"
    using assms(4) [OF ver] by (auto simp: utf8_inj)
  have "op_sha plan \<noteq> []" using len by auto
  then have "CHR ''|'' \<notin> set sha"
    using sha board_libs.alphabet [OF assms(1)] by (auto simp: base64Decode_def split: option.splits if_splits)
  note agree = ota_text_agrees [OF this eq]
  then have "op_sha plan = h released_img"
    using sha board_libs.decode_signature [OF assms(1)] assms(3) by simp
  moreover have "h img = op_sha plan" "length img = op_size plan"
    using check_image_restart [OF img] equals_iff [of "h img" 32 "op_sha plan" 0] assms(2,3) len by simp_all
  ultimately show ?thesis using rel new agree by auto
qed


text \<open>A board that checks for updates, offered a signed image of three bytes in two chunks.\<close>

definition update_config :: board_config where
  "update_config = link_config\<lparr>cfg_ota_manifest_url := ''https://u''\<rparr>"

definition update_lib :: board_lib where
  "update_lib = reference_lib (\<lambda>k _ m. replicate 64 0) (\<lambda>k s m. m = utf8 (ota_text sample_hash ''2.0.0'' [1, 2, 3])) sample_hash"

definition update_manifest :: obj where
  "update_manifest = [(''version'', JStr ''2.0.0''), (''url'', JStr ''https://u/i''), (''size'', JInt 3),
     (''sha256'', JStr (b64encode (sample_hash [1, 2, 3]))), (''signature'', JStr (b64encode (replicate 64 8)))]"

definition update_turn :: turn where
  "update_turn = \<lparr>tn_ms = 60000, tn_time = 0, tn_wifi = True, tn_events = [], tn_tamper_open = False, tn_door_closed = True,
     tn_ota = \<lparr>ow_manifest = Some (dumps False True (JObj update_manifest)),
       ow_chunks = (\<lambda>_. Some [[1, 2], [3]]), ow_begin = True, ow_write = (\<lambda>_. True), ow_end = True\<rparr>\<rparr>"

lemma update_libs: "board_libs update_lib"
  unfolding update_lib_def by (rule reference.board_libs_axioms)

lemma update_plan:
  "check_manifest update_lib update_config (ow_manifest (tn_ota update_turn)) =
     Ota_apply \<lparr>op_url = ''https://u/i'', op_sha = sample_hash [1, 2, 3], op_size = 3, op_version = ''2.0.0''\<rparr>"
proof -
  have read: "bl_json update_lib (dumps False True (JObj update_manifest)) = Some (JObj update_manifest)"
    by (rule board_libs.reads [OF update_libs]) (simp add: update_manifest_def)
  have members: "text_member (JObj update_manifest) ''version'' = ''2.0.0''"
    "text_member (JObj update_manifest) ''url'' = ''https://u/i''" "size_member (JObj update_manifest) = 3"
    "text_member (JObj update_manifest) ''sha256'' = b64encode (sample_hash [1, 2, 3])"
    "text_member (JObj update_manifest) ''signature'' = b64encode (replicate 64 8)"
    using plain_c_str [OF b64_plain]
    by (simp_all add: update_manifest_def text_member_def size_member_def json_member_def obj_get_def c_str_def)
  have dec: "base64Decode update_lib (b64encode (sample_hash [1, 2, 3])) 32 = sample_hash [1, 2, 3]"
    "base64Decode update_lib (b64encode (replicate 64 8)) 64 = replicate 64 8"
    using board_libs.decode_signature [OF update_libs] length_sample_hash by simp_all
  have signed: "ota_signed_text ''2.0.0'' 3 (b64encode (sample_hash [1, 2, 3])) = ota_text sample_hash ''2.0.0'' [1, 2, 3]"
    by (simp add: ota_signed_text_def ota_text_def DOMAIN_def numeral_3_eq_3)
  have "bl_ed_verify update_lib k s (utf8 (ota_text sample_hash ''2.0.0'' [1, 2, 3]))" for k s
    by (simp add: update_lib_def reference_lib_def)
  moreover have "cfg_firmware_version update_config = ''1.0.0''" by (simp add: update_config_def link_config_def)
  ultimately show ?thesis
    unfolding check_manifest_def update_turn_def turn.simps ota_world.simps option.case read Let_def members dec signed
    by (simp add: length_sample_hash)
qed

lemma update_image:
  "check_image update_lib (tn_ota update_turn)
     \<lparr>op_url = ''https://u/i'', op_sha = sample_hash [1, 2, 3], op_size = 3, op_version = ''2.0.0''\<rparr> = Ota_restart [1, 2, 3]"
proof -
  have "bl_sha256 update_lib = sample_hash" by (simp add: update_lib_def reference_lib_def)
  then show ?thesis by (simp add: check_image_def update_turn_def equals_iff length_sample_hash)
qed

lemma update_run: "b_image (board_run update_lib update_config [update_turn] (board_setup update_config 0)) = Some [1, 2, 3]"
proof -
  let ?b = "ws_loop_tick update_lib update_config update_turn (loop_head update_lib update_config update_turn (board_setup update_config 0))"
  have turn: "tn_ms update_turn = 60000" "tn_wifi update_turn" "tn_events update_turn = []" "tn_time update_turn = 0"
    by (simp_all add: update_turn_def)
  have "b_ota_enabled ?b" "b_ota_next_ms ?b = 60000"
    by (simp_all add: ws_loop_tick_def ws_tick_def loop_head_def beacon_tick_def led_tick_def relay_tick_def ws_begin_def
        led_set_def turn board_setup_def ota_begin_def fresh_board_def update_config_def kClockSane_def Let_def)
  then have "b_image (ota_tick update_lib update_config 60000 (tn_ota update_turn) ?b) = Some [1, 2, 3]"
    by (simp add: ota_tick_def ota_checkNow_def update_plan applyUpdate_def update_image)
  then show ?thesis
    by (simp add: board_run_def board_loop_def setup_parts loop_head_started turn Let_def)
qed

theorem ota_boots_only_released_witness:
  "\<exists>version released_img. (version, released_img) \<in> {(''2.0.0'', [1, 2, 3 :: byte])} \<and> version \<noteq> ''1.0.0'' \<and>
    sample_hash [1, 2, 3] = sample_hash released_img \<and> length [1 :: byte, 2, 3] = length released_img"
proof -
  have v: "cfg_firmware_version update_config = ''1.0.0''" by (simp add: update_config_def link_config_def)
  show ?thesis
    by (rule ota_boots_only_released [where cfg = update_config and h = sample_hash, unfolded v, OF update_libs _ _ _ update_run])
      (auto simp: update_lib_def reference_lib_def length_sample_hash)
qed

end
