(* ===== verification/Spec2Isabelle.thy ===== *)
theory Spec2Isabelle
  imports Backend Provisioning Partitions Grants Json_Fuel Firmware_Services
begin

text \<open>
  Evtimov Doors Control System: verification of the backend and of the door controller's firmware.

  \<^bold>\<open>The program.\<close> A phone asks the API to open a door. The API (\<^verbatim>\<open>backend/app\<close>) looks the bearer's
  token up, checks the grant, the proximity of the phone and the rate budget, has a short-lived command
  signed by a separate process (\<^verbatim>\<open>backend/signer\<close>) over a Unix socket and sends it to the door's
  controller over a websocket the controller opened. An operator grants access with a second
  application (\<^verbatim>\<open>backend/admin\<close>) and two scripts (\<^verbatim>\<open>backend/scripts\<close>). All of them share one PostgreSQL
  database whose audit table is hash-chained by a trigger (\<^verbatim>\<open>backend/db/migrations\<close>). The controller
  (\<^verbatim>\<open>firmware/esp32\<close>) rebuilds the signed bytes from the fields of the command, verifies the signature and
  the freshness itself and pulses the relay; it also advertises the beacon the phone reports, and updates
  itself from signed manifests.

  \<^bold>\<open>How the model is built.\<close> The state is one record, \<open>world\<close> (theory \<open>Store\<close>): one list of rows per
  table, the audit log, the clock, the number of random values drawn so far, and what the API process
  keeps in memory (the controller hub, the enrolment challenges, the limiter's memory, the cached dummy
  hashes). A method is a computation over that state which returns a value or raises an exception of
  the datatype \<open>exn\<close>; the state is kept when it raises, since every statement commits on its own. One
  statement is atomic. Code that is not in the repository is the argument \<open>ext\<close>: SHA-256, Argon2, Ed25519,
  X.509, PostgreSQL's text conversions and time zones, the signer's socket, what arrives on a controller's
  socket while a command waits, and the random tape; asyncpg and the role a DSN names are arguments of the
  theories that use them.

  \<^bold>\<open>Theories, in the order of their imports.\<close>
  \<^item> \<open>Acs_Prelude\<close>: Python text, UTF-8, the computations, their frame rules and inversion rules.
  \<^item> \<open>Text_Codec\<close>, \<open>Json\<close>, \<open>Json_Fuel\<close>, \<open>Ipaddr\<close>: what the sources use of \<^verbatim>\<open>base64\<close>, \<^verbatim>\<open>hmac\<close>, \<^verbatim>\<open>int.to_bytes\<close>, \<^verbatim>\<open>json\<close> and
    \<^verbatim>\<open>ipaddress\<close>; encoding and decoding are inverse, membership in a network is a comparison of bits.
  \<^item> \<open>Errors\<close>, \<open>Config\<close>: \<^verbatim>\<open>core/errors.py\<close>, \<^verbatim>\<open>core/config.py\<close>.
  \<^item> \<open>Proximity\<close>: \<^verbatim>\<open>core/proximity.py\<close>; an accepted identifier is one the beacon sent inside the window, and
    every such identifier is accepted.
  \<^item> \<open>Signer\<close>, \<open>Provisioning\<close>: \<^verbatim>\<open>signer/protocol.py\<close>, \<^verbatim>\<open>server.py\<close>, \<^verbatim>\<open>keygen.py\<close>, \<^verbatim>\<open>core/signer_client.py\<close> and
    \<^verbatim>\<open>firmware/esp32/scripts/sign_firmware.py\<close>; no signature outside the signer's limits, the signed bytes
    determine the command, a signer started from printed keys, what a firmware signature covers.
  \<^item> \<open>Attestation\<close>: \<^verbatim>\<open>core/attestation.py\<close>; the DER reader is total, the verdict is characterised.
  \<^item> \<open>Hub\<close>: \<^verbatim>\<open>ws/hub.py\<close>, with \<^verbatim>\<open>send_command\<close> split at its await points and the interleavings as a step
    relation.
  \<^item> \<open>Audit_Chain\<close>, \<open>Partitions\<close>, \<open>Grants\<close>: migrations 004, 005 and 006; tampering is evident, which rows find
    a partition, what the roles can and cannot do.
  \<^item> \<open>Store\<close>, \<open>Repositories\<close>, \<open>Invariants\<close>: the tables, every statement of \<^verbatim>\<open>db/repositories\<close>, and what all of
    them keep: well-formedness (\<open>db_inv\<close>) and the relation \<open>progress\<close> (nothing revoked, used or blocked
    comes back, the log only grows, time does not go backwards).
  \<^item> \<open>Security\<close>, \<open>Rate_Limit\<close>, \<open>Auth\<close>, \<open>Unlock\<close>, \<open>Enrollment\<close>, \<open>Controller_Ws\<close>: \<^verbatim>\<open>core/security.py\<close>,
    \<^verbatim>\<open>services/audit_service.py\<close>, \<^verbatim>\<open>core/ratelimit.py\<close>, \<^verbatim>\<open>services/auth_service.py\<close>,
    \<^verbatim>\<open>services/unlock_service.py\<close>, \<^verbatim>\<open>services/enrollment_service.py\<close>, \<^verbatim>\<open>ws/controller_ws.py\<close>;
    \<open>Unlock_Correct\<close> holds the proofs about the unlock decision.
  \<^item> \<open>Schemas\<close>, \<open>Api\<close>, \<open>Api_Correct\<close>: \<^verbatim>\<open>models/schemas.py\<close>, \<^verbatim>\<open>api/*.py\<close> and the error and header handling
    of \<^verbatim>\<open>main.py\<close>; what every endpoint requires and answers.
  \<^item> \<open>Admin\<close>, \<open>Admin_Correct\<close>: \<^verbatim>\<open>admin/main.py\<close> and the operator scripts.
  \<^item> \<open>Startup\<close>: \<^verbatim>\<open>db/pool.py\<close>, \<^verbatim>\<open>Services.build\<close>, the lifespans and application objects.
  \<^item> \<open>Backend\<close>: all of it as one machine of events, its invariant, and its refinement of an abstract ledger.
  \<^item> \<open>Firmware\<close>: \<^verbatim>\<open>firmware/esp32/src\<close>, one record for the state of the board, one function per method, and
    one turn of \<^verbatim>\<open>loop()\<close> over what the socket, the pins and the network deliver. \<open>Firmware_Correct\<close>: what a
    run of turns does to the relay and the replay ring, and that the rebuilt text determines the command.
    \<open>Firmware_Link\<close>: the board and the backend compute the same bytes, nothing but a command the signer
    signed opens the door, and an unlock of the API reaches the relay. \<open>Firmware_Services\<close>: the beacon, the
    relay's clock, the handshake from the board's side, the update.
  \<^item> \<open>Sample\<close>: a small installation on which the concrete instances are evaluated.

  \<^bold>\<open>Interfaces.\<close> \<open>frame_rel\<close> and \<open>step_invariant\<close> (prelude) carry every proof that a handler keeps a relation or
  an invariant; \<open>b64_alphabet\<close> the two base64 alphabets; \<open>command_signer\<close>
  what a caller of the signer may rely on; \<open>simulation\<close> the refinement of \<open>Backend\<close>; \<open>board_libs\<close> what the
  firmware may rely on of its JSON and base64 libraries, which the backend's own codecs satisfy. Each is
  interpreted on the definitions of the model.

  \<^bold>\<open>Bounds and fuel.\<close> The JSON scanner recurses on a fuel of two units per character of the input;
  \<open>Json_Fuel\<close> proves that more fuel never changes an answer, and the round trips in \<open>Json\<close> hold for every
  value. The DER reader and the tag scanner terminate by measures over the unread input. The heartbeat, which
  may run forever, is a partial function, and that it ends for a silent controller is proved as such. The
  message loop of a connection recurses on the received messages. Python integers are unbounded
  integers; bytes are 8-bit words; an address is a 32- or 128-bit number. On the board the millisecond
  counter and durations are 32-bit words that wrap, the beacon slot a 64-bit word; a command made from names
  the API admits is proved to fit the 512 byte buffer and a request line of the signer.

  \<^bold>\<open>Text.\<close> A character is a code point below 256; a JSON escape beyond that is rejected by the model's parser.

  \<^bold>\<open>Not modelled.\<close> The Android application (Kotlin), build and deployment files and the tests. On the board, the
  pins, the watchdog and Wi-Fi; one reading of the clocks serves a whole turn. FastAPI's routing and pydantic's coercions: the handlers
  take the parsed request, and the declared constraints are the predicates of \<open>Schemas\<close>. The reading of the
  environment by pydantic-settings. Two statements that run at the same time in different transactions,
  except where a finding needs it (the race of two refreshes in \<open>Auth\<close>, the numbering of concurrent audit
  rows in \<open>Audit_Chain\<close>). The model of an audit insert in \<open>Repositories\<close> takes the partition of the current
  month to exist; \<open>Partitions\<close> says when it does. Timing below the level of \<^verbatim>\<open>fixed_duration\<close> and of the waits.
\<close>

section \<open>From the printed key to an opened door\<close>

text \<open>
  Claim C23. A signer started from the lines \<^verbatim>\<open>keygen\<close> printed signs every command the unlock service builds
  for a door of a well-formed database, under a command lifetime the signer allows and as long as the
  request fits one line: over the socket the service gets the signature of the generated key over the
  canonical bytes of its command, under the key identifier \<^verbatim>\<open>signer-1\<close>.
\<close>

theorem provisioned_signer_signs_unlock:
  assumes "length key = 32" and "socket_place_free fs (path_of sock)"
    and "db_inv x w" and "doors_by_id w did = Some (door, c)" and "length nonce = 16"
    and "0 < command_ttl_seconds st" and "command_ttl_seconds st \<le> 30"
    and "cmd = unlock_payload st door code cid issued_at nonce"
    and "length (encode_request (sign_request cmd)) \<le> MAX_LINE_BYTES"
  shows "\<exists>svc fs'.
      signer_main created fs ((environ_of (keygen_main False key (ed_public key) beacon))(''ACS_SIGNER_SOCKET'' \<mapsto> sock))
        = Inr (svc, fs')
    \<and> sign_command (signer_socket_of ed_public ed_sign svc) cmd = Inr (ed_sign key (canonical_bytes cmd), JStr ''signer-1'')"
proof -
  have "within_limits cmd"
    using payload_limits [OF doors_by_id_Some(3) [OF assms(3,4)] assms(5)] assms(6-8) by simp
  then have "validate_command cmd = Inr ()" by (simp add: validate_command_iff)
  moreover have "json_ok (JObj cmd)" unfolding assms(8) by (rule payload_json_ok)
  ultimately show ?thesis
    using signer_main_keygen [OF assms(1,2)] assms(9) by (simp add: sign_command_signer)
qed

theorem provisioned_signer_signs_unlock_witness:
  "\<exists>svc fs'.
      signer_main 511 (\<lambda>p. None)
        ((environ_of (keygen_main False (replicate 32 7) (replicate 32 7) []))(''ACS_SIGNER_SOCKET'' \<mapsto> ''s.sock'')) = Inr (svc, fs')
    \<and> sign_command (signer_socket_of id (\<lambda>k m. k @ m) svc) (unlock_payload default_settings sample_door ''ctrl-1'' ''k'' 120 (replicate 16 0))
        = Inr (replicate 32 7 @ canonical_bytes (unlock_payload default_settings sample_door ''ctrl-1'' ''k'' 120 (replicate 16 0)),
             JStr ''signer-1'')"
proof -
  let ?cmd = "unlock_payload default_settings sample_door ''ctrl-1'' ''k'' 120 (replicate 16 0)"
  have place: "socket_place_free (\<lambda>p. None) (path_of ''s.sock'')" by (simp add: socket_place_free_def path_of_def)
  have door: "doors_by_id sample_world ''o1'' = Some (sample_door, Some sample_controller)"
    by (simp add: doors_by_id_def controller_of_def controllers_by_id_def sample_world_def sample_rows)
  have ttl: "0 < command_ttl_seconds default_settings" "command_ttl_seconds default_settings \<le> 30"
    by (simp_all add: default_settings_def)
  have "length (encode_request (sign_request ?cmd)) \<le> 400" by code_simp
  then have fits: "length (encode_request (sign_request ?cmd)) \<le> MAX_LINE_BYTES" by (simp add: MAX_LINE_BYTES_def)
  show ?thesis
    using provisioned_signer_signs_unlock [of "replicate 32 7", OF _ place sample_world_inv door _ ttl refl fits, of 511 id "[]" "\<lambda>k m. k @ m"]
    by (simp only: id_apply length_replicate simp_thms)
qed

end
